(* ===== verification/Prelude.thy ===== *)
theory Prelude
  imports Complex_Main "HOL-Library.Word" "HOL-Library.List_Lexorder" "HOL-Library.Char_ord"
begin

text \<open>
  The prelude of the development: the names of the machine types the program uses, the
  exceptions its handlers tell apart, the computations that may raise and may change the
  state, and the parts of the C++ standard library that several components share
  (\<^verbatim>\<open>std::to_string\<close>, \<^verbatim>\<open>std::stoull\<close>).

  Log output is not modelled: no branch of the program reads it back.
\<close>

section \<open>Machine types\<close>

type_synonym uint64 = "64 word"
type_synonym uint256 = "256 word"
type_synonym time_t = int
type_synonym double = rat

text \<open>
  A \<open>double\<close> is represented by the rational number it denotes; rounding is never relied on.
  \<open>time_t\<close> is a signed 64-bit integer; it is an unbounded \<open>int\<close> here.
\<close>

section \<open>Exceptions\<close>

text \<open>
  The exceptions the \<^verbatim>\<open>catch\<close> clauses of the program distinguish: the driver's
  \<^verbatim>\<open>RethinkDB::Error\<close> (not a \<^verbatim>\<open>std::exception\<close>), its \<^verbatim>\<open>TimeoutException\<close>, the five
  classes of JSON exceptions listed in \<^verbatim>\<open>backend/jsonrpc/router.hpp\<close>, the other standard
  exceptions, and anything else (\<^verbatim>\<open>catch (...)\<close>).
\<close>

datatype exn =
    Reql_error string
  | Timeout
  | Json_parse_error string
  | Json_invalid_iterator string
  | Json_type_error string
  | Json_out_of_range string
  | Json_other_error string
  | Std_exception string
  | Unknown_exn

fun is_std_exception :: "exn \<Rightarrow> bool" where
  "is_std_exception (Reql_error _) = False"
| "is_std_exception Unknown_exn = False"
| "is_std_exception _ = True"

fun is_reql_error :: "exn \<Rightarrow> bool" where
  "is_reql_error (Reql_error _) = True"
| "is_reql_error _ = False"

section \<open>Computations\<close>

text \<open>
  \<open>'a result\<close> is the outcome of a call: an exception or a value. A call that also reads and
  writes the state \<open>'s\<close> is a \<open>('s, 'a) prog\<close>: the state that the effects before an exception
  left behind is kept, as it is in the program.
\<close>

type_synonym 'a result = "exn + 'a"
type_synonym ('s, 'a) prog = "'s \<Rightarrow> 'a result \<times> 's"

definition bindE :: "'a result \<Rightarrow> ('a \<Rightarrow> 'b result) \<Rightarrow> 'b result" where
  "bindE r f = (case r of Inl e \<Rightarrow> Inl e | Inr x \<Rightarrow> f x)"

definition ret :: "'a \<Rightarrow> ('s, 'a) prog" where
  "ret x = (\<lambda>s. (Inr x, s))"

definition raise :: "exn \<Rightarrow> ('s, 'a) prog" where
  "raise e = (\<lambda>s. (Inl e, s))"

definition lift :: "'a result \<Rightarrow> ('s, 'a) prog" where
  "lift r = (\<lambda>s. (r, s))"

definition bindP :: "('s, 'a) prog \<Rightarrow> ('a \<Rightarrow> ('s, 'b) prog) \<Rightarrow> ('s, 'b) prog" where
  "bindP m f = (\<lambda>s. case m s of (Inl e, s') \<Rightarrow> (Inl e, s') | (Inr x, s') \<Rightarrow> f x s')"

definition catchP :: "('s, 'a) prog \<Rightarrow> (exn \<Rightarrow> ('s, 'a) prog) \<Rightarrow> ('s, 'a) prog" where
  "catchP m h = (\<lambda>s. case m s of (Inl e, s') \<Rightarrow> h e s' | (Inr x, s') \<Rightarrow> (Inr x, s'))"

definition modifyP :: "('s \<Rightarrow> 's) \<Rightarrow> ('s, unit) prog" where
  "modifyP f = (\<lambda>s. (Inr (), f s))"

definition getP :: "('s \<Rightarrow> 'a) \<Rightarrow> ('s, 'a) prog" where
  "getP f = (\<lambda>s. (Inr (f s), s))"

text \<open>A range-based \<^verbatim>\<open>for\<close> loop without a \<^verbatim>\<open>break\<close>: an exception leaves it.\<close>

fun forP :: "'a list \<Rightarrow> ('a \<Rightarrow> ('s, unit) prog) \<Rightarrow> ('s, unit) prog" where
  "forP [] f = ret ()"
| "forP (x # xs) f = bindP (f x) (\<lambda>_. forP xs f)"

text \<open>The unfolding rules of computations, used by every component.\<close>

named_theorems prog_simps \<open>unfolding of computations\<close>

lemma bindE_simps [simp]:
  "bindE (Inl e) f = Inl e"
  "bindE (Inr x) f = f x"
  by (simp_all add: bindE_def)

lemma bindE_eq_Inr: "bindE r f = Inr y \<longleftrightarrow> (\<exists>x. r = Inr x \<and> f x = Inr y)"
  by (cases r) auto

lemma bindE_eq_Inl: "bindE r f = Inl e \<longleftrightarrow> r = Inl e \<or> (\<exists>x. r = Inr x \<and> f x = Inl e)"
  by (cases r) auto

lemma ret_apply [simp, prog_simps]: "ret x s = (Inr x, s)"
  by (simp add: ret_def)

lemma raise_apply [simp, prog_simps]: "raise e s = (Inl e, s)"
  by (simp add: raise_def)

lemma lift_apply [simp, prog_simps]: "lift r s = (r, s)"
  by (simp add: lift_def)

lemma modifyP_apply [simp, prog_simps]: "modifyP f s = (Inr (), f s)"
  by (simp add: modifyP_def)

lemma getP_apply [simp, prog_simps]: "getP f s = (Inr (f s), s)"
  by (simp add: getP_def)

lemma bindP_apply_Inr: "m s = (Inr x, s') \<Longrightarrow> bindP m f s = f x s'"
  by (simp add: bindP_def)

lemma bindP_apply_Inl: "m s = (Inl e, s') \<Longrightarrow> bindP m f s = (Inl e, s')"
  by (simp add: bindP_def)

lemma bindP_basic [simp]:
  "bindP (ret x) f = f x"
  "bindP (raise e) f = raise e"
  "bindP (lift (Inr x)) f = f x"
  "bindP (lift (Inl e)) f = raise e"
  "bindP (getP g) f s = f (g s) s"
  "bindP (modifyP h) k s = k () (h s)"
  by (auto simp: bindP_def fun_eq_iff)

lemma catchP_basic [simp]:
  "catchP (ret x) h = ret x"
  "catchP (raise e) h = h e"
  by (auto simp: catchP_def fun_eq_iff)

lemma catchP_apply_Inr: "m s = (Inr x, s') \<Longrightarrow> catchP m h s = (Inr x, s')"
  by (simp add: catchP_def)

lemma catchP_apply_Inl: "m s = (Inl e, s') \<Longrightarrow> catchP m h s = h e s'"
  by (simp add: catchP_def)

lemma forP_cong: "(\<And>x. x \<in> set xs \<Longrightarrow> f x = g x) \<Longrightarrow> forP xs f = forP xs g"
  by (induction xs) auto

text \<open>
  A loop whose iterations all end well: what relates the states before and after an iteration relates those
  before and after the loop, and what an iteration establishes for its element holds at the end for all.
\<close>

lemma forP_steps:
  assumes "\<And>x s. x \<in> set xs \<Longrightarrow> I s \<Longrightarrow> \<exists>s'. f x s = (Inr (), s') \<and> I s' \<and> R s s' \<and> H s' x"
    and refl: "\<And>s. R s s" and trans: "\<And>s s' s''. R s s' \<Longrightarrow> R s' s'' \<Longrightarrow> R s s''"
    and mono: "\<And>s s' x. R s s' \<Longrightarrow> H s x \<Longrightarrow> H s' x" and "I s"
  shows "\<exists>s'. forP xs f s = (Inr (), s') \<and> I s' \<and> R s s' \<and> (\<forall>x \<in> set xs. H s' x)"
  using assms(1,5)
proof (induction xs arbitrary: s)
  case Nil
  then show ?case by (simp add: refl)
next
  case (Cons x xs)
  obtain s1 where 1: "f x s = (Inr (), s1)" "I s1" "R s s1" "H s1 x"
    using Cons.prems(1) [of x s] Cons.prems(2) by auto
  have "\<exists>s'. forP xs f s1 = (Inr (), s') \<and> I s' \<and> R s1 s' \<and> (\<forall>x \<in> set xs. H s' x)"
    by (rule Cons.IH) (use Cons.prems(1) 1(2) in auto)
  then obtain s' where 2: "forP xs f s1 = (Inr (), s')" "I s'" "R s1 s'" "\<forall>x \<in> set xs. H s' x" by blast
  have "forP (x # xs) f s = (Inr (), s')" using 1(1) 2(1) by (simp add: bindP_def)
  with 2(2,4) trans [OF 1(3) 2(3)] mono [OF 2(3) 1(4)] show ?case by auto
qed

text \<open>
  An invariant that every iteration keeps, exception or not, holds after a loop.
\<close>

lemma forP_invariant:
  assumes "I s" and "\<And>x s. x \<in> set xs \<Longrightarrow> I s \<Longrightarrow> I (snd (f x s))"
  shows "I (snd (forP xs f s))"
  using assms
proof (induction xs arbitrary: s)
  case Nil
  then show ?case by simp
next
  case (Cons x xs)
  obtain r s' where fx: "f x s = (r, s')" by (cases "f x s")
  with Cons.prems have "I s'" by (metis list.set_intros(1) snd_conv)
  with Cons.IH Cons.prems(2) have "I (snd (forP xs f s'))" by simp
  with \<open>I s'\<close> fx show ?case by (cases r) (auto simp: bindP_def)
qed

text \<open>
  A loop that repeats \<open>m\<close> until it has a result, with at most \<open>n\<close> rounds: \<open>None\<close> says that the rounds
  did not suffice. \<open>fails m k s s'\<close>: from \<open>s\<close> the first \<open>k\<close> rounds have no result and end in \<open>s'\<close>.
\<close>

fun retryP :: "nat \<Rightarrow> ('s, 'a option) prog \<Rightarrow> ('s, 'a option) prog" where
  "retryP 0 m = ret None"
| "retryP (Suc n) m = bindP m (\<lambda>r. case r of Some x \<Rightarrow> ret (Some x) | None \<Rightarrow> retryP n m)"

inductive fails :: "('s, 'a option) prog \<Rightarrow> nat \<Rightarrow> 's \<Rightarrow> 's \<Rightarrow> bool" for m where
  fails_0: "fails m 0 s s"
| fails_Suc: "m s = (Inr None, s1) \<Longrightarrow> fails m k s1 s2 \<Longrightarrow> fails m (Suc k) s s2"

lemma retryP_fails: "fails m k s s' \<Longrightarrow> retryP (k + n) m s = retryP n m s'"
  by (induction rule: fails.induct) (simp_all add: bindP_def)

text \<open>More rounds do not change a result, and one round with a result is enough.\<close>

lemma retryP_mono:
  assumes "retryP n m s = (Inr (Some x), s')" "n \<le> n'"
  shows "retryP n' m s = (Inr (Some x), s')"
  using assms
proof (induction n arbitrary: s n')
  case 0
  then show ?case by simp
next
  case (Suc n)
  then obtain k where k: "n' = Suc k" "n \<le> k" by (cases n') auto
  show ?case using Suc.prems(1) Suc.IH [OF _ k(2)] unfolding k(1)
    by (auto simp: bindP_def split: prod.splits sum.splits option.splits)
qed

lemma retryP_enough:
  assumes "fails m k s s1" "m s1 = (Inr (Some x), s2)" "k < n"
  shows "retryP n m s = (Inr (Some x), s2)"
proof -
  obtain j where n: "n = k + Suc j" using assms(3) less_imp_Suc_add by force
  show ?thesis unfolding n retryP_fails [OF assms(1)] using assms(2) by (simp add: bindP_def)
qed

text \<open>A run of rounds that ends with a result has this form.\<close>

lemma retryP_result:
  assumes "retryP n m s = (Inr (Some x), s')"
  shows "\<exists>k s1. k < n \<and> fails m k s s1 \<and> m s1 = (Inr (Some x), s')"
  using assms
proof (induction n arbitrary: s)
  case 0
  then show ?case by simp
next
  case (Suc n)
  obtain r s1 where m: "m s = (r, s1)" by (cases "m s")
  then consider (raised) e where "r = Inl e" | (none) "r = Inr None" | (some) y where "r = Inr (Some y)"
    by (metis old.sum.exhaust option.exhaust)
  then show ?case
  proof cases
    case raised
    with Suc.prems m show ?thesis by (simp add: bindP_def)
  next
    case none
    with Suc.prems m Suc.IH [of s1] show ?thesis by (fastforce simp: bindP_def intro: fails_Suc)
  next
    case some
    with Suc.prems m show ?thesis by (auto simp: bindP_def intro: fails_0)
  qed
qed

text \<open>A computation that raises from every state.\<close>

definition raises :: "('s, 'a) prog \<Rightarrow> bool" where
  "raises m \<longleftrightarrow> (\<forall>s. \<exists>e s'. m s = (Inl e, s'))"

lemma raises_lift: "raises (lift (Inl e))"
  by (simp add: raises_def)

lemma raises_bindP:
  assumes "\<And>x. raises (f x)"
  shows "raises (bindP m f)"
  unfolding raises_def
proof
  fix s
  obtain r s' where "m s = (r, s')" by (cases "m s")
  then show "\<exists>e s'. bindP m f s = (Inl e, s')"
    using assms by (cases r) (auto simp: bindP_def raises_def)
qed

lemma raises_bindP_first: "raises m \<Longrightarrow> raises (bindP m f)"
  unfolding raises_def bindP_def by (metis (mono_tags, lifting) case_prod_conv old.sum.simps(5))

text \<open>
  A property of the state that a computation keeps, whether it raises or not. The rules follow the
  structure of a computation.
\<close>

definition invP :: "('s \<Rightarrow> bool) \<Rightarrow> ('s, 'a) prog \<Rightarrow> bool" where
  "invP P m \<longleftrightarrow> (\<forall>s. P s \<longrightarrow> P (snd (m s)))"

named_theorems inv_intros \<open>structural rules for what a computation keeps\<close>

lemma invPD: "invP P m \<Longrightarrow> m s = (r, s') \<Longrightarrow> P s \<Longrightarrow> P s'"
  unfolding invP_def by (metis snd_conv)

lemma invP_basic [inv_intros]:
  "invP P (ret x)" "invP P (raise e)" "invP P (lift r)" "invP P (getP h)"
  by (simp_all add: invP_def)

lemma invP_modifyP [inv_intros]: "(\<And>s. P s \<Longrightarrow> P (h s)) \<Longrightarrow> invP P (modifyP h)"
  by (simp add: invP_def)

lemma invP_bindP [inv_intros]: "invP P m \<Longrightarrow> (\<And>x. invP P (f x)) \<Longrightarrow> invP P (bindP m f)"
  by (auto simp: invP_def bindP_def split: prod.split sum.split)

lemma invP_catchP [inv_intros]: "invP P m \<Longrightarrow> (\<And>e. invP P (h e)) \<Longrightarrow> invP P (catchP m h)"
  by (auto simp: invP_def catchP_def split: prod.split sum.split)

lemma invP_forP [inv_intros]:
  assumes "\<And>x. x \<in> set xs \<Longrightarrow> invP P (f x)"
  shows "invP P (forP xs f)"
  using assms by (induction xs) (auto intro!: inv_intros)

lemma invP_branches [inv_intros]:
  "invP P a \<Longrightarrow> invP P b \<Longrightarrow> invP P (if c then a else b)"
  "invP P a \<Longrightarrow> (\<And>x. invP P (k x)) \<Longrightarrow> invP P (case q of None \<Rightarrow> a | Some x \<Rightarrow> k x)"
  "(\<And>x y. invP P (h x y)) \<Longrightarrow> invP P (case p of (x, y) \<Rightarrow> h x y)"
  "(\<And>x. invP P (u x)) \<Longrightarrow> (\<And>y. invP P (v y)) \<Longrightarrow> invP P (case z of Inl x \<Rightarrow> u x | Inr y \<Rightarrow> v y)"
  "(\<And>x. invP P (l x)) \<Longrightarrow> invP P (Let e l)"
  by (auto split: option.split prod.split sum.split simp: Let_def)

lemma invP_retryP [inv_intros]: "invP P m \<Longrightarrow> invP P (retryP n m)"
  by (induction n) (auto intro!: inv_intros)

section \<open>Decimal numbers of the standard library\<close>

definition digit_char :: "nat \<Rightarrow> char" where
  "digit_char d = char_of (48 + d)"

definition is_digit_char :: "char \<Rightarrow> bool" where
  "is_digit_char c \<longleftrightarrow> 48 \<le> (of_char c :: nat) \<and> (of_char c :: nat) \<le> 57"

definition digit_value :: "char \<Rightarrow> nat" where
  "digit_value c = of_char c - 48"

text \<open>\<^verbatim>\<open>std::to_string\<close> on an unsigned integer.\<close>

fun to_string :: "nat \<Rightarrow> string" where
  "to_string n = (if n < 10 then [digit_char n] else to_string (n div 10) @ [digit_char (n mod 10)])"

declare to_string.simps [simp del]

definition decimal_value :: "string \<Rightarrow> nat" where
  "decimal_value s = foldl (\<lambda>a c. 10 * a + digit_value c) 0 s"

text \<open>
  \<^verbatim>\<open>std::stoull\<close>: leading white space, an optional sign, then the longest run of decimal
  digits; no digit raises \<^verbatim>\<open>std::invalid_argument\<close>, a value above the range of the type
  raises \<^verbatim>\<open>std::out_of_range\<close>, a minus sign negates modulo \<open>2 ^ 64\<close>, and what follows the
  digits is ignored.
\<close>

definition is_space_char :: "char \<Rightarrow> bool" where
  "is_space_char c \<longleftrightarrow> (of_char c :: nat) = 32 \<or> (9 \<le> (of_char c :: nat) \<and> (of_char c :: nat) \<le> 13)"

definition stoull :: "string \<Rightarrow> uint64 result" where
  "stoull s =
     (let t = dropWhile is_space_char s;
          neg = (t \<noteq> [] \<and> hd t = CHR ''-'');
          u = (if t \<noteq> [] \<and> (hd t = CHR ''-'' \<or> hd t = CHR ''+'') then tl t else t);
          ds = takeWhile is_digit_char u
      in if ds = [] then Inl (Std_exception ''stoull: invalid_argument'')
         else if 2 ^ 64 \<le> decimal_value ds then Inl (Std_exception ''stoull: out_of_range'')
         else Inr (if neg then - of_nat (decimal_value ds) else of_nat (decimal_value ds)))"

lemma of_char_digit_char [simp]: "d < 10 \<Longrightarrow> (of_char (digit_char d) :: nat) = 48 + d"
  by (simp add: digit_char_def)

lemma digit_char_digit [simp]: "d < 10 \<Longrightarrow> is_digit_char (digit_char d)"
  by (simp add: is_digit_char_def)

lemma digit_value_digit_char [simp]: "d < 10 \<Longrightarrow> digit_value (digit_char d) = d"
  by (simp add: digit_value_def)

lemma to_string_digits: "c \<in> set (to_string n) \<Longrightarrow> is_digit_char c"
proof (induction n rule: to_string.induct)
  case (1 n)
  show ?case
  proof (cases "n < 10")
    case True
    with "1.prems" show ?thesis by (simp add: to_string.simps [of n])
  next
    case False
    with 1 show ?thesis by (auto simp: to_string.simps [of n])
  qed
qed

lemma to_string_not_Nil [simp]: "to_string n \<noteq> []"
  by (subst to_string.simps) simp

lemma decimal_value_snoc [simp]: "decimal_value (s @ [c]) = 10 * decimal_value s + digit_value c"
  by (simp add: decimal_value_def)

lemma decimal_value_to_string [simp]: "decimal_value (to_string n) = n"
proof (induction n rule: to_string.induct)
  case (1 n)
  show ?case
  proof (cases "n < 10")
    case True
    then show ?thesis by (simp add: to_string.simps [of n] decimal_value_def)
  next
    case False
    with 1 show ?thesis by (simp add: to_string.simps [of n])
  qed
qed

lemma to_string_inject [simp]: "to_string m = to_string n \<longleftrightarrow> m = n"
  by (metis decimal_value_to_string)

lemma digit_not_space: "is_digit_char c \<Longrightarrow> \<not> is_space_char c"
  by (auto simp: is_digit_char_def is_space_char_def)

lemma digit_not_sign: "is_digit_char c \<Longrightarrow> c \<noteq> CHR ''-'' \<and> c \<noteq> CHR ''+'' \<and> c \<noteq> CHR '':''"
  by (auto simp: is_digit_char_def)

lemma to_string_hd_digit: "is_digit_char (hd (to_string n))"
  by (meson hd_in_set to_string_digits to_string_not_Nil)

lemma stoull_decimal:
  "stoull (to_string n) = (if n < 2 ^ 64 then Inr (of_nat n) else Inl (Std_exception ''stoull: out_of_range''))"
proof -
  have d: "dropWhile is_space_char (to_string n) = to_string n"
    using digit_not_space [OF to_string_hd_digit [of n]]
    by (cases "to_string n") auto
  have s: "hd (to_string n) \<noteq> CHR ''-''" "hd (to_string n) \<noteq> CHR ''+''"
    using digit_not_sign [OF to_string_hd_digit [of n]] by auto
  have t: "takeWhile is_digit_char (to_string n) = to_string n"
    by (meson takeWhile_eq_all_conv to_string_digits)
  show ?thesis
    using s by (simp add: stoull_def d t)
qed

lemma stoull_to_string: "n < 2 ^ 64 \<Longrightarrow> stoull (to_string n) = Inr (of_nat n)"
  by (simp add: stoull_decimal)

lemma to_string_7: "to_string 7 = ''7''" and to_string_8: "to_string 8 = ''8''"
  by code_simp+

lemma colon_not_in_to_string [simp]: "CHR '':'' \<notin> set (to_string n)"
  using to_string_digits digit_not_sign by blast

text \<open>Two strings joined by the first separator character are determined by the joined text.\<close>

lemma append_sep_inject:
  assumes "c \<notin> set a" and "c \<notin> set a'" and "a @ c # b = a' @ c # b'"
  shows "a = a' \<and> b = b'"
proof -
  have "takeWhile (\<lambda>x. x \<noteq> c) (a @ c # b) = a" "takeWhile (\<lambda>x. x \<noteq> c) (a' @ c # b') = a'"
    using assms(1,2) by (induction a, auto) (induction a', auto)
  with assms(3) show ?thesis by simp
qed

lemma distinct_singleton_set: "distinct xs \<Longrightarrow> set xs = {a} \<Longrightarrow> xs = [a]"
proof (cases xs)
  case (Cons b ys)
  assume "distinct xs" "set xs = {a}"
  with Cons have "b = a" "set ys \<subseteq> {a}" "b \<notin> set ys" by auto
  then have "set ys = {}" by (metis insert_subset subset_singletonD singletonI)
  with Cons \<open>b = a\<close> show ?thesis by simp
qed simp

section \<open>Words\<close>

text \<open>A 64-bit number widened to 256 bits keeps its value, and is not the largest one.\<close>

lemma unat_less_64: "unat (n :: uint64) < 2 ^ 64"
  using unsigned_less [of n] by simp

lemma unat_ucast_256 [simp]: "unat (ucast (n :: uint64) :: uint256) = unat n"
proof -
  have "unat n < 2 ^ 256" by (rule less_trans [OF unat_less_64]) simp
  then show ?thesis by (simp add: unsigned_ucast_eq take_bit_nat_eq_self)
qed

lemma ucast_256_not_max: "(ucast (n :: uint64) :: uint256) \<noteq> -1"
proof
  assume "(ucast n :: uint256) = -1"
  then have "unat n = unat (-1 :: uint256)" by (metis unat_ucast_256)
  then show False using unat_less_64 [of n] by (simp add: unsigned_minus_1_eq_mask mask_eq_exp_minus_1)
qed

lemma ucast_256_64 [simp]: "(ucast (ucast (n :: uint64) :: uint256) :: uint64) = n"
  by (rule ucast_up_ucast_id) (simp add: is_up)

end
