(* ===== verification/Json.thy ===== *)
theory Json
  imports Prelude
begin

text \<open>
  JSON values, the type \<^verbatim>\<open>db::Data\<close> of the program (\<^verbatim>\<open>common/include/db.hpp\<close>, a typedef of
  \<^verbatim>\<open>nlohmann::json\<close>). A value is data: its shape is read by pattern matching. What the
  library does beyond that (checked access, conversions, updates of a value whose kind does
  not fit, text) is code outside the repository: it is the record \<open>json_lib\<close>, an argument of
  every definition that calls it, and the documented behaviour the program relies on is the
  locale \<open>nlohmann_json\<close>. \<open>std_json\<close> is an instance of the record that satisfies the locale.
\<close>

section \<open>Values\<close>

datatype json =
    JNull
  | JBool bool
  | JInt int
  | JUint uint64
  | JFloat double
  | JStr string
  | JArr "json list"
  | JObj "(string \<times> json) list"

text \<open>
  \<open>JInt\<close> is the signed and \<open>JUint\<close> the unsigned integer kind of the library. An object is an
  association list; \<open>put\<close> keeps a list sorted by keys sorted, as the \<^verbatim>\<open>std::map\<close> under the
  library's objects is.
\<close>

fun put :: "string \<Rightarrow> json \<Rightarrow> (string \<times> json) list \<Rightarrow> (string \<times> json) list" where
  "put k v [] = [(k, v)]"
| "put k v ((k', v') # m) =
     (if k = k' then (k, v) # m
      else if k < k' then (k, v) # (k', v') # m
      else (k', v') # put k v m)"

definition del :: "string \<Rightarrow> (string \<times> json) list \<Rightarrow> (string \<times> json) list" where
  "del k m = filter (\<lambda>kv. fst kv \<noteq> k) m"

text \<open>The object a brace-enclosed list of key/value pairs denotes.\<close>

definition obj :: "(string \<times> json) list \<Rightarrow> json" where
  "obj kvs = JObj (foldl (\<lambda>m kv. put (fst kv) (snd kv) m) [] kvs)"

fun members :: "json \<Rightarrow> (string \<times> json) list" where
  "members (JObj m) = m"
| "members _ = []"

fun is_object :: "json \<Rightarrow> bool" where
  "is_object (JObj _) = True"
| "is_object _ = False"

fun is_array :: "json \<Rightarrow> bool" where
  "is_array (JArr _) = True"
| "is_array _ = False"

fun is_string :: "json \<Rightarrow> bool" where
  "is_string (JStr _) = True"
| "is_string _ = False"

fun is_number :: "json \<Rightarrow> bool" where
  "is_number (JInt _) = True"
| "is_number (JUint _) = True"
| "is_number (JFloat _) = True"
| "is_number _ = False"

definition is_null :: "json \<Rightarrow> bool" where
  "is_null j \<longleftrightarrow> j = JNull"

text \<open>\<open>field j k\<close> is the member \<open>k\<close> of an object; a value of another kind has no member.\<close>

definition field :: "json \<Rightarrow> string \<Rightarrow> json option" where
  "field j k = map_of (members j) k"

definition count_key :: "json \<Rightarrow> string \<Rightarrow> nat" where
  "count_key j k = (if field j k = None then 0 else 1)"

text \<open>The elements a range-based \<^verbatim>\<open>for\<close> visits, and \<^verbatim>\<open>size()\<close>.\<close>

fun items :: "json \<Rightarrow> json list" where
  "items JNull = []"
| "items (JArr xs) = xs"
| "items (JObj m) = map snd m"
| "items j = [j]"

definition json_size :: "json \<Rightarrow> nat" where
  "json_size j = length (items j)"

lemma map_of_put [simp]: "map_of (put k v m) = (map_of m)(k \<mapsto> v)"
  by (induction k v m rule: put.induct) auto

lemma map_of_del [simp]: "map_of (del k m) = (map_of m)(k := None)"
  by (induction m) (auto simp: del_def)

lemma set_put_keys: "fst ` set (put k v m) = insert k (fst ` set m)"
  by (induction k v m rule: put.induct) auto

lemma sorted_put: "sorted_wrt (<) (map fst m) \<Longrightarrow> sorted_wrt (<) (map fst (put k v m))"
proof (induction k v m rule: put.induct)
  case (1 k v)
  then show ?case by simp
next
  case (2 k v k' v' m)
  consider (eq) "k = k'" | (lt) "k < k'" | (gt) "k' < k" by fastforce
  then show ?case
  proof cases
    case eq
    with "2.prems" show ?thesis by auto
  next
    case lt
    with "2.prems" show ?thesis by auto
  next
    case gt
    then have "sorted_wrt (<) (map fst (put k v m))" using 2 by auto
    moreover have "\<forall>x \<in> fst ` set (put k v m). k' < x"
      using "2.prems" gt by (auto simp: set_put_keys)
    ultimately show ?thesis using gt by auto
  qed
qed

lemma field_JObj [simp]: "field (JObj m) k = map_of m k"
  by (simp add: field_def)

lemma field_nonobject [simp]:
  "field JNull k = None" "field (JBool b) k = None" "field (JInt i) k = None"
  "field (JUint n) k = None" "field (JFloat r) k = None" "field (JStr s) k = None"
  "field (JArr xs) k = None"
  by (simp_all add: field_def)

lemma field_Some_object: "field j k = Some v \<Longrightarrow> is_object j"
  by (cases j) auto

lemma field_Some_not_array: "field j k = Some v \<Longrightarrow> \<not> is_array j"
  by (cases j) auto

lemma count_key_0 [simp]: "count_key j k = 0 \<longleftrightarrow> field j k = None"
  by (simp add: count_key_def)

lemma count_key_pos [simp]: "0 < count_key j k \<longleftrightarrow> field j k \<noteq> None"
  by (simp add: count_key_def)

lemma is_object_obj [simp]: "is_object (obj kvs)"
  by (simp add: obj_def)

lemma map_of_foldl_put:
  "map_of (foldl (\<lambda>m kv. put (fst kv) (snd kv) m) m0 kvs) = map_of m0 ++ map_of (rev kvs)"
  by (induction kvs arbitrary: m0) (auto simp: map_add_def fun_eq_iff split: option.splits)

lemma distinct_map_of_rev: "distinct (map fst kvs) \<Longrightarrow> map_of (rev kvs) = map_of kvs"
  by (rule map_of_inject_set [THEN iffD2]) (auto simp flip: rev_map)

lemma field_obj: "distinct (map fst kvs) \<Longrightarrow> field (obj kvs) k = map_of kvs k"
  by (simp add: obj_def map_of_foldl_put distinct_map_of_rev)

section \<open>The library\<close>

record json_lib =
  jl_what :: "nat \<Rightarrow> string \<Rightarrow> string" \<comment> \<open>the text of an exception, by its number and subject\<close>
  jl_at :: "json \<Rightarrow> string \<Rightarrow> json result" \<comment> \<open>\<^verbatim>\<open>j.at(k)\<close>\<close>
  jl_index :: "json \<Rightarrow> string \<Rightarrow> json result" \<comment> \<open>the value of \<^verbatim>\<open>j[k]\<close>\<close>
  jl_set :: "json \<Rightarrow> string \<Rightarrow> json \<Rightarrow> json result" \<comment> \<open>\<open>j\<close> after \<^verbatim>\<open>j[k] = v\<close>\<close>
  jl_erase :: "json \<Rightarrow> string \<Rightarrow> json result" \<comment> \<open>\<open>j\<close> after \<^verbatim>\<open>j.erase(k)\<close>\<close>
  jl_push_back :: "json \<Rightarrow> json \<Rightarrow> json result" \<comment> \<open>\<open>j\<close> after \<^verbatim>\<open>j.push_back(v)\<close>\<close>
  jl_get_string :: "json \<Rightarrow> string result" \<comment> \<open>\<^verbatim>\<open>j.get<std::string>()\<close>\<close>
  jl_get_u64 :: "json \<Rightarrow> uint64 result" \<comment> \<open>\<^verbatim>\<open>j.get<uint64_t>()\<close>\<close>
  jl_get_time :: "json \<Rightarrow> time_t result" \<comment> \<open>\<^verbatim>\<open>j.get<time_t>()\<close>\<close>
  jl_parse :: "string \<Rightarrow> json result" \<comment> \<open>\<^verbatim>\<open>json::parse(s)\<close>\<close>
  jl_dump :: "nat option \<Rightarrow> json \<Rightarrow> string" \<comment> \<open>\<^verbatim>\<open>j.dump()\<close>, \<^verbatim>\<open>j.dump(indent)\<close>\<close>

text \<open>
  The subscript of a constant value is only defined for a key that is there; a missing key of an
  object is an assertion failure, the exception nothing is known about, and a value of another
  kind raises \<^verbatim>\<open>type_error\<close> 305.
\<close>

definition const_index :: "'e json_lib_scheme \<Rightarrow> json \<Rightarrow> string \<Rightarrow> json result" where
  "const_index L j k =
     (case field j k of Some v \<Rightarrow> Inr v
      | None \<Rightarrow> Inl (if is_object j then Unknown_exn else Json_type_error (jl_what L 305 k)))"

lemma const_index_member: "field j k = Some v \<Longrightarrow> const_index L j k = Inr v"
  by (simp add: const_index_def)

text \<open>\<open>assign L j kvs\<close> is \<open>j\<close> after the assignments \<^verbatim>\<open>j[k] = v\<close> in order.\<close>

fun assign :: "'e json_lib_scheme \<Rightarrow> json \<Rightarrow> (string \<times> json) list \<Rightarrow> json result" where
  "assign L j [] = Inr j"
| "assign L j ((k, v) # kvs) = bindE (jl_set L j k v) (\<lambda>j'. assign L j' kvs)"

text \<open>
  The documented behaviour: a checked access to a missing key raises \<^verbatim>\<open>out_of_range\<close> 403 and to a
  value that is no object \<^verbatim>\<open>type_error\<close> 304; a conversion that does not fit raises
  \<^verbatim>\<open>type_error\<close> 302; \<^verbatim>\<open>operator[]\<close> reads null where a key is missing and raises 305 on a value
  that is neither object nor null; an assignment through it turns null into an object;
  \<^verbatim>\<open>erase\<close> and \<^verbatim>\<open>push_back\<close> raise 307 and 308 on a value of the wrong kind; \<^verbatim>\<open>push_back\<close> turns
  null into an array; integers convert to \<^verbatim>\<open>uint64_t\<close> modulo \<open>2 ^ 64\<close>. Nothing is said about
  the conversion of floating point numbers to integers.
\<close>

locale nlohmann_json =
  fixes L :: "'e json_lib_scheme"
  assumes at_member: "field j k = Some v \<Longrightarrow> jl_at L j k = Inr v"
    and at_missing: "is_object j \<Longrightarrow> field j k = None \<Longrightarrow>
      jl_at L j k = Inl (Json_out_of_range (jl_what L 403 k))"
    and at_nonobject: "\<not> is_object j \<Longrightarrow> jl_at L j k = Inl (Json_type_error (jl_what L 304 k))"
    and index_member: "field j k = Some v \<Longrightarrow> jl_index L j k = Inr v"
    and index_missing: "is_object j \<or> j = JNull \<Longrightarrow> field j k = None \<Longrightarrow> jl_index L j k = Inr JNull"
    and index_nonobject: "\<not> is_object j \<Longrightarrow> j \<noteq> JNull \<Longrightarrow>
      jl_index L j k = Inl (Json_type_error (jl_what L 305 k))"
    and set_object: "jl_set L (JObj m) k v = Inr (JObj (put k v m))"
    and set_null: "jl_set L JNull k v = Inr (JObj [(k, v)])"
    and set_nonobject: "\<not> is_object j \<Longrightarrow> j \<noteq> JNull \<Longrightarrow>
      jl_set L j k v = Inl (Json_type_error (jl_what L 305 k))"
    and erase_object: "jl_erase L (JObj m) k = Inr (JObj (del k m))"
    and erase_nonobject: "\<not> is_object j \<Longrightarrow> jl_erase L j k = Inl (Json_type_error (jl_what L 307 k))"
    and push_back_array: "jl_push_back L (JArr xs) v = Inr (JArr (xs @ [v]))"
    and push_back_null: "jl_push_back L JNull v = Inr (JArr [v])"
    and push_back_other: "\<not> is_array j \<Longrightarrow> j \<noteq> JNull \<Longrightarrow>
      jl_push_back L j v = Inl (Json_type_error (jl_what L 308 []))"
    and get_string_string: "jl_get_string L (JStr s) = Inr s"
    and get_string_other: "\<not> is_string j \<Longrightarrow>
      jl_get_string L j = Inl (Json_type_error (jl_what L 302 ''string''))"
    and get_u64_uint: "jl_get_u64 L (JUint n) = Inr n"
    and get_u64_int: "jl_get_u64 L (JInt i) = Inr (word_of_int i)"
    and get_u64_other: "\<not> is_number j \<Longrightarrow>
      jl_get_u64 L j = Inl (Json_type_error (jl_what L 302 ''number''))"
    and get_time_int: "jl_get_time L (JInt i) = Inr i"
    and get_time_uint: "jl_get_time L (JUint n) = Inr (sint n)"
    and get_time_other: "\<not> is_number j \<Longrightarrow>
      jl_get_time L j = Inl (Json_type_error (jl_what L 302 ''number''))"
    and parse_raises: "jl_parse L s = Inl e \<Longrightarrow> \<exists>m. e = Json_parse_error m"
begin

lemmas json_laws [simp] =
  at_member at_missing at_nonobject index_member index_missing index_nonobject
  set_object set_null set_nonobject erase_object erase_nonobject
  push_back_array push_back_null push_back_other
  get_string_string get_string_other get_u64_uint get_u64_int get_u64_other
  get_time_int get_time_uint get_time_other

text \<open>Only the two exception classes of the library come out of a checked access.\<close>

lemma at_raises:
  "jl_at L j k = Inl e \<Longrightarrow>
    e = Json_out_of_range (jl_what L 403 k) \<or> e = Json_type_error (jl_what L 304 k)"
  by (cases "is_object j"; cases "field j k") auto

lemma at_returns: "jl_at L j k = Inr v \<longleftrightarrow> field j k = Some v"
  by (cases "is_object j"; cases "field j k") (auto dest: field_Some_object)

lemma get_string_returns: "jl_get_string L j = Inr s \<longleftrightarrow> j = JStr s"
  by (cases "is_string j"; cases j) auto

end

section \<open>An instance\<close>

definition std_json :: "(string \<Rightarrow> json option) \<Rightarrow> (nat option \<Rightarrow> json \<Rightarrow> string) \<Rightarrow> json_lib" where
  "std_json parse dump =
     \<lparr>jl_what = (\<lambda>n s. to_string n @ '' '' @ s),
      jl_at = (\<lambda>j k. if is_object j
        then (case field j k of Some v \<Rightarrow> Inr v
              | None \<Rightarrow> Inl (Json_out_of_range (to_string 403 @ '' '' @ k)))
        else Inl (Json_type_error (to_string 304 @ '' '' @ k))),
      jl_index = (\<lambda>j k. if is_object j \<or> j = JNull
        then Inr (case field j k of Some v \<Rightarrow> v | None \<Rightarrow> JNull)
        else Inl (Json_type_error (to_string 305 @ '' '' @ k))),
      jl_set = (\<lambda>j k v. case j of JObj m \<Rightarrow> Inr (JObj (put k v m)) | JNull \<Rightarrow> Inr (JObj [(k, v)])
        | _ \<Rightarrow> Inl (Json_type_error (to_string 305 @ '' '' @ k))),
      jl_erase = (\<lambda>j k. case j of JObj m \<Rightarrow> Inr (JObj (del k m))
        | _ \<Rightarrow> Inl (Json_type_error (to_string 307 @ '' '' @ k))),
      jl_push_back = (\<lambda>j v. case j of JArr xs \<Rightarrow> Inr (JArr (xs @ [v])) | JNull \<Rightarrow> Inr (JArr [v])
        | _ \<Rightarrow> Inl (Json_type_error (to_string 308 @ '' ''))),
      jl_get_string = (\<lambda>j. case j of JStr s \<Rightarrow> Inr s
        | _ \<Rightarrow> Inl (Json_type_error (to_string 302 @ '' '' @ ''string''))),
      jl_get_u64 = (\<lambda>j. case j of JUint n \<Rightarrow> Inr n | JInt i \<Rightarrow> Inr (word_of_int i)
        | JFloat r \<Rightarrow> Inr (word_of_int \<lfloor>r\<rfloor>)
        | _ \<Rightarrow> Inl (Json_type_error (to_string 302 @ '' '' @ ''number''))),
      jl_get_time = (\<lambda>j. case j of JUint n \<Rightarrow> Inr (sint n) | JInt i \<Rightarrow> Inr i
        | JFloat r \<Rightarrow> Inr \<lfloor>r\<rfloor>
        | _ \<Rightarrow> Inl (Json_type_error (to_string 302 @ '' '' @ ''number''))),
      jl_parse = (\<lambda>s. case parse s of Some j \<Rightarrow> Inr j | None \<Rightarrow> Inl (Json_parse_error s)),
      jl_dump = dump\<rparr>"

interpretation std: nlohmann_json "std_json parse dump" for parse dump
  by unfold_locales
    (auto simp: std_json_def field_Some_object split: json.splits option.splits)

end
