(* ===== verification/Names.thy ===== *)
theory Names
  imports Json
begin

text \<open>
  The names of the tables and indices, \<^verbatim>\<open>common/include/names.hpp\<close> and \<^verbatim>\<open>common/src/names.cpp\<close>, and
  the configuration with its defaults, \<^verbatim>\<open>common/include/config.hpp\<close> and \<^verbatim>\<open>common/src/config.cpp\<close>.
\<close>

section \<open>Tables\<close>

definition t_meta :: string where "t_meta = ''meta''"
definition t_blockchain_info :: string where "t_blockchain_info = ''blockchain_info''"
definition t_node_states :: string where "t_node_states = ''node_states''"
definition t_node_wallets :: string where "t_node_wallets = ''node_wallets''"
definition t_blocks :: string where "t_blocks = ''blocks''"
definition t_blocks_processing :: string where "t_blocks_processing = ''blocks_processing''"
definition t_wallets :: string where "t_wallets = ''wallets''"
definition t_wallets_state :: string where "t_wallets_state = ''wallets_state''"
definition t_transactions :: string where "t_transactions = ''transactions''"
definition t_genesis_transactions :: string where "t_genesis_transactions = ''genesis_transactions''"
definition t_transactions_state :: string where "t_transactions_state = ''transactions_state''"
definition t_transactions_processing :: string where "t_transactions_processing = ''transactions_processing''"
definition t_turnovers :: string where "t_turnovers = ''turnovers''"
definition t_transaction_turnover :: string where "t_transaction_turnover = ''transaction_turnover''"

lemmas table_names =
  t_meta_def t_blockchain_info_def t_node_states_def t_node_wallets_def t_blocks_def
  t_blocks_processing_def t_wallets_def t_wallets_state_def t_transactions_def
  t_genesis_transactions_def t_transactions_state_def t_transactions_processing_def
  t_turnovers_def t_transaction_turnover_def

definition get_names :: "string list" where
  "get_names =
     [t_meta, t_blockchain_info, t_node_states, t_node_wallets, t_blocks, t_blocks_processing,
      t_wallets, t_wallets_state, t_transactions, t_transactions_state, t_transactions_processing,
      t_genesis_transactions, t_turnovers, t_transaction_turnover]"

record index_description =
  ix_table :: string
  ix_field :: string

definition get_indices :: "index_description list" where
  "get_indices =
     map (\<lambda>(t, f). \<lparr>ix_table = t, ix_field = f\<rparr>)
       [(t_blocks, ''block-id''), (t_blocks, ''timestamp''),
        (t_blocks_processing, ''block-id''), (t_node_states, ''block-id''),
        (t_transactions, ''block-id''), (t_transactions, ''digest''),
        (t_transactions, ''serial''), (t_transactions, ''timestamp''),
        (t_transactions_processing, ''block-id''),
        (t_genesis_transactions, ''serial''), (t_genesis_transactions, ''block-id''),
        (t_genesis_transactions, ''digest'')]"

definition get_replacement_keys :: "(string \<times> string) list" where
  "get_replacement_keys = [(''transaction-name'', ''transaction-type'')]"

section \<open>Configuration\<close>

record config =
  db_host :: string
  db_port :: "16 word"
  cfg_db_name :: string
  node_urls :: "string list"
  rpc_queue_size :: int
  block_processin_queue_size :: int
  update_timeout :: time_t
  request_timeout :: time_t
  rpc_connection_timeout :: time_t
  procesing_refresh_time :: time_t
  http_bind_address :: string
  http_port :: "16 word"
  rpc_pool_size :: int
  genesis_url :: string

definition default_config :: config where
  "default_config =
     \<lparr>db_host = ''localhost'',
      db_port = 28015,
      cfg_db_name = ''blockchain'',
      node_urls = [''http://138.197.75.176:8080/v1/api'',
                   ''https://104.248.7.135:8080/v1/api'',
                   ''https://167.99.186.253:8080/v1/api''],
      rpc_queue_size = 20,
      block_processin_queue_size = 12,
      update_timeout = 20,
      request_timeout = 20,
      rpc_connection_timeout = 5,
      procesing_refresh_time = 1,
      http_bind_address = ''0.0.0.0'',
      http_port = 8042,
      rpc_pool_size = 64,
      genesis_url = ''https://raw.githubusercontent.com/mile-core/mile-files/master/genesis_block.txt''\<rparr>"

text \<open>Every index belongs to a table that initialization creates, and no table is named twice.\<close>

lemma get_names_distinct: "distinct get_names"
  by (simp add: get_names_def table_names)

lemma index_tables_exist: "d \<in> set get_indices \<Longrightarrow> ix_table d \<in> set get_names"
  by (auto simp: get_indices_def get_names_def)

end
