(* ===== verification/Reql.thy ===== *)
theory Reql
  imports Names
begin

text \<open>
  The queries the program sends to the database and what it relies on of the code outside the
  repository. A query is a ReQL term, built by the driver without talking to the server
  (\<^verbatim>\<open>vendor/librethinkdbxx/src/term.h\<close>: one term per method, \<open>R_GET\<close> for \<^verbatim>\<open>get\<close> and so on);
  \<^verbatim>\<open>run\<close> sends it. The server, a service, is the field \<open>reql_run\<close> of the environment: it maps a term and
  the state of the database to a reply or an exception and the new state. A reply is the JSON
  value of the datum the driver returns, nil being \<open>JNull\<close>; opening the connection is part of
  the call. \<open>reql_server\<close> is the documented behaviour of the server on the queries the indexing
  pipeline sends, and \<open>ref_server\<close> a server that has this behaviour.
\<close>

section \<open>Terms\<close>

text \<open>
  The operations on one term, those on two, and the terms. The abbreviations are the names of
  the driver's methods.
\<close>

datatype op1 =
    O_DB_CREATE | O_TABLE_LIST | O_TABLE_CREATE string | O_TABLE_DROP string
  | O_INDEX_WAIT string | O_INDEX_CREATE string
  | O_TABLE string bool
  | O_IS_EMPTY | O_GET string | O_GET_ALL "string list" "string option" | O_MAX string | O_MIN string
  | O_COUNT | O_GET_FIELD string | O_SLICE uint64 uint64 | O_BETWEEN uint64 uint64 string
  | O_ORDER_BY_INDEX string | O_FILTER_FIELD string json | O_GROUP string | O_UNGROUP | O_LIMIT int
  | O_DELETE | O_BRACKET string | O_COERCE_TO string | O_OBJECT string
  | O_HAS_FIELDS "string list" | O_TYPE_OF | O_DESC

datatype op2 = O_ORDER_BY | O_FILTER | O_CONCAT_MAP | O_INSERT bool | O_UPDATE bool | O_SET_UNION
  | O_MAP | O_EQ | O_AND | O_OR | O_ADD

datatype reql =
    R_DATUM json
  | R_JSON json \<comment> \<open>\<^verbatim>\<open>json(data.dump())\<close>\<close>
  | R_VAR nat
  | R_ROW \<comment> \<open>\<^verbatim>\<open>row\<close>, the argument of the innermost implicit function\<close>
  | R_FUNC "nat list" reql \<comment> \<open>a function, the bound variables and the body\<close>
  | R_DB string
  | R_DB_LIST
  | R_OP1 op1 reql
  | R_OP2 op2 reql reql
  | R_FOLD reql reql reql reql \<comment> \<open>of a sequence: the base value, the function, the option \<^verbatim>\<open>emit\<close>\<close>
  | R_ARRAY "reql list"
  | R_OBJ "(string \<times> reql) list"

abbreviation "R_NIL \<equiv> R_DATUM JNull"
abbreviation "R_DB_CREATE n \<equiv> R_OP1 O_DB_CREATE (R_DB n)"
abbreviation "R_TABLE_LIST q \<equiv> R_OP1 O_TABLE_LIST q"
abbreviation "R_TABLE_CREATE q t \<equiv> R_OP1 (O_TABLE_CREATE t) q"
abbreviation "R_TABLE_DROP q t \<equiv> R_OP1 (O_TABLE_DROP t) q"
abbreviation "R_TABLE q t outdated \<equiv> R_OP1 (O_TABLE t outdated) q" \<comment> \<open>with \<^verbatim>\<open>read_mode\<close> \<^verbatim>\<open>outdated\<close> or not\<close>
abbreviation "R_INDEX_WAIT q i \<equiv> R_OP1 (O_INDEX_WAIT i) q"
abbreviation "R_INDEX_CREATE q i \<equiv> R_OP1 (O_INDEX_CREATE i) q"
abbreviation "R_IS_EMPTY q \<equiv> R_OP1 O_IS_EMPTY q"
abbreviation "R_GET q k \<equiv> R_OP1 (O_GET k) q"
abbreviation "R_GET_ALL q ks i \<equiv> R_OP1 (O_GET_ALL ks i) q" \<comment> \<open>keys and the \<^verbatim>\<open>index\<close> option\<close>
abbreviation "R_MAX q i \<equiv> R_OP1 (O_MAX i) q"
abbreviation "R_MIN q i \<equiv> R_OP1 (O_MIN i) q"
abbreviation "R_COUNT q \<equiv> R_OP1 O_COUNT q"
abbreviation "R_GET_FIELD q f \<equiv> R_OP1 (O_GET_FIELD f) q"
abbreviation "R_SLICE q a b \<equiv> R_OP1 (O_SLICE a b) q"
abbreviation "R_BETWEEN q a b i \<equiv> R_OP1 (O_BETWEEN a b i) q"
abbreviation "R_ORDER_BY_INDEX q i \<equiv> R_OP1 (O_ORDER_BY_INDEX i) q"
abbreviation "R_ORDER_BY q t \<equiv> R_OP2 O_ORDER_BY q t"
abbreviation "R_FILTER q t \<equiv> R_OP2 O_FILTER q t"
abbreviation "R_FILTER_FIELD q f v \<equiv> R_OP1 (O_FILTER_FIELD f v) q"
abbreviation "R_GROUP q f \<equiv> R_OP1 (O_GROUP f) q"
abbreviation "R_UNGROUP q \<equiv> R_OP1 O_UNGROUP q"
abbreviation "R_LIMIT q n \<equiv> R_OP1 (O_LIMIT n) q"
abbreviation "R_CONCAT_MAP q t \<equiv> R_OP2 O_CONCAT_MAP q t"
abbreviation "R_INSERT q v replace \<equiv> R_OP2 (O_INSERT replace) q v" \<comment> \<open>with \<^verbatim>\<open>conflict\<close> \<^verbatim>\<open>replace\<close> or not\<close>
abbreviation "R_UPDATE q v non_atomic \<equiv> R_OP2 (O_UPDATE non_atomic) q v"
abbreviation "R_DELETE q \<equiv> R_OP1 O_DELETE q"
abbreviation "R_BRACKET q f \<equiv> R_OP1 (O_BRACKET f) q"
abbreviation "R_COERCE_TO q ty \<equiv> R_OP1 (O_COERCE_TO ty) q"
abbreviation "R_SET_UNION q v \<equiv> R_OP2 O_SET_UNION q v"
abbreviation "R_OBJECT f v \<equiv> R_OP1 (O_OBJECT f) v"
abbreviation "R_HAS_FIELDS q fs \<equiv> R_OP1 (O_HAS_FIELDS fs) q"
abbreviation "R_TYPE_OF q \<equiv> R_OP1 O_TYPE_OF q"
abbreviation "R_DESC q \<equiv> R_OP1 O_DESC q"
abbreviation "R_MAP q f \<equiv> R_OP2 O_MAP q f"
abbreviation "R_EQ q r \<equiv> R_OP2 O_EQ q r"
abbreviation "R_AND q r \<equiv> R_OP2 O_AND q r"
abbreviation "R_OR q r \<equiv> R_OP2 O_OR q r"
abbreviation "R_ADD q r \<equiv> R_OP2 O_ADD q r"

section \<open>The environment\<close>

text \<open>
  \<open>mile_lib\<close> holds the functions of the \<^verbatim>\<open>mile-csa-api\<close> library the program calls, \<open>env\<close> adds the
  database server and the clock.
\<close>

record mile_lib = json_lib +
  UInt256ToDecString :: "uint256 \<Rightarrow> string"
  StringToUInt256 :: "string \<Rightarrow> uint256 option" \<comment> \<open>with its last argument false\<close>
  ErrorFormat :: "string \<Rightarrow> string \<Rightarrow> string"
  description_max_length :: nat
  asset_code_XDR :: "16 word"
  asset_code_MILE :: "16 word"
  TokenFromCode :: "16 word \<Rightarrow> 16 word" \<comment> \<open>the code of the token found\<close>

record 'w env = mile_lib +
  reql_run :: "reql \<Rightarrow> 'w \<Rightarrow> json result \<times> 'w"
  clock :: "'w \<Rightarrow> time_t"

section \<open>The server\<close>

text \<open>
  The key of a row, a text, and the value of an index field, an unsigned integer: the two kinds
  the pipeline uses.
\<close>

definition id_string :: "json \<Rightarrow> string option" where
  "id_string r = (case field r ''id'' of Some (JStr i) \<Rightarrow> Some i | _ \<Rightarrow> None)"

definition uint_field :: "string \<Rightarrow> json \<Rightarrow> uint64 option" where
  "uint_field f r = (case field r f of Some (JUint n) \<Rightarrow> Some n | _ \<Rightarrow> None)"

definition index_value :: "string \<Rightarrow> json \<Rightarrow> uint64" where
  "index_value f r = (case uint_field f r of Some n \<Rightarrow> n | None \<Rightarrow> 0)"

definition has_index_value :: "string \<Rightarrow> json \<Rightarrow> bool" where
  "has_index_value f r \<longleftrightarrow> uint_field f r \<noteq> None"

lemma id_string_Some: "id_string r = Some i \<longleftrightarrow> field r ''id'' = Some (JStr i)"
  by (auto simp: id_string_def split: option.splits json.splits)

lemma uint_field_Some: "uint_field f r = Some n \<longleftrightarrow> field r f = Some (JUint n)"
  by (auto simp: uint_field_def split: option.splits json.splits)

lemma index_value_field: "field r f = Some (JUint n) \<Longrightarrow> index_value f r = n"
  by (simp add: index_value_def uint_field_def)

lemma has_index_value_field: "has_index_value f r \<longleftrightarrow> (\<exists>n. field r f = Some (JUint n))"
  by (auto simp: has_index_value_def uint_field_Some)

text \<open>
  A table as a map from primary keys to rows. Inserting a row whose key is taken changes nothing
  (the reply counts an error, the driver does not raise).
\<close>

type_synonym row_map = "string \<rightharpoonup> json"

definition insert_row :: "row_map \<Rightarrow> json \<Rightarrow> row_map" where
  "insert_row t r =
     (case id_string r of Some i \<Rightarrow> if t i = None then t(i \<mapsto> r) else t | None \<Rightarrow> t)"

definition has_string_id :: "json \<Rightarrow> bool" where
  "has_string_id r \<longleftrightarrow> id_string r \<noteq> None"

fun merge_members :: "(string \<times> json) list \<Rightarrow> (string \<times> json) list \<Rightarrow> (string \<times> json) list" where
  "merge_members m [] = m"
| "merge_members m ((k, v) # kvs) = put k v (merge_members m kvs)"

text \<open>
  The documented behaviour. \<open>rows w t\<close> is the table \<open>t\<close> of the database \<open>dbn\<close> in the state \<open>w\<close>:
  reads return the rows of that state, as they were written, and change nothing; a table is finite; \<^verbatim>\<open>get\<close> returns nil
  for a missing key; \<^verbatim>\<open>order_by\<close> with the index \<open>block-id\<close>, whose values are unsigned integers, returns every row that
  has it, once, in ascending order; \<^verbatim>\<open>max\<close> of no rows is an error; a write changes the one table it names. Nothing is said
  about other indices. The laws are those of a server that is reached: a query does not fail for want of a connection.
\<close>

locale reql_server =
  fixes E :: "('w, 'e) env_scheme" and dbn :: string and rows :: "'w \<Rightarrow> string \<Rightarrow> row_map"
  assumes rows_finite: "finite (dom (rows w t))"
    and rows_keyed: "rows w t i = Some r \<Longrightarrow> id_string r = Some i"
    and run_get: "reql_run E (R_GET (R_TABLE (R_DB dbn) t od) i) w
      = (Inr (case rows w t i of Some r \<Rightarrow> r | None \<Rightarrow> JNull), w)"
    and run_order_by_index: "\<exists>rs. reql_run E (R_ORDER_BY_INDEX (R_TABLE (R_DB dbn) t od) ''block-id'') w = (Inr (JArr rs), w)
      \<and> distinct rs \<and> set rs = {r \<in> ran (rows w t). has_index_value ''block-id'' r}
      \<and> sorted (map (index_value ''block-id'') rs)"
    and run_max_field: "{r \<in> ran (rows w t). has_index_value ''block-id'' r} \<noteq> {} \<Longrightarrow>
      reql_run E (R_GET_FIELD (R_MAX (R_TABLE (R_DB dbn) t od) ''block-id'') ''block-id'') w
      = (Inr (JUint (Max (index_value ''block-id'' ` {r \<in> ran (rows w t). has_index_value ''block-id'' r}))), w)"
    and run_max_empty: "{r \<in> ran (rows w t). has_index_value ''block-id'' r} = {} \<Longrightarrow>
      \<exists>m. reql_run E (R_GET_FIELD (R_MAX (R_TABLE (R_DB dbn) t od) ''block-id'') ''block-id'') w = (Inl (Reql_error m), w)"
    and run_get_field: "rows w t i = Some r \<Longrightarrow> field r f = Some v \<Longrightarrow>
      reql_run E (R_GET_FIELD (R_GET (R_TABLE (R_DB dbn) t od) i) f) w = (Inr v, w)"
    and run_get_field_missing: "rows w t i = None \<Longrightarrow>
      \<exists>m. reql_run E (R_GET_FIELD (R_GET (R_TABLE (R_DB dbn) t od) i) f) w = (Inl (Reql_error m), w)"
    and run_get_all_empty: "reql_run E (R_IS_EMPTY (R_GET_ALL (R_TABLE (R_DB dbn) t od) ks None)) w
      = (Inr (JBool (\<forall>k \<in> set ks. rows w t k = None)), w)"
    and run_insert: "has_string_id (JObj m) \<Longrightarrow>
      \<exists>v w'. reql_run E (R_INSERT (R_TABLE (R_DB dbn) t od) (R_JSON (JObj m)) False) w = (Inr v, w')
        \<and> rows w' = (rows w)(t := insert_row (rows w t) (JObj m))"
    and run_insert_rows: "list_all has_string_id rs \<Longrightarrow>
      \<exists>v w'. reql_run E (R_INSERT (R_TABLE (R_DB dbn) t od) (R_JSON (JArr rs)) False) w = (Inr v, w')
        \<and> rows w' = (rows w)(t := foldl insert_row (rows w t) rs)"
    and run_insert_null:
      "\<exists>m. reql_run E (R_INSERT (R_TABLE (R_DB dbn) t od) (R_JSON JNull) False) w = (Inl (Reql_error m), w)"
    and run_update: "rows w t i = Some (JObj m) \<Longrightarrow> id_string (JObj kvs) = Some i \<Longrightarrow>
      \<exists>v w'. reql_run E (R_UPDATE (R_GET (R_TABLE (R_DB dbn) t od) i) (R_JSON (JObj kvs)) False) w = (Inr v, w')
        \<and> rows w' = (rows w)(t := (rows w t)(i \<mapsto> JObj (merge_members m kvs)))"
    and run_delete: "\<exists>v w'. reql_run E (R_DELETE (R_GET (R_TABLE (R_DB dbn) t od) i)) w = (Inr v, w')
      \<and> rows w' = (rows w)(t := (rows w t)(i := None))"

text \<open>
  Queries that change no row: they contain none of the four operations that do. What else is documented of
  the server: such a query leaves all rows, a write the rows of all tables but the one it names or selects from, and an
  insertion that is not told to replace keeps the rows that are there.
\<close>

fun writes1 :: "op1 \<Rightarrow> bool" where
  "writes1 O_DELETE = True"
| "writes1 (O_TABLE_DROP t) = True"
| "writes1 _ = False"

fun writes2 :: "op2 \<Rightarrow> bool" where
  "writes2 (O_INSERT r) = True"
| "writes2 (O_UPDATE na) = True"
| "writes2 _ = False"

fun reads_only :: "reql \<Rightarrow> bool" where
  "reads_only (R_OP1 f q) = (\<not> writes1 f \<and> reads_only q)"
| "reads_only (R_OP2 f q v) = (\<not> writes2 f \<and> reads_only q \<and> reads_only v)"
| "reads_only (R_FUNC xs b) = reads_only b"
| "reads_only (R_FOLD q b f e) = (reads_only q \<and> reads_only b \<and> reads_only f \<and> reads_only e)"
| "reads_only (R_ARRAY qs) = list_all reads_only qs"
| "reads_only (R_OBJ kvs) = list_all (\<lambda>kv. reads_only (snd kv)) kvs"
| "reads_only _ = True"

text \<open>The table a selection selects from.\<close>

fun base_table :: "reql \<Rightarrow> string" where
  "base_table (R_OP1 (O_TABLE t od) q) = t"
| "base_table (R_OP1 _ q) = base_table q"
| "base_table _ = []"

locale reql_frames = reql_server +
  assumes read_frame: "reads_only q \<Longrightarrow> rows (snd (reql_run E q w)) = rows w"
    and insert_frame: "t' \<noteq> t \<Longrightarrow> reads_only v \<Longrightarrow>
      rows (snd (reql_run E (R_INSERT (R_TABLE (R_DB dbn) t od) v replace) w)) t' = rows w t'"
    and insert_grows: "reads_only v \<Longrightarrow>
      rows w t \<subseteq>\<^sub>m rows (snd (reql_run E (R_INSERT (R_TABLE (R_DB dbn) t od) v False) w)) t"
    and update_frame: "t' \<noteq> t \<Longrightarrow> reads_only v \<Longrightarrow>
      rows (snd (reql_run E (R_UPDATE (R_GET (R_TABLE (R_DB dbn) t od) i) v na) w)) t' = rows w t'"
    and delete_frame: "t' \<noteq> base_table q \<Longrightarrow> reads_only q \<Longrightarrow>
      rows (snd (reql_run E (R_DELETE q) w)) t' = rows w t'"

end
