(* ===== verification/Ref_Server.thy ===== *)
theory Ref_Server
  imports Reql
begin

text \<open>
  A server that has the behaviour the locale \<open>reql_server\<close> states: an evaluator for the part of
  ReQL the program uses on tables kept as lists of rows. The first row with an identifier is
  the row of this key. It shows that the hypotheses on the server hold together, and the
  concrete runs of the development use it.
\<close>

type_synonym refdb = "string \<Rightarrow> json list"

definition has_id :: "string \<Rightarrow> json \<Rightarrow> bool" where
  "has_id i r \<longleftrightarrow> id_string r = Some i"

definition ref_rows :: "refdb \<Rightarrow> string \<Rightarrow> row_map" where
  "ref_rows w t i = find (has_id i) (w t)"

text \<open>The rows of a table: of several rows with one identifier, the first.\<close>

definition visible :: "json list \<Rightarrow> json list" where
  "visible rs = filter (\<lambda>r. case id_string r of
     Some i \<Rightarrow> find (has_id i) rs = Some r | None \<Rightarrow> False) (remdups rs)"

fun as_rows :: "json \<Rightarrow> json list" where
  "as_rows (JArr rs) = rs"
| "as_rows (JObj m) = [JObj m]"
| "as_rows _ = []"

definition indexed :: "string \<Rightarrow> json list \<Rightarrow> json list" where
  "indexed f rs = sort_key (index_value f) (filter (has_index_value f) rs)"

definition ref_error :: "json result" where
  "ref_error = Inl (Reql_error ''cannot perform the operation'')"

fun ref_op1 :: "refdb \<Rightarrow> op1 \<Rightarrow> json \<Rightarrow> json result" where
  "ref_op1 w (O_TABLE t od) v = Inr (JArr (visible (w t)))"
| "ref_op1 w O_IS_EMPTY v = Inr (JBool (as_rows v = []))"
| "ref_op1 w (O_GET i) v = Inr (case find (has_id i) (as_rows v) of Some r \<Rightarrow> r | None \<Rightarrow> JNull)"
| "ref_op1 w (O_GET_ALL ks ix) v =
     Inr (JArr (filter (\<lambda>r. \<exists>k \<in> set ks. field r (case ix of Some f \<Rightarrow> f | None \<Rightarrow> ''id'') = Some (JStr k)) (as_rows v)))"
| "ref_op1 w (O_MAX f) v =
     (if indexed f (as_rows v) = [] then ref_error else Inr (last (indexed f (as_rows v))))"
| "ref_op1 w (O_MIN f) v =
     (if indexed f (as_rows v) = [] then ref_error else Inr (hd (indexed f (as_rows v))))"
| "ref_op1 w O_COUNT v = Inr (JUint (of_nat (length (as_rows v))))"
| "ref_op1 w (O_GET_FIELD f) v =
     (if is_array v then Inr (JArr (List.map_filter (\<lambda>r. field r f) (as_rows v)))
      else case field v f of Some x \<Rightarrow> Inr x | None \<Rightarrow> ref_error)"
| "ref_op1 w (O_SLICE a b) v = Inr (JArr (take (unat b - unat a) (drop (unat a) (as_rows v))))"
| "ref_op1 w (O_BETWEEN a b f) v =
     Inr (JArr (filter (\<lambda>r. a \<le> index_value f r \<and> index_value f r < b) (indexed f (as_rows v))))"
| "ref_op1 w (O_ORDER_BY_INDEX f) v = Inr (JArr (indexed f (as_rows v)))"
| "ref_op1 w (O_FILTER_FIELD f x) v = Inr (JArr (filter (\<lambda>r. field r f = Some x) (as_rows v)))"
| "ref_op1 w (O_LIMIT n) v = Inr (JArr (take (nat n) (as_rows v)))"
| "ref_op1 w _ v = ref_error"

fun ref_value :: "refdb \<Rightarrow> reql \<Rightarrow> json result" where
  "ref_value w (R_DATUM j) = Inr j"
| "ref_value w (R_JSON j) = Inr j"
| "ref_value w (R_DB n) = Inr JNull"
| "ref_value w R_DB_LIST = Inr (JArr [JStr ''rethinkdb'', JStr ''blockchain''])"
| "ref_value w (R_OP1 f q) = bindE (ref_value w q) (ref_op1 w f)"
| "ref_value w _ = ref_error"

definition without :: "json list \<Rightarrow> json list \<Rightarrow> json list" where
  "without sel rs = filter (\<lambda>r. \<not> (\<exists>s \<in> set sel. id_string s = id_string r)) rs"

fun ref_insert :: "json list \<Rightarrow> json list \<Rightarrow> json list" where
  "ref_insert rs [] = rs"
| "ref_insert rs (n # ns) =
     ref_insert (case id_string n of
        Some i \<Rightarrow> if find (has_id i) rs = None then rs @ [n] else rs | None \<Rightarrow> rs) ns"

text \<open>
  The function of an update applied to a row, for the bodies the program sends, and the new members of a row. A row
  for which the function fails stays as it is.
\<close>

fun ref_fun :: "json \<Rightarrow> reql \<Rightarrow> json result" where
  "ref_fun r (R_VAR x) = Inr r"
| "ref_fun r (R_DATUM j) = Inr j"
| "ref_fun r (R_JSON j) = Inr j"
| "ref_fun r (R_OP1 (O_BRACKET f) q) =
     bindE (ref_fun r q) (\<lambda>v. case field v f of Some x \<Rightarrow> Inr x | None \<Rightarrow> ref_error)"
| "ref_fun r (R_OP1 (O_COERCE_TO ty) q) =
     bindE (ref_fun r q) (\<lambda>v. if ty = ''array'' \<and> is_array v then Inr v else ref_error)"
| "ref_fun r (R_OP1 (O_OBJECT f) q) = bindE (ref_fun r q) (\<lambda>v. Inr (JObj [(f, v)]))"
| "ref_fun r (R_OP2 O_SET_UNION q q') =
     bindE (ref_fun r q) (\<lambda>a. bindE (ref_fun r q') (\<lambda>b.
       if is_array a \<and> is_array b then Inr (JArr (remdups (as_rows a @ as_rows b))) else ref_error))"
| "ref_fun r _ = ref_error"

fun ref_patch :: "refdb \<Rightarrow> reql \<Rightarrow> json \<Rightarrow> json result" where
  "ref_patch w (R_FUNC xs b) r = ref_fun r b"
| "ref_patch w v r = ref_value w v"

definition patched :: "json \<Rightarrow> json result \<Rightarrow> json" where
  "patched r p = (case p of Inr x \<Rightarrow> JObj (merge_members (members r) (members x)) | Inl _ \<Rightarrow> r)"

fun ref_run :: "reql \<Rightarrow> refdb \<Rightarrow> json result \<times> refdb" where
  "ref_run (R_OP2 (O_INSERT replace) q v) w =
     (case ref_value w v of Inl e \<Rightarrow> (Inl e, w)
      | Inr x \<Rightarrow> if is_object x \<or> is_array x
          then (Inr JNull, w(base_table q :=
            (if replace then ref_insert (without (as_rows x) (w (base_table q))) (as_rows x)
             else ref_insert (w (base_table q)) (as_rows x))))
          else (ref_error, w))"
| "ref_run (R_OP2 (O_UPDATE na) q v) w =
     (case ref_value w q of Inl e \<Rightarrow> (Inl e, w)
      | Inr s \<Rightarrow> (Inr JNull, w(base_table q :=
           without (as_rows s) (w (base_table q)) @ map (\<lambda>r. patched r (ref_patch w v r)) (as_rows s))))"
| "ref_run (R_OP1 O_DELETE q) w =
     (case ref_value w q of Inl e \<Rightarrow> (Inl e, w)
      | Inr s \<Rightarrow> (Inr JNull, w(base_table q := without (as_rows s) (w (base_table q)))))"
| "ref_run q w = (ref_value w q, w)"

section \<open>Its tables\<close>

lemma find_has_id: "find (has_id i) rs = Some r \<Longrightarrow> r \<in> set rs \<and> id_string r = Some i"
  by (auto simp: find_Some_iff has_id_def)

lemma set_visible: "set (visible rs) = ran (\<lambda>i. find (has_id i) rs)"
proof (rule set_eqI)
  fix r
  have "r \<in> set (visible rs) \<longleftrightarrow> (\<exists>i. id_string r = Some i \<and> find (has_id i) rs = Some r)"
    by (auto simp: visible_def dest: find_has_id split: option.splits)
  also have "\<dots> \<longleftrightarrow> (\<exists>i. find (has_id i) rs = Some r)"
    by (auto dest: find_has_id)
  finally show "r \<in> set (visible rs) \<longleftrightarrow> r \<in> ran (\<lambda>i. find (has_id i) rs)"
    by (simp add: ran_def)
qed

lemma distinct_visible: "distinct (visible rs)"
  by (simp add: visible_def)

lemma find_visible: "find (has_id i) (visible rs) = find (has_id i) rs"
proof (cases "find (has_id i) rs")
  case None
  then have "find (has_id i) (visible rs) = None"
    unfolding find_None_iff by (auto simp: visible_def)
  with None show ?thesis by simp
next
  case (Some r)
  have "r \<in> set (visible rs)" using Some by (auto simp: set_visible ran_def)
  moreover have "r' = r" if "r' \<in> set (visible rs)" "has_id i r'" for r'
    using that Some by (auto simp: visible_def has_id_def split: option.splits)
  moreover have "has_id i r" using Some by (auto simp: has_id_def dest: find_has_id)
  ultimately show ?thesis using Some
    by (metis find_None_iff find_has_id has_id_def not_None_eq)
qed

lemma find_append: "find P (xs @ ys) = (case find P xs of None \<Rightarrow> find P ys | Some x \<Rightarrow> Some x)"
  by (induction xs) auto

lemma find_ref_insert:
  "list_all has_string_id ns \<Longrightarrow>
   (\<lambda>i. find (has_id i) (ref_insert rs ns)) = foldl insert_row (\<lambda>i. find (has_id i) rs) ns"
proof (induction ns arbitrary: rs)
  case Nil
  then show ?case by simp
next
  case (Cons n ns)
  then obtain k where k: "id_string n = Some k" by (auto simp: has_string_id_def)
  have "(\<lambda>i. find (has_id i) (if find (has_id k) rs = None then rs @ [n] else rs))
      = insert_row (\<lambda>i. find (has_id i) rs) n"
    using k by (auto simp: fun_eq_iff find_append has_id_def insert_row_def split: option.splits)
  with Cons k show ?case by simp
qed

lemma find_without: "find (has_id i) (without sel rs)
    = (if \<exists>s \<in> set sel. has_id i s then None else find (has_id i) rs)"
proof (induction rs)
  case Nil
  then show ?case by (simp add: without_def)
next
  case (Cons r rs)
  have *: "(\<exists>s \<in> set sel. id_string s = id_string r) \<longleftrightarrow> (\<exists>s \<in> set sel. has_id i s)" if "has_id i r"
    using that by (auto simp: has_id_def)
  show ?case
  proof (cases "has_id i r")
    case True
    with Cons * [OF True] show ?thesis by (auto simp: without_def)
  next
    case False
    with Cons show ?thesis by (simp add: without_def)
  qed
qed

lemma indexed_set: "set (indexed f rs) = {r \<in> set rs. has_index_value f r}"
  by (auto simp: indexed_def)

lemma indexed_sorted: "sorted (map (index_value f) (indexed f rs))"
  by (simp add: indexed_def)

lemma indexed_distinct: "distinct rs \<Longrightarrow> distinct (indexed f rs)"
  by (simp add: indexed_def)

lemma sorted_le_last: "sorted xs \<Longrightarrow> x \<in> set xs \<Longrightarrow> x \<le> last xs"
  by (induction xs) (auto split: if_splits)

lemma sorted_last_Max: "sorted xs \<Longrightarrow> xs \<noteq> [] \<Longrightarrow> last xs = Max (set xs)"
  by (rule sym, rule Max_eqI) (auto intro: sorted_le_last)

lemma last_indexed:
  assumes "indexed f rs \<noteq> []"
  shows "field (last (indexed f rs)) f = Some (JUint (Max (index_value f ` set (indexed f rs))))"
proof -
  have "last (map (index_value f) (indexed f rs)) = Max (set (map (index_value f) (indexed f rs)))"
    using indexed_sorted assms by (intro sorted_last_Max) auto
  then have "index_value f (last (indexed f rs)) = Max (index_value f ` set (indexed f rs))"
    using assms by (simp add: last_map)
  moreover have "has_index_value f (last (indexed f rs))"
    using assms last_in_set indexed_set by blast
  ultimately show ?thesis by (auto simp: has_index_value_field index_value_field)
qed

lemma visible_rows: "set (visible (w t)) = ran (ref_rows w t)"
  by (simp add: set_visible ref_rows_def [abs_def])

lemma find_visible_rows: "find (has_id i) (visible (w t)) = ref_rows w t i"
  by (simp add: find_visible ref_rows_def)

lemma visible_keyed: "r \<in> set (visible rs) \<Longrightarrow> has_string_id r"
  by (auto simp: set_visible ran_def has_string_id_def dest: find_has_id)

lemma ref_rows_upd: "ref_rows (w(t := rs)) = (ref_rows w)(t := (\<lambda>i. find (has_id i) rs))"
  by (auto simp: ref_rows_def fun_eq_iff)

lemma ref_insert_rows:
  assumes "list_all has_string_id ns"
  shows "ref_rows (w(t := ref_insert (w t) ns)) = (ref_rows w)(t := foldl insert_row (ref_rows w t) ns)"
proof -
  have "ref_rows w t = (\<lambda>i. find (has_id i) (w t))" by (simp add: ref_rows_def fun_eq_iff)
  with find_ref_insert [OF assms, of "w t"] show ?thesis by (simp add: ref_rows_upd)
qed

lemma finite_ref_rows: "finite (dom (ref_rows w t))"
proof -
  have "dom (ref_rows w t) \<subseteq> (\<lambda>r. the (id_string r)) ` set (w t)"
    by (force simp: ref_rows_def dest: find_has_id)
  then show ?thesis by (rule finite_subset) simp
qed

lemma merge_members_map: "map_of (merge_members m kvs) = map_of m ++ map_of kvs"
  by (induction kvs) (auto simp: map_add_def)

lemma id_string_merge: "id_string (JObj kvs) = Some i \<Longrightarrow> id_string (JObj (merge_members m kvs)) = Some i"
  by (simp add: id_string_Some merge_members_map)

section \<open>The instance\<close>

definition ref_mile :: "(string \<Rightarrow> json option) \<Rightarrow> (nat option \<Rightarrow> json \<Rightarrow> string) \<Rightarrow> mile_lib" where
  "ref_mile parse dump =
     json_lib.extend (std_json parse dump)
       (mile_lib.fields
          (\<lambda>n. to_string (unat n))
          (\<lambda>s. if s \<noteq> [] \<and> list_all is_digit_char s \<and> decimal_value s < 2 ^ 256
             then Some (of_nat (decimal_value s)) else None)
          (\<lambda>fmt a. fmt @ a)
          64 0 1 (\<lambda>c. c))"

definition ref_env :: "(string \<Rightarrow> json option) \<Rightarrow> (nat option \<Rightarrow> json \<Rightarrow> string) \<Rightarrow> time_t \<Rightarrow> refdb env" where
  "ref_env parse dump now = mile_lib.extend (ref_mile parse dump) (env.fields ref_run (\<lambda>_. now))"

lemma ref_env_json: "nlohmann_json (ref_env parse dump now)"
proof -
  have "nlohmann_json (std_json parse dump)" by (rule std.nlohmann_json_axioms)
  then show ?thesis
    by (simp add: nlohmann_json_def ref_env_def ref_mile_def mile_lib.defs json_lib.defs)
qed

lemma ref_env_run: "reql_run (ref_env parse dump now) = ref_run"
  by (simp add: ref_env_def mile_lib.defs env.defs)

interpretation ref: reql_server "ref_env parse dump now" dbn ref_rows for parse dump now dbn
proof (unfold_locales, goal_cases)
  case (1 w t)
  show ?case by (rule finite_ref_rows)
next
  case (2 w t i r)
  then show ?case by (simp add: ref_rows_def find_has_id)
next
  case (3 t od i w)
  show ?case by (simp add: ref_env_run find_visible_rows)
next
  case (4 t od w)
  show ?case
    by (simp add: ref_env_run indexed_distinct distinct_visible indexed_sorted indexed_set visible_rows)
next
  case (5 w t od)
  then have "indexed ''block-id'' (visible (w t)) \<noteq> []"
    using indexed_set [of "''block-id''" "visible (w t)"] by (auto simp: visible_rows)
  then show ?case
    using last_indexed [of "''block-id''" "visible (w t)"]
    by (auto simp: ref_env_run indexed_set visible_rows dest: field_Some_not_array)
next
  case (6 w t od)
  then have "set (indexed ''block-id'' (visible (w t))) = {}" by (simp only: indexed_set visible_rows)
  then have "indexed ''block-id'' (visible (w t)) = []" by simp
  then show ?case by (simp add: ref_env_run ref_error_def)
next
  case (7 w t i r f v od)
  then show ?case
    by (auto simp: ref_env_run find_visible_rows dest: field_Some_not_array)
next
  case (8 w t i od f)
  then show ?case by (simp add: ref_env_run find_visible_rows ref_error_def)
next
  case (9 ks t od w)
  have keyed: "field r ''id'' = Some (JStr i)" if "ref_rows w t i = Some r" for i r
    using that by (simp add: ref_rows_def find_has_id flip: id_string_Some)
  have "(\<forall>r \<in> ran (ref_rows w t). \<not> (\<exists>k \<in> set ks. field r ''id'' = Some (JStr k)))
      \<longleftrightarrow> (\<forall>k \<in> set ks. ref_rows w t k = None)"
  proof (intro iffI ballI notI)
    fix k assume a: "\<forall>r \<in> ran (ref_rows w t). \<not> (\<exists>k \<in> set ks. field r ''id'' = Some (JStr k))" and k: "k \<in> set ks"
    show "ref_rows w t k = None"
    proof (cases "ref_rows w t k")
      case (Some r)
      with a k keyed [OF Some] show ?thesis by (auto intro: ranI)
    qed simp
  next
    fix r assume b: "\<forall>k \<in> set ks. ref_rows w t k = None" and "r \<in> ran (ref_rows w t)"
      and e: "\<exists>k \<in> set ks. field r ''id'' = Some (JStr k)"
    then obtain i where "ref_rows w t i = Some r" by (auto simp: ran_def)
    with keyed [OF this] b e show False by auto
  qed
  then show ?case by (simp add: ref_env_run filter_empty_conv visible_rows)
next
  case (10 m t od w)
  then show ?case
    using ref_insert_rows [of "[JObj m]" w t] by (simp add: ref_env_run del: ref_insert.simps)
next
  case (11 rs t od w)
  then show ?case
    using ref_insert_rows [of rs w t] by (simp add: ref_env_run)
next
  case (12 t od w)
  show ?case by (simp add: ref_env_run ref_error_def)
next
  case (13 w t i m kvs od)
  then have "find (has_id k) (without [JObj m] (w t) @ [JObj (merge_members m kvs)])
      = ((ref_rows w t)(i \<mapsto> JObj (merge_members m kvs))) k" for k
    using id_string_merge [of kvs i m] find_has_id [of i "w t" "JObj m"]
    by (auto simp: find_append find_without ref_rows_def has_id_def split: option.splits)
  then have "(\<lambda>k. find (has_id k) (without [JObj m] (w t) @ [JObj (merge_members m kvs)]))
      = (ref_rows w t)(i \<mapsto> JObj (merge_members m kvs))" by (rule ext)
  with 13 show ?case by (simp add: ref_env_run find_visible_rows ref_rows_upd patched_def)
next
  case (14 i t od w)
  have "find (has_id k) (without (as_rows (case ref_rows w t i of None \<Rightarrow> JNull | Some r \<Rightarrow> r)) (w t))
      = ((ref_rows w t)(i := None)) k" for k
  proof (cases "ref_rows w t i")
    case None
    then show ?thesis by (simp add: find_without ref_rows_def)
  next
    case (Some r)
    then have r: "id_string r = Some i" by (auto simp: ref_rows_def dest: find_has_id)
    then have "as_rows r = [r]" by (auto simp: id_string_Some dest!: field_Some_object elim: is_object.elims)
    with Some r show ?thesis by (simp add: find_without ref_rows_def has_id_def)
  qed
  then have "(\<lambda>k. find (has_id k) (without (as_rows (case ref_rows w t i of None \<Rightarrow> JNull | Some r \<Rightarrow> r)) (w t)))
      = (ref_rows w t)(i := None)" by (rule ext)
  then show ?case by (simp add: ref_env_run find_visible_rows ref_rows_upd)
qed

lemma ref_run_reads: "reads_only q \<Longrightarrow> snd (ref_run q w) = w"
  by (cases "(q, w)" rule: ref_run.cases) auto

lemma ref_insert_grows: "find (has_id i) rs = Some r \<Longrightarrow> find (has_id i) (ref_insert rs ns) = Some r"
  by (induction rs ns rule: ref_insert.induct) (auto simp: find_append split: option.splits)

interpretation ref_fr: reql_frames "ref_env parse dump now" dbn ref_rows for parse dump now dbn
  by unfold_locales
    (auto simp: ref_env_run ref_run_reads ref_rows_def map_le_def ref_insert_grows split: sum.split prod.split)

end
