(* ===== verification/Tables.thy ===== *)
theory Tables
  imports Ref_Server
begin

text \<open>
  The cursors and tables of the program, \<^verbatim>\<open>common/include/cursor.hpp\<close>, \<^verbatim>\<open>common/src/db/cursor.cpp\<close>,
  \<^verbatim>\<open>common/include/table.hpp\<close>, \<^verbatim>\<open>common/src/db/table.cpp\<close>. A cursor is a query under construction with the
  database it belongs to; its methods build the next query, and the three that talk to the
  server (\<open>get_data\<close>, \<open>get_number\<close>, \<open>remove\<close>) run it. The driver builds terms without raising,
  so the \<^verbatim>\<open>catch\<close> clauses around the construction have no branch here. The lemmas give what
  the operations do to the rows of a server that behaves as \<open>reql_server\<close> states.
\<close>

section \<open>Data\<close>

record db =
  dbo_host :: string
  dbo_port :: "16 word"
  db_name :: string
  last_block_id :: uint256
  db_exists :: bool

record cursor =
  cur_db :: "db option"
  cur_term :: reql

record table =
  tab_db :: db
  tab_name :: string

definition query :: "db \<Rightarrow> reql" where
  "query d = R_DB (db_name d)"

definition open_table :: "db \<Rightarrow> string \<Rightarrow> table" where
  "open_table d n = \<lparr>tab_db = d, tab_name = n\<rparr>"

section \<open>Cursors\<close>

definition on_term :: "(reql \<Rightarrow> reql) \<Rightarrow> cursor \<Rightarrow> cursor" where
  "on_term f c = c\<lparr>cur_term := f (cur_term c)\<rparr>"

definition empty_cursor :: cursor where
  "empty_cursor = \<lparr>cur_db = None, cur_term = R_NIL\<rparr>"

definition cursor_max :: "string \<Rightarrow> cursor \<Rightarrow> cursor" where
  "cursor_max i = on_term (\<lambda>q. R_MAX q i)"

definition cursor_min :: "string \<Rightarrow> cursor \<Rightarrow> cursor" where
  "cursor_min i = on_term (\<lambda>q. R_MIN q i)"

definition cursor_get :: "string \<Rightarrow> string option \<Rightarrow> cursor \<Rightarrow> cursor" where
  "cursor_get k index =
     on_term (\<lambda>q. case index of Some i \<Rightarrow> R_GET_ALL q [k] (Some i) | None \<Rightarrow> R_GET q k)"

definition cursor_count :: "cursor \<Rightarrow> cursor" where
  "cursor_count = on_term (\<lambda>q. R_COUNT q)"

definition cursor_field :: "string \<Rightarrow> cursor \<Rightarrow> cursor" where
  "cursor_field f = on_term (\<lambda>q. R_GET_FIELD q f)"

text \<open>The sum of two \<^verbatim>\<open>uint64_t\<close> wraps around.\<close>

definition cursor_slice :: "uint64 \<Rightarrow> uint64 \<Rightarrow> cursor \<Rightarrow> cursor" where
  "cursor_slice first_id limit = on_term (\<lambda>q. R_SLICE q first_id (first_id + limit))"

definition cursor_between :: "uint64 \<Rightarrow> uint64 \<Rightarrow> string \<Rightarrow> cursor \<Rightarrow> cursor" where
  "cursor_between first_id limit i =
     on_term (\<lambda>q. R_BETWEEN (R_ORDER_BY_INDEX q i) first_id (first_id + limit) i)"

definition cursor_sort :: "string \<Rightarrow> cursor \<Rightarrow> cursor" where
  "cursor_sort i = on_term (\<lambda>q. R_ORDER_BY_INDEX q i)"

definition cursor_sort_field :: "string \<Rightarrow> cursor \<Rightarrow> cursor" where
  "cursor_sort_field f = on_term (\<lambda>q. R_ORDER_BY q (R_DATUM (JStr f)))"

definition cursor_filter :: "reql \<Rightarrow> cursor \<Rightarrow> cursor" where
  "cursor_filter t = on_term (\<lambda>q. R_FILTER q t)"

definition cursor_filter_field :: "string \<Rightarrow> json \<Rightarrow> cursor \<Rightarrow> cursor" where
  "cursor_filter_field f v = on_term (\<lambda>q. R_FILTER_FIELD q f v)"

definition cursor_order_by :: "reql \<Rightarrow> cursor \<Rightarrow> cursor" where
  "cursor_order_by t = on_term (\<lambda>q. R_ORDER_BY q t)"

definition cursor_group :: "string \<Rightarrow> cursor \<Rightarrow> cursor" where
  "cursor_group f = on_term (\<lambda>q. R_GROUP q f)"

definition cursor_limit_func :: "int \<Rightarrow> cursor \<Rightarrow> cursor" where
  "cursor_limit_func n = on_term (\<lambda>q. R_LIMIT q n)"

definition cursor_concat_map_func :: "nat \<Rightarrow> (reql \<Rightarrow> reql) \<Rightarrow> cursor \<Rightarrow> cursor" where
  "cursor_concat_map_func x f = on_term (\<lambda>q. R_CONCAT_MAP q (R_FUNC [x] (f (R_VAR x))))"

definition cursor_concat_map :: "reql \<Rightarrow> cursor \<Rightarrow> cursor" where
  "cursor_concat_map t = on_term (\<lambda>q. R_CONCAT_MAP q t)"

text \<open>The template \<^verbatim>\<open>fold\<close> of \<^verbatim>\<open>cursor.hpp\<close>, with the functions applied to variables and \<open>emit\<close> as the one option.\<close>

definition cursor_fold ::
  "reql \<Rightarrow> nat \<Rightarrow> nat \<Rightarrow> nat \<Rightarrow> (reql \<Rightarrow> reql \<Rightarrow> reql) \<Rightarrow> (reql \<Rightarrow> reql \<Rightarrow> reql \<Rightarrow> reql) \<Rightarrow> cursor \<Rightarrow> cursor" where
  "cursor_fold base_value x y z reduce_value_f emit = on_term (\<lambda>q. R_FOLD q base_value
     (R_FUNC [x, y] (reduce_value_f (R_VAR x) (R_VAR y)))
     (R_FUNC [x, y, z] (emit (R_VAR x) (R_VAR y) (R_VAR z))))"

definition cursor_ungroup :: "cursor \<Rightarrow> cursor" where
  "cursor_ungroup = on_term (\<lambda>q. R_UNGROUP q)"

definition catch_reql :: "('w, 'a) prog \<Rightarrow> 'a \<Rightarrow> ('w, 'a) prog" where
  "catch_reql m x = catchP m (\<lambda>e. if is_reql_error e then ret x else raise e)"

definition get_data :: "('w, 'e) env_scheme \<Rightarrow> cursor \<Rightarrow> ('w, json) prog" where
  "get_data E c =
     catch_reql
       (if cur_db c = None then ret (JArr [])
        else bindP (reql_run E (cur_term c)) (\<lambda>object.
          if object = JNull then ret (JArr []) else ret object))
       (JArr [])"

fun number_value :: "json \<Rightarrow> double" where
  "number_value (JInt i) = of_int i"
| "number_value (JUint n) = of_nat (unat n)"
| "number_value (JFloat r) = r"
| "number_value _ = 0"

definition get_number :: "('w, 'e) env_scheme \<Rightarrow> cursor \<Rightarrow> ('w, double) prog" where
  "get_number E c =
     catch_reql
       (if cur_db c = None then ret 0
        else bindP (reql_run E (cur_term c)) (\<lambda>object.
          if is_number object then ret (number_value object) else ret 0))
       0"

text \<open>\<open>remove\<close> dereferences the database of the cursor: a cursor without one is outside its domain.\<close>

definition cursor_remove_id :: "('w, 'e) env_scheme \<Rightarrow> string \<Rightarrow> cursor \<Rightarrow> ('w, cursor) prog" where
  "cursor_remove_id E k c =
     (case cur_db c of None \<Rightarrow> raise Unknown_exn
      | Some d \<Rightarrow> catch_reql
          (bindP (reql_run E (R_DELETE (R_GET (cur_term c) k))) (\<lambda>_.
           ret \<lparr>cur_db = Some d, cur_term = R_GET (cur_term c) k\<rparr>))
          empty_cursor)"

definition cursor_remove :: "('w, 'e) env_scheme \<Rightarrow> cursor \<Rightarrow> ('w, cursor) prog" where
  "cursor_remove E c =
     (case cur_db c of None \<Rightarrow> raise Unknown_exn
      | Some d \<Rightarrow> catch_reql
          (bindP (reql_run E (R_DELETE (cur_term c))) (\<lambda>_. ret c))
          empty_cursor)"

section \<open>Tables\<close>

definition tab_query :: "table \<Rightarrow> bool \<Rightarrow> reql" where
  "tab_query t outdated = R_TABLE (query (tab_db t)) (tab_name t) outdated"

definition table_cursor :: "bool \<Rightarrow> table \<Rightarrow> cursor" where
  "table_cursor outdated t = \<lparr>cur_db = Some (tab_db t), cur_term = tab_query t outdated\<rparr>"

text \<open>
  The reply to \<^verbatim>\<open>is_empty\<close> is a boolean, and \<^verbatim>\<open>get_boolean\<close> a pointer to it, so the returned
  value says that there is a boolean, not which one.
\<close>

definition has_index :: "('w, 'e) env_scheme \<Rightarrow> string \<Rightarrow> table \<Rightarrow> ('w, bool) prog" where
  "has_index E i t =
     catchP
       (bindP (reql_run E (R_IS_EMPTY (R_INDEX_WAIT (tab_query t False) i))) (\<lambda>v.
        ret (case v of JBool b \<Rightarrow> True | _ \<Rightarrow> False)))
       (\<lambda>_. ret False)"

definition create_index :: "('w, 'e) env_scheme \<Rightarrow> string \<Rightarrow> table \<Rightarrow> ('w, unit) prog" where
  "create_index E n t =
     catchP (bindP (reql_run E (R_INDEX_CREATE (tab_query t False) n)) (\<lambda>_. ret ())) (\<lambda>_. ret ())"

definition create_indices :: "('w, 'e) env_scheme \<Rightarrow> string list \<Rightarrow> table \<Rightarrow> ('w, unit) prog" where
  "create_indices E ns t =
     forP ns (\<lambda>n. bindP (reql_run E (R_INDEX_CREATE (tab_query t False) n)) (\<lambda>_. ret ()))"

definition table_insert :: "('w, 'e) env_scheme \<Rightarrow> json \<Rightarrow> table \<Rightarrow> ('w, unit) prog" where
  "table_insert E data t =
     catch_reql (bindP (reql_run E (R_INSERT (tab_query t False) (R_JSON data) False)) (\<lambda>_. ret ())) ()"

definition insert_with_replace :: "('w, 'e) env_scheme \<Rightarrow> json \<Rightarrow> table \<Rightarrow> ('w, unit) prog" where
  "insert_with_replace E data t =
     catch_reql (bindP (reql_run E (R_INSERT (tab_query t False) (R_JSON data) True)) (\<lambda>_. ret ())) ()"

text \<open>
  The text passed as second argument of \<^verbatim>\<open>get_all\<close> is a second key, not an option.
\<close>

definition index_id_text :: string where
  "index_id_text = ''{\"index\":\"id\"}''"

definition get_all_is_empty :: "('w, 'e) env_scheme \<Rightarrow> string \<Rightarrow> table \<Rightarrow> ('w, bool) prog" where
  "get_all_is_empty E i t =
     bindP (reql_run E (R_IS_EMPTY (R_GET_ALL (tab_query t False) [i, index_id_text] None))) (\<lambda>v.
     case v of JBool b \<Rightarrow> ret b | _ \<Rightarrow> raise Unknown_exn)"

definition table_update :: "('w, 'e) env_scheme \<Rightarrow> json \<Rightarrow> table \<Rightarrow> ('w, unit) prog" where
  "table_update E data t =
     catch_reql
       (bindP (lift (bindE (const_index E data ''id'') (jl_get_string E))) (\<lambda>i.
        bindP (get_all_is_empty E i t) (\<lambda>status.
        if status
        then bindP (reql_run E (R_INSERT (tab_query t False) (R_JSON data) False)) (\<lambda>_. ret ())
        else bindP (lift (jl_erase E data i)) (\<lambda>data'.
             bindP (reql_run E (R_UPDATE (R_GET (tab_query t False) i) (R_JSON data') False)) (\<lambda>_. ret ())))))
       ()"

text \<open>
  The update of one row by a map of columns: the function passed to \<^verbatim>\<open>update\<close> unites the column
  of the row with the given array.
\<close>

definition set_union_func :: "string \<Rightarrow> json \<Rightarrow> reql" where
  "set_union_func k v =
     R_FUNC [1] (R_OBJECT k (R_SET_UNION (R_COERCE_TO (R_BRACKET (R_VAR 1) k) ''array'') (R_JSON v)))"

definition table_update_columns ::
  "('w, 'e) env_scheme \<Rightarrow> string \<Rightarrow> (string \<times> json) list \<Rightarrow> table \<Rightarrow> ('w, unit) prog" where
  "table_update_columns E i data t =
     catch_reql
       (bindP (get_all_is_empty E i t) (\<lambda>status.
        if status
        then bindP (lift (foldl (\<lambda>q kv. bindE q (\<lambda>q. jl_set E q (fst kv) (snd kv)))
               (jl_set E JNull ''id'' (JStr i)) data)) (\<lambda>q.
             bindP (reql_run E (R_INSERT (tab_query t False) (R_JSON q) False)) (\<lambda>_. ret ()))
        else forP data (\<lambda>kv.
             bindP (reql_run E (R_UPDATE (R_GET (tab_query t False) i) (set_union_func (fst kv) (snd kv)) True)) (\<lambda>_.
             ret ()))))
       ()"

lemmas cursor_defs =
  on_term_def cursor_max_def cursor_min_def cursor_get_def cursor_count_def cursor_field_def
  cursor_slice_def cursor_between_def cursor_sort_def cursor_sort_field_def cursor_filter_def
  cursor_filter_field_def cursor_order_by_def cursor_group_def cursor_limit_func_def
  cursor_concat_map_def cursor_concat_map_func_def cursor_fold_def cursor_ungroup_def table_cursor_def tab_query_def query_def open_table_def

section \<open>What the operations do to the rows\<close>

text \<open>The largest value of an index in a table, 0 for a table without the index.\<close>

definition max_index :: "string \<Rightarrow> row_map \<Rightarrow> uint64" where
  "max_index f t =
     (let s = {r \<in> ran t. has_index_value f r} in if s = {} then 0 else Max (index_value f ` s))"

text \<open>
  The contract of the whole environment: the JSON library, the server, and the decimal text of
  a block number.
\<close>

locale explorer_env = nlohmann_json E + reql_server E dbn rows
  for E :: "('w, 'e) env_scheme" and dbn :: string and rows :: "'w \<Rightarrow> string \<Rightarrow> row_map" +
  assumes dec256: "UInt256ToDecString E n = to_string (unat n)"
begin

lemma catch_reql_Inr: "m w = (Inr x, w') \<Longrightarrow> catch_reql m d w = (Inr x, w')"
  by (simp add: catch_reql_def catchP_def)

lemma catch_reql_error: "m w = (Inl (Reql_error s), w') \<Longrightarrow> catch_reql m d w = (Inr d, w')"
  by (simp add: catch_reql_def catchP_def)

lemma get_data_row:
  assumes "db_name d = dbn"
  shows "get_data E (cursor_get i None (table_cursor od (open_table d t))) w
    = (Inr (case rows w t i of Some r \<Rightarrow> r | None \<Rightarrow> JArr []), w)"
proof -
  have "r \<noteq> JNull" if "rows w t i = Some r" for r
    using rows_keyed [OF that] by (auto simp: id_string_def)
  then show ?thesis
    using assms by (auto simp: get_data_def cursor_defs run_get bindP_def catch_reql_def catchP_def split: option.split)
qed

text \<open>
  A row is found exactly when the fetched value has an \<open>id\<close>: the test the pipeline makes.
\<close>

lemma fetched_has_id:
  "0 < count_key (case rows w t i of Some r \<Rightarrow> r | None \<Rightarrow> JArr []) ''id'' \<longleftrightarrow> rows w t i \<noteq> None"
  by (auto simp: id_string_Some dest: rows_keyed split: option.split)

lemma get_data_sorted:
  assumes "db_name d = dbn"
  shows "\<exists>rs. get_data E (cursor_sort ''block-id'' (table_cursor od (open_table d t))) w = (Inr (JArr rs), w)
    \<and> distinct rs \<and> set rs = {r \<in> ran (rows w t). has_index_value ''block-id'' r} \<and> sorted (map (index_value ''block-id'') rs)"
  using run_order_by_index [of t od w] assms
  by (auto simp: get_data_def cursor_defs bindP_def catch_reql_def catchP_def)

lemma get_number_max:
  assumes "db_name d = dbn"
  shows "get_number E (cursor_field ''block-id'' (cursor_max ''block-id'' (table_cursor od (open_table d t)))) w
    = (Inr (of_nat (unat (max_index ''block-id'' (rows w t)))), w)"
  using run_max_field [of w t od] run_max_empty [of w t od] assms
  by (cases "{r \<in> ran (rows w t). has_index_value ''block-id'' r} = {}")
    (auto simp: get_number_def cursor_defs bindP_def catch_reql_def catchP_def max_index_def Let_def)

lemma insert_row_effect:
  assumes "db_name d = dbn" "has_string_id (JObj m)"
  shows "\<exists>w'. table_insert E (JObj m) (open_table d t) w = (Inr (), w')
    \<and> rows w' = (rows w)(t := insert_row (rows w t) (JObj m))"
  using run_insert [OF assms(2), of t False w] assms(1)
  by (auto simp: table_insert_def cursor_defs bindP_def catch_reql_def catchP_def)

lemma insert_rows_effect:
  assumes "db_name d = dbn" "list_all has_string_id rs"
  shows "\<exists>w'. table_insert E (JArr rs) (open_table d t) w = (Inr (), w')
    \<and> rows w' = (rows w)(t := foldl insert_row (rows w t) rs)"
  using run_insert_rows [OF assms(2), of t False w] assms(1)
  by (auto simp: table_insert_def cursor_defs bindP_def catch_reql_def catchP_def)

lemma insert_null_effect:
  assumes "db_name d = dbn"
  shows "table_insert E JNull (open_table d t) w = (Inr (), w)"
  using run_insert_null [of t False w] assms
  by (auto simp: table_insert_def cursor_defs bindP_def catch_reql_def catchP_def)

lemma remove_effect:
  assumes "db_name d = dbn"
  shows "\<exists>c w'. cursor_remove_id E i (table_cursor od (open_table d t)) w = (Inr c, w')
    \<and> rows w' = (rows w)(t := (rows w t)(i := None))"
  using run_delete [of i t od w] assms
  by (auto simp: cursor_remove_id_def cursor_defs bindP_def catch_reql_def catchP_def)

text \<open>
  An update with a row writes it where its key is free and merges it into the stored row where
  it is not, unless the table has a row keyed by the stray second key, or the key of the row is
  the name of one of its members.
\<close>

lemma update_effect:
  assumes "db_name d = dbn" "id_string (JObj m) = Some i"
    and "rows w t index_id_text = None" "map_of m i = None"
  shows "\<exists>w'. table_update E (JObj m) (open_table d t) w = (Inr (), w')
    \<and> rows w' = (rows w)(t := (rows w t)(i \<mapsto>
        (case rows w t i of None \<Rightarrow> JObj m | Some r \<Rightarrow> JObj (merge_members (members r) m))))"
proof -
  have i: "map_of m ''id'' = Some (JStr i)" using assms(2) by (simp add: id_string_Some)
  have e: "get_all_is_empty E i (open_table d t) w = (Inr (rows w t i = None), w)"
    using assms(1,3) by (simp add: get_all_is_empty_def cursor_defs run_get_all_empty bindP_def)
  have del: "del i m = m"
    using assms(4) by (auto simp: del_def filter_id_conv map_of_eq_None_iff)
  have k: "const_index E (JObj m) ''id'' = Inr (JStr i)" using i by (simp add: const_index_def)
  show ?thesis
  proof (cases "rows w t i")
    case None
    obtain v w' where "reql_run E (R_INSERT (R_TABLE (R_DB dbn) t False) (R_JSON (JObj m)) False) w = (Inr v, w')"
      "rows w' = (rows w)(t := insert_row (rows w t) (JObj m))"
      using run_insert [of m t False w] assms(2) by (auto simp: has_string_id_def)
    then show ?thesis
      using None e k assms(1,2)
      by (auto simp: table_update_def bindP_def catch_reql_def catchP_def cursor_defs insert_row_def)
  next
    case (Some r)
    then obtain mr where r: "r = JObj mr"
      using rows_keyed [OF Some] by (cases r) (auto simp: id_string_Some)
    obtain v w' where "reql_run E (R_UPDATE (R_GET (R_TABLE (R_DB dbn) t False) i) (R_JSON (JObj m)) False) w = (Inr v, w')"
      "rows w' = (rows w)(t := (rows w t)(i \<mapsto> JObj (merge_members mr m)))"
      using run_update [of w t i mr m False] Some r assms(2) by auto
    then show ?thesis
      using Some r e k del assms(1)
      by (auto simp: table_update_def bindP_def catch_reql_def catchP_def cursor_defs)
  qed
qed

end

lemma ref_explorer: "explorer_env (ref_env parse dump now) dbn ref_rows"
proof -
  have "UInt256ToDecString (ref_env parse dump now) n = to_string (unat n)" for n
    by (simp add: ref_env_def ref_mile_def mile_lib.defs json_lib.defs)
  then show ?thesis
    by (simp add: explorer_env_def explorer_env_axioms_def ref_env_json ref.reql_server_axioms)
qed

interpretation refx: explorer_env "ref_env parse dump now" dbn ref_rows for parse dump now dbn
  by (rule ref_explorer)

end
