(* ===== verification/Db.thy ===== *)
theory Db
  imports Tables
begin

text \<open>
  The database object: opening and initializing it, its version record, and the queries behind
  the API (\<^verbatim>\<open>common/src/db/db.cpp\<close>, \<^verbatim>\<open>getters.cpp\<close>, \<^verbatim>\<open>migration.cpp\<close>, \<^verbatim>\<open>migrations/m127.cpp\<close>). The worker loops
  that \<open>init\<close> starts at its end are \<open>blocks_pass\<close>, \<open>transactions_pass\<close> and \<open>statistics_round\<close> of the theories
  \<open>Blocks\<close>, \<open>Transactions\<close> and \<open>Statistics\<close>.
\<close>

section \<open>Conversions\<close>

text \<open>A conversion of a floating point number to an integer type truncates towards zero.\<close>

definition trunc_double :: "double \<Rightarrow> int" where
  "trunc_double r = (if 0 \<le> r then \<lfloor>r\<rfloor> else \<lceil>r\<rceil>)"

lemma trunc_double_of_nat [simp]: "trunc_double (of_nat n) = int n"
  by (simp add: trunc_double_def)

lemma trunc_double_unsigned [simp]: "trunc_double (unsigned (n :: 'a::len word)) = uint n"
  by (metis of_nat_unat trunc_double_of_nat uint_nat)

section \<open>Opening\<close>

definition db_open :: "('w, 'e) env_scheme \<Rightarrow> string \<Rightarrow> string \<Rightarrow> int \<Rightarrow> ('w, db option) prog" where
  "db_open E name host port =
     catch_reql
       (bindP (reql_run E R_DB_LIST) (\<lambda>databases.
        ret (Some \<lparr>dbo_host = host, dbo_port = word_of_int port, db_name = name,
                   last_block_id = 0, db_exists = (JStr name \<in> set (items databases))\<rparr>)))
       None"

definition is_exist :: "db \<Rightarrow> bool" where
  "is_exist d = db_exists d"

definition has_table :: "('w, 'e) env_scheme \<Rightarrow> db \<Rightarrow> string \<Rightarrow> ('w, bool) prog" where
  "has_table E d name =
     catch_reql
       (bindP (reql_run E (R_TABLE_LIST (query d))) (\<lambda>v. ret (JStr name \<in> set (items v))))
       False"

definition create_table :: "('w, 'e) env_scheme \<Rightarrow> db \<Rightarrow> string \<Rightarrow> ('w, table) prog" where
  "create_table E d name =
     catch_reql
       (bindP (reql_run E (R_TABLE_CREATE (query d) name)) (\<lambda>_. ret (open_table d name)))
       (open_table d name)"

definition delete_table :: "('w, 'e) env_scheme \<Rightarrow> db \<Rightarrow> string \<Rightarrow> ('w, unit) prog" where
  "delete_table E d name =
     catch_reql (bindP (reql_run E (R_TABLE_DROP (query d) name)) (\<lambda>_. ret ())) ()"

section \<open>The version record\<close>

definition get_version :: "('w, 'e) env_scheme \<Rightarrow> db \<Rightarrow> ('w, 32 word) prog" where
  "get_version E d =
     catch_reql
       (bindP (get_number E (cursor_field ''version'' (cursor_max ''id'' (table_cursor True (open_table d t_meta))))) (\<lambda>v.
        ret (word_of_int (trunc_double v))))
       0"

definition update_version :: "('w, 'e) env_scheme \<Rightarrow> db \<Rightarrow> 32 word \<Rightarrow> ('w, unit) prog" where
  "update_version E d version =
     catch_reql
       (bindP
          (catch_reql
             (bindP (get_number E (cursor_field ''id'' (cursor_max ''id'' (table_cursor True (open_table d t_meta))))) (\<lambda>v.
              ret (word_of_int (trunc_double v) + 1)))
             0)
        (\<lambda>restart_number :: 32 word.
        bindP (get_version E d) (\<lambda>previous_version.
        bindP (getP (clock E)) (\<lambda>now.
        table_insert E
          (obj [(''id'', JUint (ucast restart_number)), (''version'', JUint (ucast version)),
                (''previous_version'', JUint (ucast previous_version)), (''timestamp'', JInt now)])
          (open_table d t_meta)))))
       ()"

section \<open>Queries\<close>

definition get_last_processed_block_id :: "('w, 'e) env_scheme \<Rightarrow> db \<Rightarrow> ('w, uint256) prog" where
  "get_last_processed_block_id E d =
     catch_reql
       (bindP (get_number E (cursor_field ''block-id'' (cursor_get ''state'' None
          (table_cursor True (open_table d t_transactions_state))))) (\<lambda>v.
        ret (word_of_int (trunc_double v))))
       0"

definition get_last_block_id :: "('w, 'e) env_scheme \<Rightarrow> db \<Rightarrow> ('w, uint256) prog" where
  "get_last_block_id E d =
     catch_reql
       (bindP (get_number E (cursor_field ''block-id'' (cursor_max ''block-id''
          (table_cursor True (open_table d t_blocks))))) (\<lambda>v.
        ret (word_of_int (trunc_double v))))
       0"

definition get_network_state :: "('w, 'e) env_scheme \<Rightarrow> db \<Rightarrow> ('w, json) prog" where
  "get_network_state E d =
     get_data E (cursor_max ''id'' (table_cursor True (open_table d t_node_states)))"

definition get_blockchain_info :: "('w, 'e) env_scheme \<Rightarrow> db \<Rightarrow> ('w, json) prog" where
  "get_blockchain_info E d =
     get_data E (cursor_max ''id'' (table_cursor True (open_table d t_blockchain_info)))"

definition get_nodes :: "('w, 'e) env_scheme \<Rightarrow> db \<Rightarrow> uint64 \<Rightarrow> uint64 \<Rightarrow> ('w, json) prog" where
  "get_nodes E d first_id limit =
     get_data E (cursor_slice first_id limit (cursor_field ''nodes'' (cursor_max ''id''
       (table_cursor True (open_table d t_node_states)))))"

definition get_wallet_node :: "('w, 'e) env_scheme \<Rightarrow> db \<Rightarrow> string \<Rightarrow> ('w, json) prog" where
  "get_wallet_node E d public_key =
     get_data E (cursor_get public_key None (table_cursor True (open_table d t_node_wallets)))"

definition get_block_history_state :: "('w, 'e) env_scheme \<Rightarrow> db \<Rightarrow> ('w, json) prog" where
  "get_block_history_state E d =
     get_data E (cursor_max ''block-id'' (table_cursor True (open_table d t_blocks)))"

definition get_block_history :: "('w, 'e) env_scheme \<Rightarrow> db \<Rightarrow> uint64 \<Rightarrow> uint64 \<Rightarrow> ('w, json) prog" where
  "get_block_history E d first_id limit =
     get_data E (cursor_between first_id limit ''block-id'' (table_cursor True (open_table d t_blocks)))"

definition get_block_by_id :: "('w, 'e) env_scheme \<Rightarrow> db \<Rightarrow> uint256 \<Rightarrow> ('w, json) prog" where
  "get_block_by_id E d block_id =
     get_data E (cursor_get (UInt256ToDecString E block_id) None (table_cursor True (open_table d t_blocks)))"

definition get_wallet_history_state :: "('w, 'e) env_scheme \<Rightarrow> db \<Rightarrow> string \<Rightarrow> ('w, uint64 \<times> uint64) prog" where
  "get_wallet_history_state E d public_key =
     catchP
       (bindP (get_data E (cursor_count (cursor_field ''blocks'' (cursor_get public_key None
          (table_cursor True (open_table d t_wallets)))))) (\<lambda>block.
        bindP (get_data E (cursor_count (cursor_field ''transactions'' (cursor_get public_key None
          (table_cursor True (open_table d t_wallets)))))) (\<lambda>trx.
        bindP (lift (jl_get_u64 E block)) (\<lambda>b.
        bindP (lift (jl_get_u64 E trx)) (\<lambda>t.
        ret (b, t))))))
       (\<lambda>_. ret (0, 0))"

definition get_wallet_history_blocks ::
  "('w, 'e) env_scheme \<Rightarrow> db \<Rightarrow> string \<Rightarrow> uint64 \<Rightarrow> uint64 \<Rightarrow> ('w, json) prog" where
  "get_wallet_history_blocks E d public_key first_id limit =
     get_data E (cursor_slice first_id limit (cursor_field ''block-id'' (cursor_sort_field ''block-id''
       (cursor_field ''transactions'' (cursor_get public_key None
         (table_cursor True (open_table d t_wallets)))))))"

definition get_wallet_history_transactions ::
  "('w, 'e) env_scheme \<Rightarrow> db \<Rightarrow> string \<Rightarrow> uint64 \<Rightarrow> uint64 \<Rightarrow> ('w, json) prog" where
  "get_wallet_history_transactions E d public_key first_id limit =
     get_data E (cursor_slice first_id limit (cursor_field ''transactions'' (cursor_get public_key None
       (table_cursor True (open_table d t_wallets)))))"

definition get_transaction_history_state :: "('w, 'e) env_scheme \<Rightarrow> db \<Rightarrow> ('w, uint64) prog" where
  "get_transaction_history_state E d =
     bindP (get_data E (cursor_field ''count'' (cursor_get ''state'' None
       (table_cursor True (open_table d t_transactions_state))))) (\<lambda>v.
     lift (jl_get_u64 E v))"

definition get_transaction_history :: "('w, 'e) env_scheme \<Rightarrow> db \<Rightarrow> uint64 \<Rightarrow> uint64 \<Rightarrow> ('w, json) prog" where
  "get_transaction_history E d first_id limit =
     get_data E (cursor_between first_id limit ''serial'' (table_cursor True (open_table d t_transactions)))"

definition get_transaction_by_id :: "('w, 'e) env_scheme \<Rightarrow> db \<Rightarrow> string \<Rightarrow> ('w, json) prog" where
  "get_transaction_by_id E d i =
     get_data E (cursor_get i None (table_cursor True (open_table d t_transactions)))"

definition get_transaction_by_digest :: "('w, 'e) env_scheme \<Rightarrow> db \<Rightarrow> string \<Rightarrow> ('w, json) prog" where
  "get_transaction_by_digest E d i =
     get_data E (cursor_get i (Some ''digest'') (table_cursor True (open_table d t_transactions)))"

section \<open>Migration\<close>

text \<open>\<open>m127\<close> only logs. \<open>indexer_version\<close> is the number the build writes into \<^verbatim>\<open>version.hpp\<close>.\<close>

definition m127 :: "('w, unit) prog" where
  "m127 = ret ()"

definition migration :: "('w, 'e) env_scheme \<Rightarrow> 32 word \<Rightarrow> db \<Rightarrow> ('w, unit) prog" where
  "migration E indexer_version d =
     bindP (get_version E d) (\<lambda>dbv.
     bindP
       (catch_reql
          (bindP (get_number E (cursor_field ''current'' (cursor_get ''version'' None
             (table_cursor True (open_table d t_meta))))) (\<lambda>old.
           bindP (if old \<le> 122
                  then bindP (cursor_remove E (cursor_get ''version'' None
                         (table_cursor True (open_table d t_meta)))) (\<lambda>_. ret ())
                  else ret ()) (\<lambda>_.
           if old < 127 then m127 else ret ())))
          ())
     (\<lambda>_.
     bindP (get_version E d) (\<lambda>cur.
     bindP (if cur < indexer_version then update_version E d indexer_version else ret ()) (\<lambda>_.
     bindP (get_last_processed_block_id E d) (\<lambda>sb.
     let state_block_id = ucast sb :: uint64 in
     bindP
       (catch_reql
          (bindP (get_number E (cursor_field ''block-id'' (cursor_min ''block-id''
             (table_cursor True (open_table d t_transactions_processing))))) (\<lambda>v.
           ret (word_of_int (trunc_double v))))
          0)
     (\<lambda>processing_block_id :: uint64.
     if processing_block_id < state_block_id \<and> 0 < processing_block_id
     then bindP (cursor_remove E (cursor_between processing_block_id state_block_id ''block-id''
            (table_cursor True (open_table d t_transactions_processing)))) (\<lambda>_. ret ())
     else ret ()))))))"

section \<open>Initialization\<close>

text \<open>
  The result is the returned flag and the database object with the last block it read.
\<close>

definition db_init :: "('w, 'e) env_scheme \<Rightarrow> 32 word \<Rightarrow> db \<Rightarrow> ('w, bool \<times> db) prog" where
  "db_init E indexer_version d =
     (let init_db = (\<not> is_exist d) in
      catch_reql
        (bindP (if init_db then bindP (reql_run E (R_DB_CREATE (db_name d))) (\<lambda>_. ret ()) else ret ()) (\<lambda>_.
         bindP (forP get_names (\<lambda>name.
           bindP (has_table E d name) (\<lambda>has.
           if has then ret () else bindP (create_table E d name) (\<lambda>_. ret ())))) (\<lambda>_.
         bindP (forP get_indices (\<lambda>desc.
           bindP (has_index E (ix_field desc) (open_table d (ix_table desc))) (\<lambda>has.
           if has then ret () else create_index E (ix_field desc) (open_table d (ix_table desc))))) (\<lambda>_.
         bindP (if is_exist d
                then bindP (get_last_block_id E d) (\<lambda>b. ret (d\<lparr>last_block_id := b\<rparr>))
                else ret d) (\<lambda>d'.
         bindP (migration E indexer_version d') (\<lambda>_.
         ret (init_db, d')))))))
        (init_db, d))"

context explorer_env
begin

text \<open>The last block is the largest block number among the stored blocks.\<close>

lemma get_last_block_id_value:
  assumes "db_name d = dbn"
  shows "get_last_block_id E d w = (Inr (ucast (max_index ''block-id'' (rows w t_blocks))), w)"
  using get_number_max [OF assms, of True t_blocks w]
  by (simp add: get_last_block_id_def bindP_def catch_reql_def catchP_def)

lemma get_block_by_id_value:
  assumes "db_name d = dbn"
  shows "get_block_by_id E d b w
    = (Inr (case rows w t_blocks (to_string (unat b)) of Some r \<Rightarrow> r | None \<Rightarrow> JArr []), w)"
  using get_data_row [OF assms] by (simp add: get_block_by_id_def dec256)

lemma get_transaction_by_id_value:
  assumes "db_name d = dbn"
  shows "get_transaction_by_id E d i w
    = (Inr (case rows w t_transactions i of Some r \<Rightarrow> r | None \<Rightarrow> JArr []), w)"
  using get_data_row [OF assms] by (simp add: get_transaction_by_id_def)

end

text \<open>
  An environment and a database object for concrete runs. The JSON parser of the environment knows one
  text, a request for block 0.
\<close>

definition sample_request :: json where
  "sample_request = obj [(''jsonrpc'', JStr ''2.0''), (''method'', JStr ''get-block''), (''params'', obj [(''id'', JUint 0)]), (''id'', JUint 1)]"

definition sample_env :: "refdb env" where
  "sample_env = ref_env (\<lambda>s. if s = ''get-block'' then Some sample_request else None) (\<lambda>_ _. []) 0"

definition sample_db :: db where
  "sample_db = \<lparr>dbo_host = ''localhost'', dbo_port = 28015, db_name = ''blockchain'', last_block_id = 0, db_exists = True\<rparr>"

lemma sample_explorer: "explorer_env sample_env (db_name sample_db) ref_rows"
  unfolding sample_env_def by (rule ref_explorer)

end
