(* ===== verification/Message.thy ===== *)
theory Message
  imports Json
begin

text \<open>
  The JSON-RPC messages of the backend and the context of one request:
  \<^verbatim>\<open>backend/jsonrpc/message.hpp\<close>, \<^verbatim>\<open>backend/jsonrpc/context.hpp\<close> and \<^verbatim>\<open>context.cpp\<close>. The
  messages are records, the predicates on a received JSON value may raise (a conversion of a
  member of the wrong kind), and the parsers fill a message in place, so what they assigned
  before they fail or raise stays.
\<close>

section \<open>Messages\<close>

record request_message =
  rq_id :: json
  rq_method :: string
  rq_params :: json

record response_error =
  re_code :: int
  re_message :: string
  re_data :: json

record response_message =
  rs_id :: json
  rs_result :: json
  rs_error :: "response_error option"

record notify_message =
  nt_method :: string
  nt_params :: json

definition pretty_indent :: nat where
  "pretty_indent = 4"

definition empty_request :: request_message where
  "empty_request = \<lparr>rq_id = JNull, rq_method = [], rq_params = JNull\<rparr>"

definition new_request :: "string \<Rightarrow> string \<Rightarrow> json \<Rightarrow> request_message" where
  "new_request i m p = \<lparr>rq_id = JStr i, rq_method = m, rq_params = p\<rparr>"

definition new_request_int :: "int \<Rightarrow> string \<Rightarrow> json \<Rightarrow> request_message" where
  "new_request_int i m p = \<lparr>rq_id = JFloat (of_int i), rq_method = m, rq_params = p\<rparr>"

definition new_response_error :: "int \<Rightarrow> string \<Rightarrow> response_error" where
  "new_response_error c m = \<lparr>re_code = c, re_message = m, re_data = JNull\<rparr>"

definition empty_response :: response_message where
  "empty_response = \<lparr>rs_id = JNull, rs_result = JNull, rs_error = None\<rparr>"

definition new_response :: "string \<Rightarrow> json \<Rightarrow> response_message" where
  "new_response i r = \<lparr>rs_id = JStr i, rs_result = r, rs_error = None\<rparr>"

definition new_response_int :: "int \<Rightarrow> json \<Rightarrow> response_message" where
  "new_response_int i r = \<lparr>rs_id = JFloat (of_int i), rs_result = r, rs_error = None\<rparr>"

definition new_notify :: "string \<Rightarrow> json \<Rightarrow> notify_message" where
  "new_notify m p = \<lparr>nt_method = m, nt_params = p\<rparr>"

text \<open>The enumerator without an initializer is one more than the one before it.\<close>

datatype error_code =
    ParseError | InvalidRequest | MethodNotFound | InvalidParams | InternalError
  | ServerErrorStart | ServerErrorEnd | ServerNotInitialized | UnknownErrorCode

fun error_code_value :: "error_code \<Rightarrow> int" where
  "error_code_value ParseError = -32700"
| "error_code_value InvalidRequest = -32600"
| "error_code_value MethodNotFound = -32601"
| "error_code_value InvalidParams = -32602"
| "error_code_value InternalError = -32603"
| "error_code_value ServerErrorStart = -32099"
| "error_code_value ServerErrorEnd = -32000"
| "error_code_value ServerNotInitialized = -31999"
| "error_code_value UnknownErrorCode = -32001"

section \<open>Predicates on received values\<close>

definition contains :: "json \<Rightarrow> string \<Rightarrow> bool" where
  "contains msg key \<longleftrightarrow> field msg key \<noteq> None"

definition is_notify :: "json \<Rightarrow> bool" where
  "is_notify msg \<longleftrightarrow> is_object msg \<and> \<not> contains msg ''id''"

definition is_jsonrpc :: "json \<Rightarrow> bool" where
  "is_jsonrpc msg \<longleftrightarrow> is_object msg \<and> contains msg ''jsonrpc''"

definition is_valid_version :: "'e json_lib_scheme \<Rightarrow> json \<Rightarrow> bool result" where
  "is_valid_version L msg =
     (if is_object msg \<and> contains msg ''jsonrpc''
      then bindE (jl_at L msg ''jsonrpc'') (\<lambda>v. bindE (jl_get_string L v) (\<lambda>s. Inr (s = ''2.0'')))
      else Inr False)"

definition is_request :: "'e json_lib_scheme \<Rightarrow> json \<Rightarrow> bool result" where
  "is_request L msg =
     (if is_object msg \<and> contains msg ''method''
      then bindE (jl_at L msg ''method'') (\<lambda>v. Inr (is_string v))
      else Inr False)"

definition is_response :: "json \<Rightarrow> bool" where
  "is_response msg \<longleftrightarrow> is_object msg \<and> \<not> contains msg ''method'' \<and> contains msg ''id''"

section \<open>Parsing\<close>

definition parse_request :: "'e json_lib_scheme \<Rightarrow> json \<Rightarrow> (request_message, bool) prog" where
  "parse_request L msg =
     bindP (lift (jl_at L msg ''id'')) (\<lambda>i.
     bindP (modifyP (\<lambda>r. r\<lparr>rq_id := i\<rparr>)) (\<lambda>_.
     bindP (lift (is_request L msg)) (\<lambda>ok.
     if \<not> ok then ret False
     else
       bindP (lift (bindE (jl_at L msg ''method'') (jl_get_string L))) (\<lambda>m.
       bindP (modifyP (\<lambda>r. r\<lparr>rq_method := m\<rparr>)) (\<lambda>_.
       bindP (lift (if contains msg ''param'' then jl_at L msg ''param'' else jl_at L msg ''params'')) (\<lambda>p.
       bindP (modifyP (\<lambda>r. r\<lparr>rq_params := p\<rparr>)) (\<lambda>_.
       ret True)))))))"

definition parse_notify :: "'e json_lib_scheme \<Rightarrow> json \<Rightarrow> (notify_message, bool) prog" where
  "parse_notify L msg =
     (if \<not> is_notify msg then ret False
      else
        bindP (lift (bindE (jl_at L msg ''method'') (jl_get_string L))) (\<lambda>m.
        bindP (modifyP (\<lambda>n. n\<lparr>nt_method := m\<rparr>)) (\<lambda>_.
        bindP (lift (if contains msg ''param'' then jl_at L msg ''param'' else jl_at L msg ''params'')) (\<lambda>p.
        bindP (modifyP (\<lambda>n. n\<lparr>nt_params := p\<rparr>)) (\<lambda>_.
        ret True)))))"

definition parse_response :: "'e json_lib_scheme \<Rightarrow> json \<Rightarrow> (response_message, bool) prog" where
  "parse_response L msg =
     (if \<not> is_response msg then ret False
      else
        bindP (lift (jl_at L msg ''id'')) (\<lambda>i.
        bindP (modifyP (\<lambda>r. r\<lparr>rs_id := i\<rparr>)) (\<lambda>_.
        bindP (lift (jl_at L msg ''result'')) (\<lambda>v.
        bindP (modifyP (\<lambda>r. r\<lparr>rs_result := v\<rparr>)) (\<lambda>_.
        ret True)))))"

section \<open>Serializing\<close>

definition dump_pretty :: "'e json_lib_scheme \<Rightarrow> json \<Rightarrow> string" where
  "dump_pretty L j = jl_dump L (Some pretty_indent) j"

definition request_json :: "'e json_lib_scheme \<Rightarrow> request_message \<Rightarrow> json result" where
  "request_json L msg =
     assign L JNull
       ([(''jsonrpc'', JStr ''2.0''), (''method'', JStr (rq_method msg))]
        @ (if is_null (rq_params msg) then [] else [(''params'', rq_params msg)])
        @ [(''id'', rq_id msg)])"

definition serialize_request :: "'e json_lib_scheme \<Rightarrow> request_message \<Rightarrow> string result" where
  "serialize_request L msg = bindE (request_json L msg) (\<lambda>j. Inr (dump_pretty L j))"

definition error_json :: "'e json_lib_scheme \<Rightarrow> response_error \<Rightarrow> json result" where
  "error_json L e =
     assign L (obj [(''code'', JFloat (of_int (re_code e))), (''message'', JStr (re_message e))])
       (if is_null (re_data e) then [] else [(''data'', re_data e)])"

definition response_json :: "'e json_lib_scheme \<Rightarrow> response_message \<Rightarrow> json result" where
  "response_json L msg =
     bindE (assign L JNull
       ((''jsonrpc'', JStr ''2.0'')
        # (if is_null (rs_result msg) then [] else [(''result'', rs_result msg)])))
     (\<lambda>j. bindE (case rs_error msg of None \<Rightarrow> Inr j
                 | Some e \<Rightarrow> bindE (error_json L e) (\<lambda>ej. jl_set L j ''error'' ej))
     (\<lambda>j. jl_set L j ''id'' (rs_id msg)))"

definition serialize_response :: "'e json_lib_scheme \<Rightarrow> response_message \<Rightarrow> string result" where
  "serialize_response L msg = bindE (response_json L msg) (\<lambda>j. Inr (dump_pretty L j))"

definition serialize_notify :: "'e json_lib_scheme \<Rightarrow> notify_message \<Rightarrow> string result" where
  "serialize_notify L msg =
     bindE (assign L JNull
       ([(''jsonrpc'', JStr ''2.0''), (''method'', JStr (nt_method msg))]
        @ (if is_null (nt_params msg) then [] else [(''params'', nt_params msg)])))
     (\<lambda>j. Inr (dump_pretty L j))"

text \<open>
  The three namespaces at the end of \<^verbatim>\<open>message.hpp\<close>, without the version member. The overloads
  that take a number or a text in the place of a JSON value convert it first.
\<close>

definition request_serialize :: "'e json_lib_scheme \<Rightarrow> json \<Rightarrow> string \<Rightarrow> json \<Rightarrow> string result" where
  "request_serialize L i m p =
     bindE (assign L JNull
       ([(''method'', JStr m)] @ (if is_null p then [] else [(''params'', p)]) @ [(''id'', i)]))
     (\<lambda>j. Inr (dump_pretty L j))"

definition request_serialize_text :: "'e json_lib_scheme \<Rightarrow> json \<Rightarrow> string \<Rightarrow> string \<Rightarrow> string result" where
  "request_serialize_text L i m p = request_serialize L i m (JStr p)"

definition request_serialize_num_text :: "'e json_lib_scheme \<Rightarrow> double \<Rightarrow> string \<Rightarrow> string \<Rightarrow> string result" where
  "request_serialize_num_text L i m p = request_serialize L (JFloat i) m (JStr p)"

definition request_serialize_num :: "'e json_lib_scheme \<Rightarrow> double \<Rightarrow> string \<Rightarrow> json \<Rightarrow> string result" where
  "request_serialize_num L i m p = request_serialize L (JFloat i) m p"

definition request_serialize_text_text :: "'e json_lib_scheme \<Rightarrow> string \<Rightarrow> string \<Rightarrow> string \<Rightarrow> string result" where
  "request_serialize_text_text L i m p = request_serialize L (JStr i) m (JStr p)"

definition request_serialize_text_id :: "'e json_lib_scheme \<Rightarrow> string \<Rightarrow> string \<Rightarrow> json \<Rightarrow> string result" where
  "request_serialize_text_id L i m p = request_serialize L (JStr i) m p"

definition notify_serialize :: "'e json_lib_scheme \<Rightarrow> string \<Rightarrow> json \<Rightarrow> string result" where
  "notify_serialize L m p =
     bindE (assign L JNull ([(''method'', JStr m)] @ (if is_null p then [] else [(''params'', p)])))
     (\<lambda>j. Inr (dump_pretty L j))"

definition notify_serialize_text :: "'e json_lib_scheme \<Rightarrow> string \<Rightarrow> string \<Rightarrow> string result" where
  "notify_serialize_text L m p = notify_serialize L m (JStr p)"

definition responce_serialize :: "'e json_lib_scheme \<Rightarrow> json \<Rightarrow> json \<Rightarrow> bool \<Rightarrow> string result" where
  "responce_serialize L i r err =
     bindE (assign L JNull ((if err then [(''error'', r)] else [(''result'', r)]) @ [(''id'', i)]))
     (\<lambda>j. Inr (dump_pretty L j))"

definition responce_serialize_text :: "'e json_lib_scheme \<Rightarrow> json \<Rightarrow> string \<Rightarrow> bool \<Rightarrow> string result" where
  "responce_serialize_text L i r err = responce_serialize L i (JStr r) err"

text \<open>
  \<^verbatim>\<open>get_method\<close> returns a reference to a function-local static string, which a message without
  a method leaves as the previous call set it: the static is the state.
\<close>

definition get_method :: "'e json_lib_scheme \<Rightarrow> json \<Rightarrow> (string, string) prog" where
  "get_method L msg =
     (if \<not> is_object msg \<or> \<not> contains msg ''method'' then getP (\<lambda>s. s)
      else bindP (lift (jl_at L msg ''method'')) (\<lambda>m.
        if \<not> is_string m then getP (\<lambda>s. s)
        else bindP (lift (jl_get_string L m)) (\<lambda>s. bindP (modifyP (\<lambda>_. s)) (\<lambda>_. getP (\<lambda>s. s)))))"

definition get_param :: "'e json_lib_scheme \<Rightarrow> json \<Rightarrow> json result" where
  "get_param L msg =
     (if \<not> is_object msg \<or> \<not> contains msg ''params'' then Inr JNull else jl_at L msg ''params'')"

definition get_id :: "'e json_lib_scheme \<Rightarrow> json \<Rightarrow> json result" where
  "get_id L msg =
     (if \<not> is_object msg \<or> \<not> contains msg ''id'' then Inr JNull else jl_at L msg ''id'')"

section \<open>The context of a request\<close>

record rpc_context =
  request :: request_message
  response :: response_message

definition new_context :: rpc_context where
  "new_context = \<lparr>request = empty_request, response = empty_response\<rparr>"

definition set_error :: "error_code \<Rightarrow> string \<Rightarrow> rpc_context \<Rightarrow> rpc_context" where
  "set_error c m ctx =
     ctx\<lparr>response := (response ctx)\<lparr>rs_error := Some (new_response_error (error_code_value c) m)\<rparr>\<rparr>"

definition make_response_parse_error :: "string \<Rightarrow> rpc_context \<Rightarrow> rpc_context" where
  "make_response_parse_error err ctx =
     (if err = [] then set_error ParseError ''ParseError'' ctx else set_error ParseError err ctx)"

definition make_response_internal_error :: "rpc_context \<Rightarrow> rpc_context" where
  "make_response_internal_error = set_error InternalError ''InternalError''"

definition make_response_error_non_method :: "rpc_context \<Rightarrow> rpc_context" where
  "make_response_error_non_method = set_error MethodNotFound ''MethodNotFound''"

definition make_response_invalid_request :: "rpc_context \<Rightarrow> rpc_context" where
  "make_response_invalid_request = set_error InvalidRequest ''InvalidRequest''"

definition set_result :: "json \<Rightarrow> rpc_context \<Rightarrow> rpc_context" where
  "set_result j ctx = ctx\<lparr>response := (response ctx)\<lparr>rs_result := j\<rparr>\<rparr>"

definition on_request :: "(request_message, 'a) prog \<Rightarrow> (rpc_context, 'a) prog" where
  "on_request m = (\<lambda>ctx. case m (request ctx) of (r, q) \<Rightarrow> (r, ctx\<lparr>request := q\<rparr>))"

definition from_json :: "'e json_lib_scheme \<Rightarrow> json \<Rightarrow> (rpc_context, unit) prog" where
  "from_json L j =
     bindP (lift (is_valid_version L j)) (\<lambda>valid.
     if \<not> valid
     then bindP (lift (jl_at L j ''id'')) (\<lambda>i.
          bindP (modifyP (\<lambda>c. c\<lparr>request := (request c)\<lparr>rq_id := i\<rparr>\<rparr>)) (\<lambda>_.
          modifyP (make_response_parse_error ''WrongVersion'')))
     else bindP (on_request (parse_request L j)) (\<lambda>ok.
       if \<not> ok then modifyP make_response_invalid_request
       else bindP (modifyP (\<lambda>c. c\<lparr>response := (response c)\<lparr>rs_id := rq_id (request c)\<rparr>\<rparr>)) (\<lambda>_.
         if \<not> is_jsonrpc j then modifyP make_response_invalid_request
         else if is_notify j then modifyP make_response_invalid_request
         else ret ())))"

definition from_string_catch :: "exn \<Rightarrow> (rpc_context, unit) prog" where
  "from_string_catch e =
     modifyP (make_response_parse_error
       (case e of Json_parse_error m \<Rightarrow> m | _ \<Rightarrow> ''json-rpc: unknown parse error''))"

definition from_string :: "'e json_lib_scheme \<Rightarrow> string \<Rightarrow> rpc_context \<Rightarrow> rpc_context" where
  "from_string L name ctx =
     snd (catchP (bindP (lift (jl_parse L name)) (from_json L)) from_string_catch ctx)"

definition to_json :: "'e json_lib_scheme \<Rightarrow> rpc_context \<Rightarrow> string result" where
  "to_json L ctx = serialize_response L (response ctx)"

section \<open>What is accepted as a request\<close>

text \<open>
  The requests the backend accepts, as a function of the received value alone: a version
  member \<open>"2.0"\<close>, an id, a text as method and parameters under \<open>param\<close> or else \<open>params\<close>.
\<close>

definition request_params :: "json \<Rightarrow> json option" where
  "request_params j = (case field j ''param'' of Some p \<Rightarrow> Some p | None \<Rightarrow> field j ''params'')"

definition rpc_request :: "json \<Rightarrow> (json \<times> string \<times> json) option" where
  "rpc_request j =
     (if field j ''jsonrpc'' = Some (JStr ''2.0'')
      then (case (field j ''id'', field j ''method'', request_params j) of
              (Some i, Some (JStr m), Some p) \<Rightarrow> Some (i, m, p)
            | _ \<Rightarrow> None)
      else None)"

named_theorems message_defs \<open>definitions of the message layer\<close>

lemmas message_definitions [message_defs] =
  set_error_def make_response_parse_error_def make_response_invalid_request_def
  make_response_error_non_method_def make_response_internal_error_def new_response_error_def
  new_context_def empty_request_def empty_response_def

lemma on_request_apply: "on_request m c = (fst (m (request c)), c\<lparr>request := snd (m (request c))\<rparr>)"
  by (simp add: on_request_def split: prod.split)

lemma rpc_request_Some:
  "rpc_request j = Some (i, m, p) \<longleftrightarrow>
     field j ''jsonrpc'' = Some (JStr ''2.0'') \<and> field j ''id'' = Some i
     \<and> field j ''method'' = Some (JStr m) \<and> request_params j = Some p"
  by (auto simp: rpc_request_def split: option.splits json.splits)

context nlohmann_json
begin

lemma is_valid_version_iff:
  "is_valid_version L j = Inr True \<longleftrightarrow> field j ''jsonrpc'' = Some (JStr ''2.0'')"
  by (auto simp: is_valid_version_def contains_def bindE_eq_Inr at_returns get_string_returns
      dest: field_Some_object)

lemma is_request_value:
  "is_request L j = Inr (\<exists>m. field j ''method'' = Some (JStr m))"
  by (cases "is_object j"; cases "field j ''method''")
    (auto simp: is_request_def contains_def dest: field_Some_object elim: is_string.elims)

lemma params_lift:
  "(if contains j ''param'' then jl_at L j ''param'' else jl_at L j ''params'') = Inr p
     \<longleftrightarrow> request_params j = Some p"
  by (auto simp: contains_def request_params_def at_returns split: option.splits)

lemma parse_request_ok:
  assumes "field j ''id'' = Some i" "field j ''method'' = Some (JStr m)" "request_params j = Some p"
  shows "parse_request L j r = (Inr True, \<lparr>rq_id = i, rq_method = m, rq_params = p, \<dots> = request_message.more r\<rparr>)"
  using assms params_lift [of j p]
  by (simp add: parse_request_def is_request_value bindP_def split: if_splits)

lemma parse_request_no_method:
  assumes "field j ''id'' = Some i" "\<nexists>m. field j ''method'' = Some (JStr m)"
  shows "parse_request L j r = (Inr False, r\<lparr>rq_id := i\<rparr>)"
  using assms by (simp add: parse_request_def is_request_value bindP_def)

lemma parse_request_no_params:
  assumes "field j ''id'' = Some i" "field j ''method'' = Some (JStr m)" "request_params j = None"
  shows "\<exists>e. \<not> (\<exists>t. e = Json_parse_error t) \<and> parse_request L j r = (Inl e, r\<lparr>rq_id := i, rq_method := m\<rparr>)"
proof -
  have "field j ''param'' = None" "field j ''params'' = None"
    using assms(3) by (auto simp: request_params_def split: option.splits)
  moreover have "is_object j" using assms(1) by (rule field_Some_object)
  ultimately show ?thesis
    using assms by (simp add: parse_request_def is_request_value bindP_def contains_def)
qed

lemma parse_request_no_id:
  assumes "field j ''id'' = None"
  shows "\<exists>e. \<not> (\<exists>t. e = Json_parse_error t) \<and> parse_request L j r = (Inl e, r)"
  using assms by (cases "is_object j") (simp_all add: parse_request_def)

lemma from_json_ok:
  assumes "rpc_request j = Some (i, m, p)"
  shows "from_json L j new_context =
    (Inr (), \<lparr>request = \<lparr>rq_id = i, rq_method = m, rq_params = p\<rparr>,
             response = empty_response\<lparr>rs_id := i\<rparr>\<rparr>)"
proof -
  have f: "field j ''jsonrpc'' = Some (JStr ''2.0'')" "field j ''id'' = Some i"
    "field j ''method'' = Some (JStr m)" "request_params j = Some p"
    using assms by (auto simp: rpc_request_Some)
  have "is_valid_version L j = Inr True" using f by (simp add: is_valid_version_iff)
  then show ?thesis
    using f field_Some_object [OF f(2)]
    by (simp add: from_json_def on_request_apply parse_request_ok bindP_def is_jsonrpc_def is_notify_def
        contains_def message_defs)
qed

text \<open>Every other received value leaves an error behind, and the id of the response as it was.\<close>

lemma from_json_rejects:
  assumes "rpc_request j = None"
  shows "case from_json L j c of (Inl e, c') \<Rightarrow> \<not> (\<exists>t. e = Json_parse_error t) \<and> rs_id (response c') = rs_id (response c)
    | (Inr _, c') \<Rightarrow> rs_error (response c') \<noteq> None \<and> rs_id (response c') = rs_id (response c)"
proof (cases "is_valid_version L j")
  case (Inl e)
  then have "is_object j" "contains j ''jsonrpc''" by (auto simp: is_valid_version_def split: if_splits)
  with Inl have "\<not> (\<exists>t. e = Json_parse_error t)"
    by (auto simp: is_valid_version_def contains_def bindE_eq_Inl split: if_splits)
      (metis exn.distinct get_string_other get_string_string is_string.elims(2) old.sum.distinct(1) sum.inject(1))+
  with Inl show ?thesis by (simp add: from_json_def)
next
  case (Inr valid)
  show ?thesis
  proof (cases valid)
    case False
    then show ?thesis using Inr
      by (cases "is_object j"; cases "field j ''id''") (auto simp: from_json_def bindP_def message_defs)
  next
    case True
    with Inr have v: "is_valid_version L j = Inr True" by simp
    then have jr: "field j ''jsonrpc'' = Some (JStr ''2.0'')" by (simp add: is_valid_version_iff)
    show ?thesis
    proof (cases "field j ''id''")
      case None
      with v show ?thesis using parse_request_no_id [OF None, of "request c"]
        by (auto simp: from_json_def on_request_apply bindP_def)
    next
      case (Some i)
      consider (nm) "\<nexists>m. field j ''method'' = Some (JStr m)"
        | (np) m where "field j ''method'' = Some (JStr m)" "request_params j = None"
        using assms jr Some by (auto simp: rpc_request_def split: option.splits json.splits)
      then show ?thesis
      proof cases
        case nm
        with v Some show ?thesis
          by (simp add: from_json_def on_request_apply bindP_def parse_request_no_method message_defs)
      next
        case np
        with v show ?thesis using parse_request_no_params [OF Some np, of "request c"]
          by (auto simp: from_json_def on_request_apply bindP_def)
      qed
    qed
  qed
qed

lemma from_string_accepts:
  assumes "jl_parse L s = Inr j" "rpc_request j = Some (i, m, p)"
  shows "from_string L s new_context =
    \<lparr>request = \<lparr>rq_id = i, rq_method = m, rq_params = p\<rparr>, response = empty_response\<lparr>rs_id := i\<rparr>\<rparr>"
  using from_json_ok [OF assms(2)] by (simp add: from_string_def assms(1) catchP_def)

lemma from_string_rejects:
  assumes "\<nexists>j r. jl_parse L s = Inr j \<and> rpc_request j = Some r"
  shows "rs_error (response (from_string L s c)) \<noteq> None \<and> rs_id (response (from_string L s c)) = rs_id (response c)"
proof (cases "jl_parse L s")
  case (Inl e)
  then show ?thesis
    using parse_raises [OF Inl]
    by (auto simp: from_string_def catchP_def from_string_catch_def message_defs)
next
  case (Inr j)
  with assms have "rpc_request j = None" by (cases "rpc_request j") auto
  from from_json_rejects [OF this, of c] Inr show ?thesis
    by (auto simp: from_string_def catchP_def from_string_catch_def message_defs
        split: prod.splits sum.splits)
qed

lemma from_string_missing_params:
  assumes "jl_parse L s = Inr j" "field j ''jsonrpc'' = Some (JStr ''2.0'')" "field j ''id'' = Some i"
    and "field j ''method'' = Some (JStr m)" "request_params j = None"
  shows "from_string L s new_context =
    set_error ParseError ''json-rpc: unknown parse error''
      \<lparr>request = \<lparr>rq_id = i, rq_method = m, rq_params = JNull\<rparr>, response = empty_response\<rparr>"
proof -
  have "is_valid_version L j = Inr True" using assms(2) by (simp add: is_valid_version_iff)
  then show ?thesis
    using parse_request_no_params [OF assms(3,4,5), of empty_request] assms(1)
    by (auto simp: from_string_def from_json_def on_request_apply bindP_def catchP_def
        from_string_catch_def message_defs split: exn.splits)
qed

lemma error_json_value:
  "\<exists>m. error_json L e = Inr (JObj m)
     \<and> map_of m ''code'' = Some (JFloat (of_int (re_code e)))
     \<and> map_of m ''message'' = Some (JStr (re_message e))
     \<and> map_of m ''data'' = (if re_data e = JNull then None else Some (re_data e))"
  by (simp add: error_json_def is_null_def obj_def)

lemma response_json_value:
  "\<exists>m. response_json L msg = Inr (JObj m)
     \<and> map_of m ''jsonrpc'' = Some (JStr ''2.0'') \<and> map_of m ''id'' = Some (rs_id msg) \<and> map_of m ''method'' = None
     \<and> map_of m ''result'' = (if rs_result msg = JNull then None else Some (rs_result msg))
     \<and> (case rs_error msg of None \<Rightarrow> map_of m ''error'' = None
        | Some e \<Rightarrow> \<exists>ej. error_json L e = Inr ej \<and> map_of m ''error'' = Some ej)"
  using error_json_value [of "the (rs_error msg)"]
  by (cases "rs_error msg") (auto simp: response_json_def is_null_def)

lemma request_json_null:
  "rq_params r = JNull \<Longrightarrow> request_json L r = Inr (JObj
    [(''id'', rq_id r), (''jsonrpc'', JStr ''2.0''), (''method'', JStr (rq_method r))])"
  by (simp add: request_json_def is_null_def)

lemma request_json_value:
  assumes "rq_params r \<noteq> JNull"
  shows "request_json L r = Inr (JObj
    [(''id'', rq_id r), (''jsonrpc'', JStr ''2.0''), (''method'', JStr (rq_method r)), (''params'', rq_params r)])"
  using assms by (simp add: request_json_def is_null_def)

end

section \<open>Properties\<close>

text \<open>
  (C29) A text leaves \<open>from_string\<close> without an error exactly when it parses to a request the backend
  accepts: version member \<open>"2.0"\<close>, an id, a text as method and parameters under \<open>param\<close> or \<open>params\<close>.
  The context then holds the id, the method and the parameters, and the response the same id. Every other text,
  whatever its shape, gives a response with an error and the id null, and never an exception. A notification and a request
  without parameters, which JSON-RPC 2.0 allows, are among the texts that are refused.
\<close>

theorem from_string_accepts_iff:
  assumes "nlohmann_json L"
  shows "(rs_error (response (from_string L s new_context)) = None
      \<longleftrightarrow> (\<exists>j r. jl_parse L s = Inr j \<and> rpc_request j = Some r))
    \<and> (case jl_parse L s of
         Inr j \<Rightarrow> (case rpc_request j of
           Some (i, m, p) \<Rightarrow> from_string L s new_context =
             \<lparr>request = \<lparr>rq_id = i, rq_method = m, rq_params = p\<rparr>, response = \<lparr>rs_id = i, rs_result = JNull, rs_error = None\<rparr>\<rparr>
         | None \<Rightarrow> rs_id (response (from_string L s new_context)) = JNull)
       | Inl _ \<Rightarrow> rs_id (response (from_string L s new_context)) = JNull)"
proof (cases "\<exists>j r. jl_parse L s = Inr j \<and> rpc_request j = Some r")
  case True
  then obtain j i m p where "jl_parse L s = Inr j" "rpc_request j = Some (i, m, p)" by auto
  then show ?thesis
    by (simp add: nlohmann_json.from_string_accepts [OF assms] empty_response_def)
next
  case False
  from nlohmann_json.from_string_rejects [OF assms this, of new_context] False show ?thesis
    by (auto simp: new_context_def empty_response_def split: sum.split option.split)
qed

definition ping_json :: json where
  "ping_json = obj [(''jsonrpc'', JStr ''2.0''), (''method'', JStr ''ping''), (''params'', JObj []), (''id'', JStr ''10'')]"

text \<open>A library whose parser knows one text, for concrete runs.\<close>

definition text_lib :: "string \<Rightarrow> json \<Rightarrow> json_lib" where
  "text_lib t j = std_json (\<lambda>s. if s = t then Some j else None) (\<lambda>_ k. if k = j then t else [])"

lemma text_lib_json: "nlohmann_json (text_lib t j)"
  unfolding text_lib_def by (rule std.nlohmann_json_axioms)

lemma text_lib_parse: "jl_parse (text_lib t j) t = Inr j"
  by (simp add: text_lib_def std_json_def)

theorem from_string_accepts_iff_witness:
  "nlohmann_json (text_lib ''ping'' ping_json)
   \<and> rs_error (response (from_string (text_lib ''ping'' ping_json) ''ping'' new_context)) = None"
proof -
  have "rpc_request ping_json = Some (JStr ''10'', ''ping'', JObj [])"
    by (simp add: rpc_request_def request_params_def ping_json_def obj_def)
  then show ?thesis
    using from_string_accepts_iff [OF text_lib_json, of "''ping''" ping_json "''ping''"]
      text_lib_parse text_lib_json by blast
qed

text \<open>
  (C30) Round trip of requests: a request whose parameters are not null is printed by \<open>serialize\<close> and read back by
  \<open>from_string\<close> with the same id, method and parameters and without an error. Null parameters are left out of the text, and
  \<open>from_string\<close> then answers it with an error. Provided the library parses the text it printed for this value back to the value.
\<close>

theorem request_roundtrip:
  assumes "nlohmann_json L" and "request_json L r = Inr j" and parse_dump: "jl_parse L (dump_pretty L j) = Inr j"
  shows "\<exists>text. serialize_request L r = Inr text
    \<and> (if rq_params r = JNull then rs_error (response (from_string L text new_context)) \<noteq> None
       else request (from_string L text new_context) = r \<and> rs_error (response (from_string L text new_context)) = None)"
proof (cases "rq_params r = JNull")
  case True
  then have "rpc_request j = None"
    using assms(2) nlohmann_json.request_json_null [OF assms(1)] by (auto simp: rpc_request_def request_params_def)
  then have "rs_error (response (from_string L (dump_pretty L j) new_context)) \<noteq> None"
    using nlohmann_json.from_string_rejects [OF assms(1)] parse_dump by (metis option.distinct(1) sum.inject(2))
  with True assms(2) show ?thesis by (simp add: serialize_request_def)
next
  case False
  then have "rpc_request j = Some (rq_id r, rq_method r, rq_params r)"
    using assms(2) nlohmann_json.request_json_value [OF assms(1) False]
    by (auto simp: rpc_request_def request_params_def)
  with False parse_dump assms(2) show ?thesis
    by (simp add: nlohmann_json.from_string_accepts [OF assms(1)] empty_response_def serialize_request_def)
qed

definition ping_request :: request_message where
  "ping_request = new_request ''10'' ''ping'' (JObj [])"

theorem request_roundtrip_witness:
  "\<exists>text. serialize_request (text_lib ''ping'' ping_json) ping_request = Inr text
    \<and> request (from_string (text_lib ''ping'' ping_json) text new_context) = ping_request"
proof -
  have j: "request_json (text_lib ''ping'' ping_json) ping_request = Inr ping_json"
    by (simp add: nlohmann_json.request_json_value [OF text_lib_json] ping_request_def new_request_def
        ping_json_def obj_def)
  have "jl_parse (text_lib ''ping'' ping_json) (dump_pretty (text_lib ''ping'' ping_json) ping_json) = Inr ping_json"
    by (simp add: text_lib_def std_json_def dump_pretty_def)
  from request_roundtrip [OF text_lib_json j this] show ?thesis
    by (auto simp: ping_request_def new_request_def)
qed

text \<open>
  (C31) Round trip of responses: what \<open>serialize\<close> prints for a response whose result is not null is read back by \<open>parse\<close> with
  the same id and the same result. A response without a result, as every answer that is only an error, is not read back: \<open>parse\<close>
  raises \<^verbatim>\<open>out_of_range\<close> on its text, after it has stored the id. The member \<open>error\<close> of the text is never read. Provided the library
  parses the text it printed for this value back to the value.
\<close>

theorem response_roundtrip:
  assumes "nlohmann_json L" and "response_json L msg = Inr j" and parse_dump: "jl_parse L (dump_pretty L j) = Inr j"
  shows "\<exists>text. serialize_response L msg = Inr text \<and> jl_parse L text = Inr j
    \<and> parse_response L j r =
        (if rs_result msg = JNull then (Inl (Json_out_of_range (jl_what L 403 ''result'')), r\<lparr>rs_id := rs_id msg\<rparr>)
         else (Inr True, r\<lparr>rs_id := rs_id msg, rs_result := rs_result msg\<rparr>))"
proof -
  obtain m where m: "j = JObj m" "map_of m ''id'' = Some (rs_id msg)" "map_of m ''method'' = None"
    "map_of m ''result'' = (if rs_result msg = JNull then None else Some (rs_result msg))"
    using nlohmann_json.response_json_value [OF assms(1), of msg] assms(2) by auto
  have "parse_response L j r =
      (if rs_result msg = JNull then (Inl (Json_out_of_range (jl_what L 403 ''result'')), r\<lparr>rs_id := rs_id msg\<rparr>)
       else (Inr True, r\<lparr>rs_id := rs_id msg, rs_result := rs_result msg\<rparr>))"
    using m by (simp add: parse_response_def is_response_def contains_def nlohmann_json.json_laws [OF assms(1)] bindP_def)
  then show ?thesis using assms(2) parse_dump by (simp add: serialize_response_def)
qed

definition pong_response :: response_message where
  "pong_response = new_response ''10'' (JBool True)"

definition pong_json :: json where
  "pong_json = obj [(''jsonrpc'', JStr ''2.0''), (''result'', JBool True), (''id'', JStr ''10'')]"

theorem response_roundtrip_witness:
  "\<exists>text. serialize_response (text_lib ''pong'' pong_json) pong_response = Inr text
    \<and> parse_response (text_lib ''pong'' pong_json) pong_json empty_response = (Inr True, pong_response)"
proof -
  let ?L = "text_lib ''pong'' pong_json"
  have j: "response_json ?L pong_response = Inr pong_json"
    by (simp add: response_json_def pong_response_def new_response_def pong_json_def obj_def is_null_def
        nlohmann_json.json_laws [OF text_lib_json])
  have "jl_parse ?L (dump_pretty ?L pong_json) = Inr pong_json"
    by (simp add: text_lib_def std_json_def dump_pretty_def)
  from response_roundtrip [OF text_lib_json j this, of empty_response] show ?thesis
    by (auto simp: pong_response_def new_response_def empty_response_def)
qed

end
