(* ===== verification/Router.thy ===== *)
theory Router
  imports Db Message
begin

text \<open>
  The method table of the backend: \<^verbatim>\<open>backend/jsonrpc/router.hpp\<close>, \<^verbatim>\<open>backend/api/registry.hpp\<close> and
  \<^verbatim>\<open>regestry.cpp\<close>. A method works on the context of its request and on the database; the router
  finds it by name and turns whatever it raises into a response.
\<close>

section \<open>Methods\<close>

type_synonym 'w call = "rpc_context \<times> 'w"
type_synonym 'w rpc_method = "db \<Rightarrow> ('w call, unit) prog"

definition on_ctx :: "(rpc_context \<Rightarrow> rpc_context) \<Rightarrow> ('w call, unit) prog" where
  "on_ctx f = modifyP (\<lambda>(c, w). (f c, w))"

definition ask_ctx :: "(rpc_context \<Rightarrow> 'a) \<Rightarrow> ('w call, 'a) prog" where
  "ask_ctx f = getP (\<lambda>(c, w). f c)"

definition on_world :: "('w, 'a) prog \<Rightarrow> ('w call, 'a) prog" where
  "on_world m = (\<lambda>(c, w). case m w of (r, w') \<Rightarrow> (r, (c, w')))"

lemma on_ctx_apply [simp]: "on_ctx f (c, w) = (Inr (), (f c, w))"
  by (simp add: on_ctx_def)

lemma ask_ctx_apply [simp]: "ask_ctx f (c, w) = (Inr (f c), (c, w))"
  by (simp add: ask_ctx_def)

lemma on_world_apply: "on_world m (c, w) = (fst (m w), (c, snd (m w)))"
  by (simp add: on_world_def split: prod.split)

section \<open>The method table\<close>

text \<open>
  A \<^verbatim>\<open>flat_map\<close>: a vector of entries sorted by key, in which \<^verbatim>\<open>emplace\<close> leaves an existing entry
  alone.
\<close>

fun flat_emplace :: "string \<Rightarrow> 'v \<Rightarrow> (string \<times> 'v) list \<Rightarrow> (string \<times> 'v) list" where
  "flat_emplace k v [] = [(k, v)]"
| "flat_emplace k v ((k', v') # m) =
     (if k = k' then (k', v') # m
      else if k < k' then (k, v) # (k', v') # m
      else (k', v') # flat_emplace k v m)"

record 'w rpc_router =
  rt_db :: db
  rt_version :: string
  rt_target :: string
  rt_path :: string
  rt_storage :: "(string \<times> 'w rpc_method) list"

definition router_create :: "db \<Rightarrow> string \<Rightarrow> string \<Rightarrow> 'w rpc_router" where
  "router_create d version target =
     \<lparr>rt_db = d, rt_version = version, rt_target = target,
      rt_path = ''/'' @ version @ ''/'' @ target, rt_storage = []\<rparr>"

definition router_add :: "string \<Rightarrow> 'w rpc_method \<Rightarrow> 'w rpc_router \<Rightarrow> 'w rpc_router" where
  "router_add name f r = r\<lparr>rt_storage := flat_emplace name f (rt_storage r)\<rparr>"

definition router_keys :: "'w rpc_router \<Rightarrow> string set" where
  "router_keys r = fst ` set (rt_storage r)"

text \<open>
  What a raising method leaves in the response: the text of a JSON exception as a parse error,
  an empty array as result for anything else, the errors of the database included.
\<close>

fun apply_catch :: "exn \<Rightarrow> rpc_context \<Rightarrow> rpc_context" where
  "apply_catch (Json_parse_error m) ctx = make_response_parse_error m ctx"
| "apply_catch (Json_invalid_iterator m) ctx = make_response_parse_error m ctx"
| "apply_catch (Json_type_error m) ctx = make_response_parse_error m ctx"
| "apply_catch (Json_out_of_range m) ctx = make_response_parse_error m ctx"
| "apply_catch (Json_other_error m) ctx = make_response_parse_error m ctx"
| "apply_catch _ ctx = set_result (JArr []) ctx"

definition router_apply :: "'w rpc_router \<Rightarrow> string \<Rightarrow> 'w call \<Rightarrow> bool \<times> 'w call" where
  "router_apply r name s =
     (case map_of (rt_storage r) name of
        None \<Rightarrow> (False, s)
      | Some f \<Rightarrow>
          (case f (rt_db r) s of
             (Inr _, s') \<Rightarrow> (True, s')
           | (Inl e, (ctx', w')) \<Rightarrow> (False, (apply_catch e ctx', w'))))"

section \<open>The registry\<close>

record 'w registry =
  rg_params :: json
  rg_storage :: "(string \<times> 'w rpc_method) list"

definition empty_registry :: "'w registry" where
  "empty_registry = \<lparr>rg_params = JNull, rg_storage = []\<rparr>"

definition registry_add :: "string \<Rightarrow> 'w rpc_method \<Rightarrow> string \<Rightarrow> 'w registry \<Rightarrow> 'w registry" where
  "registry_add name f params g =
     g\<lparr>rg_storage := flat_emplace name f (rg_storage g),
       rg_params := JObj (if map_of (members (rg_params g)) name = None
                          then put name (JStr params) (members (rg_params g))
                          else members (rg_params g))\<rparr>"

definition get_help :: "'w registry \<Rightarrow> json" where
  "get_help g = rg_params g"

definition set_router :: "'w registry \<Rightarrow> 'w rpc_router \<Rightarrow> 'w rpc_router" where
  "set_router g r = foldl (\<lambda>r nm. router_add (fst nm) (snd nm) r) r (rg_storage g)"

section \<open>Lemmas\<close>

lemma map_of_flat_emplace:
  "map_of (flat_emplace k v m) k' = (if map_of m k' \<noteq> None then map_of m k' else if k' = k then Some v else None)"
  if "sorted_wrt (<) (map fst m)"
  using that
proof (induction k v m rule: flat_emplace.induct)
  case (1 k v)
  then show ?case by simp
next
  case (2 k v k2 v2 m)
  have "map_of m k = None" if "k < k2"
    using 2(2) that by (auto simp: map_of_eq_None_iff)
  with 2 show ?case by auto
qed

lemma flat_emplace_keys: "fst ` set (flat_emplace k v m) = insert k (fst ` set m)"
  by (induction k v m rule: flat_emplace.induct) auto

lemma flat_emplace_sorted:
  "sorted_wrt (<) (map fst m) \<Longrightarrow> sorted_wrt (<) (map fst (flat_emplace k v m))"
proof (induction k v m rule: flat_emplace.induct)
  case (1 k v)
  then show ?case by simp
next
  case (2 k v k' v' m)
  consider (eq) "k = k'" | (lt) "k < k'" | (gt) "k' < k" by fastforce
  then show ?case
  proof cases
    case gt
    then have "sorted_wrt (<) (map fst (flat_emplace k v m))" using 2 by auto
    moreover have "\<forall>x \<in> fst ` set (flat_emplace k v m). k' < x"
      using "2.prems" gt by (auto simp: flat_emplace_keys)
    ultimately show ?thesis using gt by auto
  qed (use "2.prems" in auto)
qed

lemma flat_emplace_last: "\<forall>x \<in> fst ` set m. x < k \<Longrightarrow> flat_emplace k v m = m @ [(k, v)]"
  by (induction k v m rule: flat_emplace.induct) auto

text \<open>Copying a sorted table entry by entry into an empty one gives the table itself.\<close>

lemma emplace_all: 
  "sorted_wrt (<) (map fst (acc @ m)) \<Longrightarrow>
   foldl (\<lambda>s nm. flat_emplace (fst nm) (snd nm) s) acc m = acc @ m"
proof (induction m arbitrary: acc)
  case Nil
  then show ?case by simp
next
  case (Cons nm m)
  then have "flat_emplace (fst nm) (snd nm) acc = acc @ [nm]"
    by (subst flat_emplace_last) (auto simp: sorted_wrt_append)
  with Cons show ?case by simp
qed

lemma set_router_storage:
  "rt_storage (set_router g r) = foldl (\<lambda>s nm. flat_emplace (fst nm) (snd nm) s) (rt_storage r) (rg_storage g)"
proof -
  have "rt_storage (foldl (\<lambda>r nm. router_add (fst nm) (snd nm) r) r xs)
      = foldl (\<lambda>s nm. flat_emplace (fst nm) (snd nm) s) (rt_storage r) xs" for xs
    by (induction xs arbitrary: r) (simp_all add: router_add_def)
  then show ?thesis by (simp add: set_router_def)
qed

text \<open>The router never raises, and a name it does not know changes nothing.\<close>

lemma router_apply_unknown: "map_of (rt_storage r) name = None \<Longrightarrow> router_apply r name s = (False, s)"
  by (simp add: router_apply_def)

lemma router_apply_known:
  "map_of (rt_storage r) name = Some f \<Longrightarrow> f (rt_db r) s = (Inr u, s') \<Longrightarrow> router_apply r name s = (True, s')"
  by (simp add: router_apply_def)

lemma apply_catch_visible:
  "rs_error (response (apply_catch e ctx)) \<noteq> None \<or> rs_result (response (apply_catch e ctx)) = JArr []"
  by (cases e) (auto simp: message_defs set_result_def)

end
