(* ===== verification/Api.thy ===== *)
theory Api
  imports Router
begin

text \<open>
  The parameters and the methods of the API: \<^verbatim>\<open>backend/api/params.hpp\<close> and one definition per
  \<^verbatim>\<open>backend/api/*.cpp\<close>, with the registration each file makes. A method reads its parameters from the
  request of the context, answers a wrong one by an error in the response and a return, and
  otherwise stores what the database returns as the result.
\<close>

section \<open>Parameters\<close>

definition params :: "rpc_context \<Rightarrow> json" where
  "params ctx = rq_params (request ctx)"

definition has_param :: "string \<Rightarrow> ('w call, bool) prog" where
  "has_param p = ask_ctx (\<lambda>c. count_key (params c) p \<noteq> 0)"

definition param_at :: "('w, 'e) env_scheme \<Rightarrow> string \<Rightarrow> ('w call, json) prog" where
  "param_at E p = bindP (ask_ctx params) (\<lambda>j. lift (jl_at E j p))"

definition param_error :: "('w, 'e) env_scheme \<Rightarrow> string \<Rightarrow> ('w call, unit) prog" where
  "param_error E p = on_ctx (make_response_parse_error (ErrorFormat E ''param %s has not found'' p))"

definition param_check :: "('w, 'e) env_scheme \<Rightarrow> string \<Rightarrow> ('w call, bool) prog" where
  "param_check E p =
     bindP (has_param p) (\<lambda>has.
     if \<not> has then bindP (param_error E p) (\<lambda>_. ret False) else ret True)"

definition param_u64 :: "('w, 'e) env_scheme \<Rightarrow> string \<Rightarrow> ('w call, uint64) prog" where
  "param_u64 E p = bindP (param_at E p) (\<lambda>j. lift (jl_get_u64 E j))"

definition param_string :: "('w, 'e) env_scheme \<Rightarrow> string \<Rightarrow> ('w call, string) prog" where
  "param_string E p = bindP (param_at E p) (\<lambda>j. lift (jl_get_string E j))"

definition check_limit :: "('w, 'e) env_scheme \<Rightarrow> ('w call, bool) prog" where
  "check_limit E =
     bindP (param_check E ''first'') (\<lambda>ok. if \<not> ok then ret False else
     bindP (param_check E ''limit'') (\<lambda>ok. if \<not> ok then ret False else
     bindP (param_u64 E ''limit'') (\<lambda>limit.
     if 1000 < limit
     then bindP (on_ctx (make_response_parse_error ''limit params must be less then 1000'')) (\<lambda>_. ret False)
     else ret True)))"

text \<open>The value \<open>-1\<close> of \<open>uint256\<close> stands for a failure.\<close>

definition get_block_id :: "('w, 'e) env_scheme \<Rightarrow> string \<Rightarrow> ('w call, uint256) prog" where
  "get_block_id E p =
     bindP (param_check E p) (\<lambda>ok. if \<not> ok then ret (-1) else
     bindP (param_at E p) (\<lambda>param.
     if is_number param then bindP (lift (jl_get_u64 E param)) (\<lambda>n. ret (ucast n))
     else bindP (lift (jl_get_string E param)) (\<lambda>s.
       case StringToUInt256 E s of
         None \<Rightarrow> bindP (on_ctx (make_response_parse_error ''block couldn't be converted to uint256'')) (\<lambda>_. ret (-1))
       | Some b \<Rightarrow> ret b)))"

definition get_transaction_id :: "('w, 'e) env_scheme \<Rightarrow> string \<Rightarrow> ('w call, uint64) prog" where
  "get_transaction_id E p =
     bindP (param_at E p) (\<lambda>param.
     if is_number param then lift (jl_get_u64 E param)
     else lift (bindE (jl_get_string E param) stoull))"

section \<open>Results\<close>

definition result :: "json \<Rightarrow> ('w call, unit) prog" where
  "result j = on_ctx (set_result j)"

text \<open>\<^verbatim>\<open>ctx.response.result[k] = v\<close>\<close>

definition result_at :: "('w, 'e) env_scheme \<Rightarrow> string \<Rightarrow> json \<Rightarrow> ('w call, unit) prog" where
  "result_at E k v =
     bindP (ask_ctx (\<lambda>c. rs_result (response c))) (\<lambda>r.
     bindP (lift (jl_set E r k v)) result)"

definition unsigned_json :: "nat \<Rightarrow> json" where
  "unsigned_json n = JUint (of_nat n)"

section \<open>Methods\<close>

definition api_ping :: "'w rpc_method" where
  "api_ping d = result (JBool True)"

definition api_help :: "json \<Rightarrow> 'w rpc_method" where
  "api_help registered d = result registered"

definition api_get_version :: "('w, 'e) env_scheme \<Rightarrow> 'w rpc_method" where
  "api_get_version E d = bindP (on_world (get_version E d)) (\<lambda>v. result (JUint (ucast v)))"

definition api_get_block :: "('w, 'e) env_scheme \<Rightarrow> 'w rpc_method" where
  "api_get_block E d =
     bindP (get_block_id E ''id'') (\<lambda>block_id. if block_id = -1 then ret () else
     bindP (on_world (get_block_by_id E d block_id)) result)"

definition api_get_block_history :: "('w, 'e) env_scheme \<Rightarrow> 'w rpc_method" where
  "api_get_block_history E d =
     bindP (check_limit E) (\<lambda>ok. if \<not> ok then ret () else
     bindP (param_u64 E ''limit'') (\<lambda>limit.
     bindP (get_block_id E ''first'') (\<lambda>block_id. if block_id = -1 then ret () else
     bindP (on_world (get_block_history E d (ucast block_id) limit)) result)))"

definition api_get_block_history_state :: "('w, 'e) env_scheme \<Rightarrow> 'w rpc_method" where
  "api_get_block_history_state E d =
     bindP (on_world (get_block_history_state E d)) (\<lambda>state.
     bindP (lift (bindE (jl_index E state ''block-id'') (jl_get_u64 E))) (\<lambda>n.
     bindP (result_at E ''count'' (JUint (n + 1))) (\<lambda>_.
     bindP (lift (jl_index E state ''timestamp'')) (\<lambda>t.
     bindP (result_at E ''timestamp'' t) (\<lambda>_.
     result_at E ''first'' (JInt 0))))))"

definition api_get_blockchain_info :: "('w, 'e) env_scheme \<Rightarrow> 'w rpc_method" where
  "api_get_blockchain_info E d = bindP (on_world (get_blockchain_info E d)) result"

text \<open>An assignment to \<^verbatim>\<open>result["nodes"][k]\<close> writes the inner object and stores it back.\<close>

definition result_nodes :: "('w, 'e) env_scheme \<Rightarrow> string \<Rightarrow> json \<Rightarrow> ('w call, unit) prog" where
  "result_nodes E k v =
     bindP (ask_ctx (\<lambda>c. rs_result (response c))) (\<lambda>r.
     bindP (lift (jl_index E r ''nodes'')) (\<lambda>nodes.
     bindP (lift (jl_set E nodes k v)) (\<lambda>nodes'.
     result_at E ''nodes'' nodes')))"

definition api_get_network_state :: "('w, 'e) env_scheme \<Rightarrow> 'w rpc_method" where
  "api_get_network_state E d =
     bindP (on_world (get_network_state E d)) (\<lambda>state.
     bindP (lift (jl_index E state ''nodes'')) (\<lambda>nodes.
     bindP (result_nodes E ''count'' (unsigned_json (json_size nodes))) (\<lambda>_.
     result_nodes E ''first'' (JInt 0))))"

definition api_get_nodes :: "('w, 'e) env_scheme \<Rightarrow> 'w rpc_method" where
  "api_get_nodes E d =
     bindP (check_limit E) (\<lambda>ok. if \<not> ok then ret () else
     bindP (param_u64 E ''first'') (\<lambda>first_id.
     bindP (param_u64 E ''limit'') (\<lambda>limit.
     bindP (on_world (get_nodes E d first_id limit)) result)))"

definition api_get_wallet_node :: "('w, 'e) env_scheme \<Rightarrow> 'w rpc_method" where
  "api_get_wallet_node E d =
     bindP (param_check E ''public-key'') (\<lambda>ok. if \<not> ok then ret () else
     bindP (param_string E ''public-key'') (\<lambda>public_key.
     bindP (on_world (get_wallet_node E d public_key)) result))"

definition api_get_wallet_history_state :: "('w, 'e) env_scheme \<Rightarrow> 'w rpc_method" where
  "api_get_wallet_history_state E d =
     bindP (param_check E ''public-key'') (\<lambda>ok. if \<not> ok then ret () else
     bindP (param_string E ''public-key'') (\<lambda>public_key.
     bindP (on_world (get_wallet_history_state E d public_key)) (\<lambda>(b, t).
     bindP (lift (assign E JNull [(''count'', JUint b), (''first'', JInt 0)])) (\<lambda>blocks.
     bindP (lift (assign E JNull [(''count'', JUint t), (''first'', JInt 0)])) (\<lambda>trx.
     bindP (result_at E ''block'' blocks) (\<lambda>_.
     result_at E ''transaction'' trx))))))"

definition api_get_wallet_history_blocks :: "('w, 'e) env_scheme \<Rightarrow> 'w rpc_method" where
  "api_get_wallet_history_blocks E d =
     bindP (param_check E ''public-key'') (\<lambda>ok. if \<not> ok then ret () else
     bindP (check_limit E) (\<lambda>ok. if \<not> ok then ret () else
     bindP (param_string E ''public-key'') (\<lambda>public_key.
     bindP (param_u64 E ''limit'') (\<lambda>limit.
     bindP (get_block_id E ''first'') (\<lambda>block_id. if block_id = -1 then ret () else
     bindP (on_world (get_wallet_history_blocks E d public_key (ucast block_id) limit)) result)))))"

definition api_get_wallet_history_transactions :: "('w, 'e) env_scheme \<Rightarrow> 'w rpc_method" where
  "api_get_wallet_history_transactions E d =
     bindP (param_check E ''public-key'') (\<lambda>ok. if \<not> ok then ret () else
     bindP (check_limit E) (\<lambda>ok. if \<not> ok then ret () else
     bindP (param_string E ''public-key'') (\<lambda>public_key.
     bindP (param_u64 E ''limit'') (\<lambda>limit.
     bindP (get_transaction_id E ''first'') (\<lambda>first_id.
     bindP (on_world (get_wallet_history_transactions E d public_key first_id limit)) result)))))"

definition api_get_transaction_history_state :: "('w, 'e) env_scheme \<Rightarrow> 'w rpc_method" where
  "api_get_transaction_history_state E d =
     bindP (on_world (get_transaction_history_state E d)) (\<lambda>state.
     bindP (result_at E ''count'' (JUint state)) (\<lambda>_.
     result_at E ''first'' (JInt 0)))"

definition api_get_transaction_history :: "('w, 'e) env_scheme \<Rightarrow> 'w rpc_method" where
  "api_get_transaction_history E d =
     bindP (check_limit E) (\<lambda>ok. if \<not> ok then ret () else
     bindP (get_transaction_id E ''first'') (\<lambda>first_id.
     bindP (param_u64 E ''limit'') (\<lambda>limit.
     bindP (on_world (get_transaction_history E d first_id limit)) result)))"

section \<open>The transaction query\<close>

definition block_id_text :: "('w, 'e) env_scheme \<Rightarrow> ('w call, string option) prog" where
  "block_id_text E =
     bindP (has_param ''block-id'') (\<lambda>has. if \<not> has then ret None else
     bindP (param_at E ''block-id'') (\<lambda>param.
     if is_number param then bindP (lift (jl_get_u64 E param)) (\<lambda>n. ret (Some (to_string (unat n))))
     else bindP (lift (jl_get_string E param)) (\<lambda>s. ret (Some s))))"

text \<open>The key of the wanted transaction, \<open>None\<close> where the method has answered with an error.\<close>

definition transaction_key :: "('w, 'e) env_scheme \<Rightarrow> json \<Rightarrow> ('w call, string option) prog" where
  "transaction_key E param =
     (if is_number param
      then
        bindP (param_check E ''public-key'') (\<lambda>ok. if \<not> ok then ret None else
        bindP (param_string E ''public-key'') (\<lambda>public_key.
        bindP (block_id_text E) (\<lambda>block_id.
        case block_id of
          None \<Rightarrow> bindP (param_error E ''block-id'') (\<lambda>_. ret None)
        | Some b \<Rightarrow> bindP (lift (jl_get_u64 E param)) (\<lambda>n.
            ret (Some (public_key @ '':'' @ b @ '':'' @ to_string (unat n)))))))
      else
        bindP (has_param ''public-key'') (\<lambda>has.
        if has
        then
          bindP (param_string E ''public-key'') (\<lambda>public_key.
          bindP (block_id_text E) (\<lambda>block_id.
          bindP (lift (jl_get_string E param)) (\<lambda>s.
          ret (Some (public_key @ '':'' @ (case block_id of Some b \<Rightarrow> b @ '':'' | None \<Rightarrow> []) @ s)))))
        else bindP (lift (jl_get_string E param)) (\<lambda>s. ret (Some s))))"

definition api_get_transaction :: "('w, 'e) env_scheme \<Rightarrow> 'w rpc_method" where
  "api_get_transaction E d =
     bindP (has_param ''digest'') (\<lambda>by_digest.
     if by_digest
     then bindP (param_string E ''digest'') (\<lambda>digest.
          bindP (on_world (get_transaction_by_digest E d digest)) result)
     else
       bindP (param_check E ''id'') (\<lambda>ok. if \<not> ok then ret () else
       bindP (param_at E ''id'') (\<lambda>param.
       bindP (transaction_key E param) (\<lambda>key.
       case key of None \<Rightarrow> ret ()
       | Some i \<Rightarrow> bindP (on_world (get_transaction_by_id E d i)) result))))"

section \<open>Statistics\<close>

text \<open>\<^verbatim>\<open>get<unsigned short>()\<close>, which unlike \<^verbatim>\<open>get<uint64_t>()\<close> accepts a truth value.\<close>

definition param_short :: "('w, 'e) env_scheme \<Rightarrow> string \<Rightarrow> ('w call, 16 word) prog" where
  "param_short E p =
     bindP (param_at E p) (\<lambda>j.
     case j of JBool b \<Rightarrow> ret (of_bool b) | _ \<Rightarrow> bindP (lift (jl_get_u64 E j)) (\<lambda>n. ret (ucast n)))"

definition api_get_statistics :: "('w, 'e) env_scheme \<Rightarrow> 'w rpc_method" where
  "api_get_statistics E d =
     bindP (param_check E ''name'') (\<lambda>ok. if \<not> ok then ret () else
     bindP (param_string E ''name'') (\<lambda>name.
     if name = ''turnover-24''
     then bindP (on_world (get_data E (cursor_get ''turnovers-24'' None
            (table_cursor True (open_table d t_turnovers))))) result
     else if name = ''transaction-turnover''
     then bindP (on_world (get_data E (table_cursor True (open_table d t_transaction_turnover)))) result
     else if name = ''wallets-top''
     then
       bindP (param_check E ''asset-code'') (\<lambda>ok. if \<not> ok then ret () else
       bindP (param_check E ''limit'') (\<lambda>ok. if \<not> ok then ret () else
       bindP (param_short E ''asset-code'') (\<lambda>code.
       bindP (param_u64 E ''limit'') (\<lambda>limit.
       let asset = TokenFromCode E code in
       if asset \<noteq> asset_code_XDR E \<and> asset \<noteq> asset_code_MILE E
       then on_ctx (make_response_parse_error ''token not found'')
       else bindP (on_world (get_data E
              (cursor_filter_field ''asset-code'' (JUint (ucast asset))
                (cursor_between 0 limit ''position''
                  (table_cursor True (open_table d ''wallets_top'')))))) result))))
     else on_ctx (make_response_parse_error ''statistics not found'')))"

definition api_get_statistics_list :: "('w, 'e) env_scheme \<Rightarrow> 'w rpc_method" where
  "api_get_statistics_list E d =
     bindP (result_at E ''turnover-24'' (JObj [(''params'', JObj [])])) (\<lambda>_.
     bindP (result_at E ''transaction-turnover'' (JObj [(''params'', JObj [])])) (\<lambda>_.
     result_at E ''wallets-top'' (JObj [(''params'', JObj [(''asset-code'', JUint 0), (''limit'', JUint 10)])])))"

section \<open>Registration\<close>

text \<open>
  The registrations of the files, in the order of their names; the table does not depend on the
  order, as the names are distinct.
\<close>

definition api_methods :: "('w, 'e) env_scheme \<Rightarrow> json \<Rightarrow> (string \<times> 'w rpc_method \<times> string) list" where
  "api_methods E registered =
     [(''get-block'', api_get_block E, ''{id:0} or {id:0}''),
      (''get-block-history'', api_get_block_history E, ''{first:0, limit:42}''),
      (''get-block-history-state'', api_get_block_history_state E, ''{}''),
      (''get-blockchain-info'', api_get_blockchain_info E, ''{}''),
      (''get-network-state'', api_get_network_state E, ''{}''),
      (''get-nodes'', api_get_nodes E, ''{first: 0, limit:42}''),
      (''get-statistics'', api_get_statistics E, ''{name:<method-name>}''),
      (''get-statistics-list'', api_get_statistics_list E, ''{}''),
      (''get-transaction'', api_get_transaction E,
        ''{'digest': <digest>} or {id: '<public-key>:<block-id>:<transaction-id>'} or {id:<transaction-id>, block-id:<block-id>, public-key: '<public-key>'}  or {id:'<block-id>:<transaction-id>', public-key: '<public-key>'}''),
      (''get-transaction-history'', api_get_transaction_history E, ''{first:0, limit:42}''),
      (''get-transaction-history-state'', api_get_transaction_history_state E, ''{}''),
      (''get-version'', api_get_version E, ''{}''),
      (''get-wallet-history-blocks'', api_get_wallet_history_blocks E,
        ''{public-key:'xxxxx0000xxxxx', first:0, limit:42}''),
      (''get-wallet-history-state'', api_get_wallet_history_state E, ''{public-key:'xxxxx0000xxxxx'}''),
      (''get-wallet-history-transactions'', api_get_wallet_history_transactions E,
        ''{public-key:'xxxxx0000xxxxx', first:0, limit:42}''),
      (''get-wallet-node'', api_get_wallet_node E, ''{public-key: 'xxxxxx'}''),
      (''help'', api_help registered, ''{}''),
      (''ping'', api_ping, ''{}'')]"

definition register_all :: "(string \<times> 'w rpc_method \<times> string) list \<Rightarrow> 'w registry" where
  "register_all ms = foldl (\<lambda>g (name, f, p). registry_add name f p g) empty_registry ms"

text \<open>What \<open>help\<close> prints is the object of names and parameter hints of the registry itself.\<close>

definition help_json :: "('w, 'e) env_scheme \<Rightarrow> json" where
  "help_json E = get_help (register_all (api_methods E JNull))"

definition api_registry :: "('w, 'e) env_scheme \<Rightarrow> 'w registry" where
  "api_registry E = register_all (api_methods E (help_json E))"

definition api_router :: "('w, 'e) env_scheme \<Rightarrow> db \<Rightarrow> 'w rpc_router" where
  "api_router E d = set_router (api_registry E) (router_create d ''v1'' ''api'')"

section \<open>The table of methods\<close>

text \<open>
  Registering a list of methods gives a table with the names of the list, in which the first
  registration of a name counts; the help object has the same names.
\<close>

abbreviation method_entries :: "(string \<times> 'w rpc_method \<times> string) list \<Rightarrow> (string \<times> 'w rpc_method) list" where
  "method_entries ms \<equiv> map (\<lambda>(n, f, p). (n, f)) ms"

lemma registry_fold_storage:
  "rg_storage (foldl (\<lambda>g (name, f, p). registry_add name f p g) g0 ms)
    = foldl (\<lambda>s (n, f). flat_emplace n f s) (rg_storage g0) (method_entries ms)"
  by (induction ms arbitrary: g0) (auto simp: registry_add_def)

lemma emplace_fold_sorted:
  "sorted_wrt (<) (map fst s) \<Longrightarrow> sorted_wrt (<) (map fst (foldl (\<lambda>s (n, f). flat_emplace n f s) s xs))"
  by (induction xs arbitrary: s) (auto simp: flat_emplace_sorted)

lemma emplace_fold_lookup:
  "sorted_wrt (<) (map fst s) \<Longrightarrow>
    map_of (foldl (\<lambda>s (n, f). flat_emplace n f s) s xs) k
    = (case map_of s k of Some v \<Rightarrow> Some v | None \<Rightarrow> map_of xs k)"
  by (induction xs arbitrary: s)
    (auto simp: flat_emplace_sorted map_of_flat_emplace split: option.splits)

lemma registry_fold_params:
  "fst ` set (members (rg_params (foldl (\<lambda>g (name, f, p). registry_add name f p g) g0 ms)))
    = fst ` set (members (rg_params g0)) \<union> fst ` set ms"
proof (induction ms arbitrary: g0)
  case (Cons m ms)
  obtain n f p where "m = (n, f, p)" by (cases m)
  then show ?case
    using Cons by (auto simp: registry_add_def set_put_keys map_of_eq_None_iff image_iff)
qed simp

lemma registry_sorted: "sorted_wrt (<) (map fst (rg_storage (register_all ms)))"
  by (simp add: register_all_def registry_fold_storage emplace_fold_sorted empty_registry_def)

lemma registry_lookup: "map_of (rg_storage (register_all ms)) = map_of (method_entries ms)"
  by (rule ext) (simp add: register_all_def registry_fold_storage emplace_fold_lookup empty_registry_def)

lemma api_registry_sorted: "sorted_wrt (<) (map fst (rg_storage (api_registry E)))"
  by (simp add: api_registry_def registry_sorted)

lemma api_router_storage: "rt_storage (api_router E d) = rg_storage (api_registry E)"
  using emplace_all [of "[]" "rg_storage (api_registry E)"] api_registry_sorted [of E]
  by (simp add: api_router_def set_router_storage router_create_def)

lemma set_router_db: "rt_db (set_router g r) = rt_db r"
  and set_router_path: "rt_path (set_router g r) = rt_path r"
proof -
  have "rt_db (foldl (\<lambda>r nm. router_add (fst nm) (snd nm) r) r xs) = rt_db r
      \<and> rt_path (foldl (\<lambda>r nm. router_add (fst nm) (snd nm) r) r xs) = rt_path r" for xs
    by (induction xs arbitrary: r) (simp_all add: router_add_def)
  then show "rt_db (set_router g r) = rt_db r" and "rt_path (set_router g r) = rt_path r"
    by (simp_all add: set_router_def)
qed

lemma api_router_db: "rt_db (api_router E d) = d"
  and api_router_path: "rt_path (api_router E d) = ''/v1/api''"
  by (simp_all add: api_router_def set_router_db set_router_path router_create_def)

lemma api_router_lookup:
  "map_of (rt_storage (api_router E d)) = map_of (method_entries (api_methods E (help_json E)))"
  by (simp add: api_router_storage api_registry_def registry_lookup)

definition api_names :: "string list" where
  "api_names =
     [''get-block'', ''get-block-history'', ''get-block-history-state'', ''get-blockchain-info'',
      ''get-network-state'', ''get-nodes'', ''get-statistics'', ''get-statistics-list'',
      ''get-transaction'', ''get-transaction-history'', ''get-transaction-history-state'',
      ''get-version'', ''get-wallet-history-blocks'', ''get-wallet-history-state'',
      ''get-wallet-history-transactions'', ''get-wallet-node'', ''help'', ''ping'']"

lemma api_names_distinct: "distinct api_names"
  by (simp add: api_names_def)

lemma api_methods_names: "map fst (api_methods E j) = api_names"
  by (simp add: api_methods_def api_names_def)

lemma api_router_keys: "router_keys (api_router E d) = set api_names"
proof -
  have "router_keys (api_router E d) = dom (map_of (rt_storage (api_router E d)))"
    by (simp add: router_keys_def dom_map_of_conv_image_fst)
  also have "\<dots> = fst ` set (api_methods E (help_json E))"
    by (simp add: api_router_lookup dom_map_of_conv_image_fst image_image case_prod_beta)
  finally show ?thesis by (simp add: api_methods_names flip: set_map)
qed

lemma help_json_keys: "fst ` set (members (help_json E)) = set api_names"
proof -
  have "fst ` set (members (help_json E)) = fst ` set (api_methods E JNull)"
    by (simp add: help_json_def get_help_def register_all_def registry_fold_params empty_registry_def)
  then show ?thesis by (simp add: api_methods_names flip: set_map)
qed

section \<open>What the methods leave of a response\<close>

text \<open>
  A method changes the response only by setting the result or an error: what does not depend on the result, and holds whenever
  there is an error, stays.
\<close>

definition response_stable :: "(response_message \<Rightarrow> bool) \<Rightarrow> bool" where
  "response_stable P \<longleftrightarrow> (\<forall>r j. P r \<longrightarrow> P (r\<lparr>rs_result := j\<rparr>)) \<and> (\<forall>r e. P r \<longrightarrow> P (r\<lparr>rs_error := Some e\<rparr>))"

definition on_response :: "(response_message \<Rightarrow> bool) \<Rightarrow> 'w call \<Rightarrow> bool" where
  "on_response P s \<longleftrightarrow> P (response (fst s))"

lemma response_stable_id: "response_stable (\<lambda>r. rs_id r = i)"
  and response_stable_error: "response_stable (\<lambda>r. rs_error r \<noteq> None)"
  by (simp_all add: response_stable_def)

lemma stable_set: "response_stable P \<Longrightarrow> P (response c) \<Longrightarrow> P (response (set_result j c))"
  "response_stable P \<Longrightarrow> P (response c) \<Longrightarrow> P (response (set_error e m c))"
  by (simp_all add: response_stable_def set_result_def set_error_def)

lemma stable_on_ctx:
  "response_stable P \<Longrightarrow> invP (on_response P) (on_ctx (make_response_parse_error m))"
  "response_stable P \<Longrightarrow> invP (on_response P) (result j)"
  by (auto simp: invP_def on_response_def result_def on_ctx_def make_response_parse_error_def stable_set)

lemma stable_reads:
  "invP (on_response P) (ask_ctx h)" "invP (on_response P) (on_world m)"
  by (auto simp: invP_def on_response_def ask_ctx_def on_world_def split: prod.split)

lemma stable_json:
  "invP P (k0 :: ('s, 'a) prog) \<Longrightarrow> (\<And>b. invP P (k1 b)) \<Longrightarrow> invP P (case j of JBool b \<Rightarrow> k1 b | _ \<Rightarrow> k0)"
  by (cases j) simp_all

lemmas stable_intros = inv_intros stable_on_ctx stable_reads stable_json

lemmas api_method_defs = api_ping_def api_help_def api_get_version_def api_get_block_def api_get_block_history_def
  api_get_block_history_state_def api_get_blockchain_info_def api_get_network_state_def api_get_nodes_def
  api_get_wallet_node_def api_get_wallet_history_state_def api_get_wallet_history_blocks_def
  api_get_wallet_history_transactions_def api_get_transaction_history_state_def api_get_transaction_history_def
  api_get_transaction_def api_get_statistics_def api_get_statistics_list_def

lemmas param_defs = has_param_def param_at_def param_error_def param_check_def param_u64_def param_string_def param_short_def
  check_limit_def get_block_id_def get_transaction_id_def result_at_def result_nodes_def block_id_text_def transaction_key_def

lemma api_method_stable:
  assumes "response_stable P" and "map_of (method_entries (api_methods E h)) m = Some f"
  shows "invP (on_response P) (f d)"
proof -
  have "f \<in> (fst \<circ> snd) ` set (api_methods E h)"
    using map_of_SomeD [OF assms(2)] by force
  then consider "f = api_get_block E" | "f = api_get_block_history E" | "f = api_get_block_history_state E"
    | "f = api_get_blockchain_info E" | "f = api_get_network_state E" | "f = api_get_nodes E" | "f = api_get_statistics E"
    | "f = api_get_statistics_list E" | "f = api_get_transaction E" | "f = api_get_transaction_history E"
    | "f = api_get_transaction_history_state E" | "f = api_get_version E" | "f = api_get_wallet_history_blocks E"
    | "f = api_get_wallet_history_state E" | "f = api_get_wallet_history_transactions E" | "f = api_get_wallet_node E"
    | "f = api_help h" | "f = api_ping"
    unfolding api_methods_def by auto
  then show ?thesis
    by cases (simp only: api_method_defs param_defs, intro stable_intros assms(1))+
qed

section \<open>What the methods answer\<close>

lemma bindP_on_ctx [simp]: "bindP (on_ctx f) k (c, w) = k () (f c, w)"
  by (simp add: bindP_def)

lemma bindP_ask_ctx [simp]: "bindP (ask_ctx f) k (c, w) = k (f c) (c, w)"
  by (simp add: bindP_def)

lemma param_check_value:
  "param_check E p (c, w) =
     (if field (params c) p = None
      then (Inr False, (make_response_parse_error (ErrorFormat E ''param %s has not found'' p) c, w))
      else (Inr True, (c, w)))"
  by (simp add: param_check_def has_param_def param_error_def bindP_def)

lemma bindP_param_check:
  "bindP (param_check E p) k (c, w) =
     (if field (params c) p = None
      then k False (make_response_parse_error (ErrorFormat E ''param %s has not found'' p) c, w)
      else k True (c, w))"
  by (simp add: bindP_def param_check_value)

context explorer_env
begin

lemma bindP_param_at: "field (params c) p = Some v \<Longrightarrow> bindP (param_at E p) k (c, w) = k v (c, w)"
  by (simp add: param_at_def bindP_def)

lemma check_limit_value:
  "check_limit E (c, w) =
     (case (field (params c) ''first'', field (params c) ''limit'') of
        (None, _) \<Rightarrow> (Inr False, (make_response_parse_error (ErrorFormat E ''param %s has not found'' ''first'') c, w))
      | (_, None) \<Rightarrow> (Inr False, (make_response_parse_error (ErrorFormat E ''param %s has not found'' ''limit'') c, w))
      | (Some _, Some l) \<Rightarrow>
          (case jl_get_u64 E l of
             Inl e \<Rightarrow> (Inl e, (c, w))
           | Inr n \<Rightarrow> if 1000 < n
               then (Inr False, (make_response_parse_error ''limit params must be less then 1000'' c, w))
               else (Inr True, (c, w))))"
  by (auto simp: check_limit_def bindP_param_check param_u64_def param_at_def
      split: option.splits sum.splits) (simp_all add: bindP_def)

lemma get_block_id_number:
  "field (params c) p = Some (JUint n) \<Longrightarrow> get_block_id E p (c, w) = (Inr (ucast n), (c, w))"
  by (simp add: get_block_id_def bindP_param_check bindP_param_at)

lemma get_block_number:
  assumes "db_name d = dbn" "field (params c) ''id'' = Some (JUint n)"
  shows "api_get_block E d (c, w) =
    (Inr (), (set_result (case rows w t_blocks (to_string (unat n)) of Some r \<Rightarrow> r | None \<Rightarrow> JArr []) c, w))"
proof -
  have "(ucast n :: uint256) \<noteq> -1" by (rule ucast_256_not_max)
  then show ?thesis
    using assms get_block_by_id_value [OF assms(1), of "ucast n" w] get_block_id_number [OF assms(2), of w]
    by (simp add: api_get_block_def bindP_def on_world_apply result_def)
qed

lemma get_block_history_cases:
  assumes "field (params c) ''first'' = Some (JUint a)" and "field (params c) ''limit'' = Some (JUint n)"
  shows "api_get_block_history E d (c, w) =
    (if 1000 < n then (Inr (), (make_response_parse_error ''limit params must be less then 1000'' c, w))
     else bindP (on_world (get_block_history E d a n)) result (c, w))"
proof -
  have l: "check_limit E (c, w) =
      (if 1000 < n then (Inr False, (make_response_parse_error ''limit params must be less then 1000'' c, w))
       else (Inr True, (c, w)))"
    using assms by (simp add: check_limit_value)
  have g: "bindP (get_block_id E ''first'') k (c, w) = k (ucast a) (c, w)" for k :: "uint256 \<Rightarrow> ('w call, unit) prog"
    by (rule bindP_apply_Inr [of "get_block_id E ''first''" "(c, w)" "ucast a" "(c, w)"])
      (rule get_block_id_number [OF assms(1)])
  have u: "bindP (param_u64 E ''limit'') k (c, w) = k n (c, w)" for k :: "uint64 \<Rightarrow> ('w call, unit) prog"
    by (rule bindP_apply_Inr [of "param_u64 E ''limit''" "(c, w)" n "(c, w)"])
      (simp add: param_u64_def bindP_param_at assms(2))
  show ?thesis
    by (cases "1000 < n")
      (simp_all add: api_get_block_history_def bindP_def [of "check_limit E"] l u g ucast_256_not_max)
qed

end

text \<open>
  A context with given parameters and a server with given blocks, for concrete runs.
\<close>

definition params_context :: "string \<Rightarrow> (string \<times> json) list \<Rightarrow> rpc_context" where
  "params_context m ps = new_context\<lparr>request := \<lparr>rq_id = JStr ''1'', rq_method = m, rq_params = obj ps\<rparr>\<rparr>"

definition sample_block :: "string \<Rightarrow> uint64 \<Rightarrow> json" where
  "sample_block i n = obj [(''id'', JStr i), (''block-id'', JUint n)]"

definition sample_world :: refdb where
  "sample_world = (\<lambda>_. [])(t_blocks := [sample_block ''7'' 7])"

lemma sample_rows_7: "ref_rows sample_world t_blocks ''7'' = Some (sample_block ''7'' 7)"
  by (simp add: ref_rows_def sample_world_def has_id_def id_string_Some sample_block_def obj_def)



end
