(* ===== verification/Request.thy ===== *)
theory Request
  imports Api
begin

text \<open>
  The handling of one HTTP request, \<^verbatim>\<open>backend/jsonrpc/request.hpp\<close>: the path check, the dispatch on
  the HTTP method, the call of the router and the response. The HTTP messages are those parts
  of the \<^verbatim>\<open>Boost.Beast\<close> messages the function reads and writes.
\<close>

section \<open>Messages\<close>

datatype verb = Verb_post | Verb_options | Verb_other string

record http_request =
  hq_method :: verb
  hq_target :: string
  hq_version :: nat
  hq_body :: string

text \<open>A new response has the status 200; \<^verbatim>\<open>prepare_payload\<close> sets the content length from the body.\<close>

record http_response =
  hp_status :: nat
  hp_version :: nat
  hp_fields :: "(string \<times> string) list"
  hp_body :: string
  hp_content_length :: "nat option"

definition new_http_response :: "nat \<Rightarrow> nat \<Rightarrow> http_response" where
  "new_http_response status version =
     \<lparr>hp_status = status, hp_version = version, hp_fields = [], hp_body = [], hp_content_length = None\<rparr>"

definition set_field :: "string \<Rightarrow> string \<Rightarrow> http_response \<Rightarrow> http_response" where
  "set_field k v res = res\<lparr>hp_fields := filter (\<lambda>kv. fst kv \<noteq> k) (hp_fields res) @ [(k, v)]\<rparr>"

definition prepare_payload :: "http_response \<Rightarrow> http_response" where
  "prepare_payload res = res\<lparr>hp_content_length := Some (length (hp_body res))\<rparr>"

section \<open>The handler\<close>

definition fill_cors :: "http_response \<Rightarrow> http_response" where
  "fill_cors res =
     set_field ''Access-Control-Expose-Headers'' ''Content-Length,Content-Range''
     (set_field ''Access-Control-Allow-Headers''
        ''DNT,User-Agent,X-Requested-With,If-Modified-Since,Cache-Control,Content-Type,Range''
     (set_field ''Access-Control-Allow-Methods'' (''POST'' @ '', '' @ ''OPTIONS'')
     (set_field ''Access-Control-Allow-Origin'' ''*'' res)))"

text \<open>One slash at the end of the path is dropped.\<close>

definition request_path :: "string \<Rightarrow> string" where
  "request_path target =
     (if 0 < length target \<and> last target = CHR ''/'' then butlast target else target)"

definition forbidden :: "'w rpc_router \<Rightarrow> http_request \<Rightarrow> bool" where
  "forbidden rpc req \<longleftrightarrow> hq_target req = [] \<or> request_path (hq_target req) \<noteq> rt_path rpc"

definition handle_post ::
  "('w, 'e) env_scheme \<Rightarrow> 'w rpc_router \<Rightarrow> http_request \<Rightarrow> ('w, http_response) prog" where
  "handle_post E rpc req w =
     (let res = fill_cors (new_http_response 200 (hq_version req));
          ctx = from_string E (hq_body req) new_context
      in case router_apply rpc (rq_method (request ctx)) (ctx, w) of
           (True, (ctx', w')) \<Rightarrow>
             (case to_json E ctx' of
                Inl e \<Rightarrow> (Inl e, w')
              | Inr body \<Rightarrow> (Inr (prepare_payload (res\<lparr>hp_body := body @ [CHR 0x0A]\<rparr>)), w'))
         | (False, (ctx', w')) \<Rightarrow>
             (let ctx'' = (if rs_error (response ctx') = None
                           then make_response_error_non_method ctx' else ctx')
              in case to_json E ctx'' of
                Inl e \<Rightarrow> (Inl e, w')
              | Inr body \<Rightarrow> (Inr (prepare_payload (res\<lparr>hp_status := 404, hp_body := body\<rparr>)), w')))"

definition handle ::
  "('w, 'e) env_scheme \<Rightarrow> 'w rpc_router \<Rightarrow> http_request \<Rightarrow> ('w, http_response) prog" where
  "handle E rpc req =
     (if forbidden rpc req then ret (new_http_response 403 (hq_version req))
      else if hq_method req = Verb_post then handle_post E rpc req
      else if hq_method req = Verb_options
      then ret (fill_cors (new_http_response 200 (hq_version req)))
      else ret (new_http_response 405 (hq_version req)))"

section \<open>Lemmas\<close>

lemma hp_status_simps [simp]:
  "hp_status (new_http_response s v) = s"
  "hp_status (set_field k x res) = hp_status res"
  "hp_status (fill_cors res) = hp_status res"
  "hp_status (prepare_payload res) = hp_status res"
  "hp_version (new_http_response s v) = v"
  "hp_version (set_field k x res) = hp_version res"
  "hp_version (fill_cors res) = hp_version res"
  "hp_version (prepare_payload res) = hp_version res"
  "hp_body (prepare_payload res) = hp_body res"
  "hp_body (new_http_response s v) = []"
  "hp_body (set_field k x res) = hp_body res"
  "hp_body (fill_cors res) = hp_body res"
  by (simp_all add: new_http_response_def set_field_def fill_cors_def prepare_payload_def)

context nlohmann_json
begin

lemma to_json_total: "\<exists>body. to_json L ctx = Inr body"
  using response_json_value [of "response ctx"] by (auto simp: to_json_def serialize_response_def)

end

text \<open>
  The context the handler prints: what the router left, with the error \<open>MethodNotFound\<close> where no
  error was set although the router did not succeed.
\<close>

definition answered :: "'w rpc_router \<Rightarrow> rpc_context \<Rightarrow> 'w \<Rightarrow> bool \<times> rpc_context \<times> 'w" where
  "answered rpc ctx w =
     (case router_apply rpc (rq_method (request ctx)) (ctx, w) of (ok, (ctx', w')) \<Rightarrow>
        (ok, (if \<not> ok \<and> rs_error (response ctx') = None then make_response_error_non_method ctx' else ctx'), w'))"

lemma handle_post_answered:
  assumes "nlohmann_json E" and "answered rpc (from_string E (hq_body req) new_context) w = (ok, ctx', w')"
  shows "\<exists>res body. handle_post E rpc req w = (Inr res, w') \<and> to_json E ctx' = Inr body
    \<and> hp_status res = (if ok then 200 else 404) \<and> hp_version res = hq_version req
    \<and> hp_body res = body @ (if ok then [CHR 0x0A] else [])
    \<and> hp_content_length res = Some (length (hp_body res))"
proof -
  obtain body where "to_json E ctx' = Inr body" using nlohmann_json.to_json_total [OF assms(1)] by blast
  then show ?thesis
    using assms(2) by (auto simp: handle_post_def answered_def Let_def prepare_payload_def split: prod.splits bool.splits if_splits)
qed

section \<open>Properties\<close>

lemma answered_stable:
  assumes "response_stable P" and "P (response ctx)" and "answered (api_router E d) ctx w = (ok, ctx', w')"
  shows "P (response ctx')"
proof (cases "map_of (rt_storage (api_router E d)) (rq_method (request ctx))")
  case None
  with assms show ?thesis
    by (auto simp: answered_def router_apply_unknown make_response_error_non_method_def stable_set split: if_splits)
next
  case (Some f)
  obtain r c1 w1 where f: "f d (ctx, w) = (r, (c1, w1))" by (metis prod.collapse)
  have "invP (on_response P) (f d)"
    using api_method_stable [OF assms(1)] Some by (metis api_router_lookup)
  from invPD [OF this f] assms(2) have "P (response c1)" by (simp add: on_response_def)
  moreover have "P (response (apply_catch e c1))" if "P (response c1)" for e
    using that assms(1) by (cases e) (auto simp: make_response_parse_error_def stable_set)
  ultimately show ?thesis
    using assms(1,3) f Some
    by (auto simp: answered_def router_apply_def api_router_db make_response_error_non_method_def stable_set
        split: sum.splits if_splits)
qed

lemma answered_ok:
  assumes "answered rpc ctx w = (ok, ctx', w')"
  shows "ok \<longleftrightarrow> (\<exists>f u s'. map_of (rt_storage rpc) (rq_method (request ctx)) = Some f \<and> f (rt_db rpc) (ctx, w) = (Inr u, s'))"
    and "ok \<or> rs_error (response ctx') \<noteq> None"
  using assms by (auto simp: answered_def router_apply_def message_defs split: option.splits prod.splits sum.splits if_splits)

text \<open>
  What a JSON-RPC answer has to be for a request body: a request that is accepted is answered under its own id, everything
  else under the id null and with an error.
\<close>

definition answers_body :: "('w, 'e) env_scheme \<Rightarrow> string \<Rightarrow> response_message \<Rightarrow> bool" where
  "answers_body E body r \<longleftrightarrow>
     (case jl_parse E body of
        Inl _ \<Rightarrow> rs_id r = JNull \<and> rs_error r \<noteq> None
      | Inr j \<Rightarrow> (case rpc_request j of
          None \<Rightarrow> rs_id r = JNull \<and> rs_error r \<noteq> None
        | Some (i, m, p) \<Rightarrow> rs_id r = i))"

lemma answered_body:
  assumes "nlohmann_json E" and "answered (api_router E d) (from_string E body new_context) w = (ok, ctx', w')"
  shows "answers_body E body (response ctx')"
proof (cases "\<exists>j r. jl_parse E body = Inr j \<and> rpc_request j = Some r")
  case True
  then obtain j i m p where j: "jl_parse E body = Inr j" "rpc_request j = Some (i, m, p)" by auto
  have "rs_id (response (from_string E body new_context)) = i"
    by (simp add: nlohmann_json.from_string_accepts [OF assms(1) j])
  from answered_stable [OF response_stable_id this assms(2)] j show ?thesis by (simp add: answers_body_def)
next
  case False
  note r = nlohmann_json.from_string_rejects [OF assms(1) False, of new_context]
  then have "rs_id (response (from_string E body new_context)) = JNull" by (simp add: message_defs)
  from answered_stable [OF response_stable_id this assms(2)] answered_stable [OF response_stable_error _ assms(2)] r False show ?thesis
    by (auto simp: answers_body_def split: sum.split option.split)
qed


definition ping_http :: "string \<Rightarrow> http_request" where
  "ping_http path = \<lparr>hq_method = Verb_post, hq_target = path, hq_version = 11, hq_body = ''ping''\<rparr>"

definition text_env :: "string \<Rightarrow> json \<Rightarrow> refdb env" where
  "text_env t j = ref_env (\<lambda>s. if s = t then Some j else None) (\<lambda>_ k. if k = j then t else []) 0"

lemma text_env_json: "nlohmann_json (text_env t j)"
  by (simp add: text_env_def ref_env_json)

lemma text_env_parse: "jl_parse (text_env t j) t = Inr j"
  by (simp add: text_env_def ref_env_def ref_mile_def mile_lib.defs json_lib.defs std_json_def)


lemma api_unknown: "m \<notin> set api_names \<Longrightarrow> router_apply (api_router E d) m s = (False, s)"
  using api_router_keys [of E d]
  by (intro router_apply_unknown) (auto simp: router_keys_def map_of_eq_None_iff)

text \<open>
  (C35) A well-formed request for a method the API does not have is answered with 404 and a response
  that carries the id of the request and the error \<open>MethodNotFound\<close> (-32601) and no result, and the
  database is not touched.
\<close>

theorem unknown_method_answer:
  assumes "nlohmann_json E" and "\<not> forbidden (api_router E d) req" and "hq_method req = Verb_post"
    and "jl_parse E (hq_body req) = Inr j" and "rpc_request j = Some (i, m, p)" and "m \<notin> set api_names"
  shows "\<exists>res. handle E (api_router E d) req w = (Inr res, w) \<and> hp_status res = 404
    \<and> serialize_response E
        \<lparr>rs_id = i, rs_result = JNull, rs_error = Some (new_response_error (-32601) ''MethodNotFound'')\<rparr>
      = Inr (hp_body res)"
proof -
  let ?ctx = "\<lparr>request = \<lparr>rq_id = i, rq_method = m, rq_params = p\<rparr>, response = empty_response\<lparr>rs_id := i\<rparr>\<rparr>"
  have c: "from_string E (hq_body req) new_context = ?ctx"
    using nlohmann_json.from_string_accepts [OF assms(1,4,5)] .
  have "answered (api_router E d) (from_string E (hq_body req) new_context) w
      = (False, make_response_error_non_method ?ctx, w)"
    by (simp add: c answered_def empty_response_def api_unknown [OF assms(6)])
  from handle_post_answered [OF assms(1) this] assms(2,3) show ?thesis
    by (auto simp: handle_def to_json_def message_defs)
qed

definition unknown_json :: json where
  "unknown_json = obj [(''jsonrpc'', JStr ''2.0''), (''method'', JStr ''mine''), (''params'', JObj []), (''id'', JStr ''1'')]"

theorem unknown_method_answer_witness:
  "\<exists>res. handle (text_env ''ping'' unknown_json) (api_router (text_env ''ping'' unknown_json) sample_db)
      (ping_http ''/v1/api/'') sample_world = (Inr res, sample_world) \<and> hp_status res = 404"
proof -
  let ?E = "text_env ''ping'' unknown_json"
  have f: "\<not> forbidden (api_router ?E sample_db) (ping_http ''/v1/api/'')"
    and b: "hq_method (ping_http ''/v1/api/'') = Verb_post" "hq_body (ping_http ''/v1/api/'') = ''ping''"
    by (simp_all add: forbidden_def ping_http_def request_path_def api_router_path)
  have p: "jl_parse ?E ''ping'' = Inr unknown_json" by (rule text_env_parse)
  have r: "rpc_request unknown_json = Some (JStr ''1'', ''mine'', JObj [])"
    by (simp add: rpc_request_def request_params_def unknown_json_def obj_def)
  show ?thesis
    using unknown_method_answer [OF text_env_json f b(1) _ r] p b(2) by (fastforce simp: api_names_def)
qed

text \<open>What a request for a method that ends well is answered.\<close>

lemma method_answer:
  assumes "nlohmann_json E" and "\<not> forbidden (api_router E d) req" and "hq_method req = Verb_post"
    and "jl_parse E (hq_body req) = Inr j" and "rpc_request j = Some (i, m, p)"
    and "map_of (method_entries (api_methods E (help_json E))) m = Some f"
    and "\<And>c. params c = p \<Longrightarrow> f d (c, w) = (Inr (), (set_result v c, w'))"
  shows "\<exists>res text. handle E (api_router E d) req w = (Inr res, w') \<and> hp_status res = 200
    \<and> hp_body res = text @ [CHR 0x0A]
    \<and> serialize_response E \<lparr>rs_id = i, rs_result = v, rs_error = None\<rparr> = Inr text"
proof -
  let ?ctx = "\<lparr>request = \<lparr>rq_id = i, rq_method = m, rq_params = p\<rparr>, response = empty_response\<lparr>rs_id := i\<rparr>\<rparr>"
  have c: "from_string E (hq_body req) new_context = ?ctx"
    using nlohmann_json.from_string_accepts [OF assms(1,4,5)] .
  have "map_of (rt_storage (api_router E d)) m = Some f" using assms(6) by (simp add: api_router_lookup)
  moreover have "f (rt_db (api_router E d)) (?ctx, w) = (Inr (), (set_result v ?ctx, w'))"
    using assms(7) [of ?ctx] by (simp add: api_router_db params_def)
  ultimately have "router_apply (api_router E d) m (?ctx, w) = (True, (set_result v ?ctx, w'))"
    by (rule router_apply_known)
  then have "answered (api_router E d) (from_string E (hq_body req) new_context) w = (True, set_result v ?ctx, w')"
    by (simp add: c answered_def)
  from handle_post_answered [OF assms(1) this] assms(2,3) show ?thesis
    by (auto simp: handle_def to_json_def set_result_def empty_response_def)
qed

text \<open>
  (C32) A well-formed POST of \<open>get-block\<close> with a number is answered with 200 and a JSON-RPC response that carries the id of the
  request and, as its result, the stored block of this number, found by the decimal text the indexer
  uses as key, or an empty array if there is none. The database is not changed.
\<close>

theorem get_block_answer:
  assumes "explorer_env E (db_name d) rows" and "\<not> forbidden (api_router E d) req" and "hq_method req = Verb_post"
    and "jl_parse E (hq_body req) = Inr j" and "rpc_request j = Some (i, ''get-block'', p)" and "field p ''id'' = Some (JUint n)"
  shows "\<exists>res text. handle E (api_router E d) req w = (Inr res, w) \<and> hp_status res = 200
    \<and> hp_body res = text @ [CHR 0x0A]
    \<and> serialize_response E \<lparr>rs_id = i,
          rs_result = (case rows w t_blocks (to_string (unat n)) of Some r \<Rightarrow> r | None \<Rightarrow> JArr []), rs_error = None\<rparr> = Inr text"
proof -
  have "map_of (method_entries (api_methods E (help_json E))) ''get-block'' = Some (api_get_block E)"
    by (simp add: api_methods_def)
  from method_answer [OF explorer_env.axioms(1) [OF assms(1)] assms(2-5) this]
    explorer_env.get_block_number [OF assms(1) refl] assms(6) show ?thesis by simp
qed

theorem get_block_answer_witness:
  "\<exists>res text. handle sample_env (api_router sample_env sample_db)
      \<lparr>hq_method = Verb_post, hq_target = ''/v1/api'', hq_version = 11, hq_body = ''get-block''\<rparr> (\<lambda>_. []) = (Inr res, (\<lambda>_. []))
    \<and> hp_status res = 200 \<and> serialize_response sample_env \<lparr>rs_id = JUint 1, rs_result = JArr [], rs_error = None\<rparr> = Inr text"
proof -
  let ?req = "\<lparr>hq_method = Verb_post, hq_target = ''/v1/api'', hq_version = 11, hq_body = ''get-block''\<rparr>"
  have f: "\<not> forbidden (api_router sample_env sample_db) ?req" "hq_method ?req = Verb_post"
    by (simp_all add: forbidden_def request_path_def api_router_path)
  have "jl_parse sample_env (hq_body ?req) = Inr sample_request"
    by (simp add: sample_env_def ref_env_def ref_mile_def mile_lib.defs json_lib.defs std_json_def)
  moreover have "rpc_request sample_request = Some (JUint 1, ''get-block'', obj [(''id'', JUint 0)])"
    by (simp add: rpc_request_def request_params_def sample_request_def obj_def)
  moreover have "field (obj [(''id'', JUint 0)]) ''id'' = Some (JUint 0)" by (simp add: obj_def)
  ultimately show ?thesis
    using get_block_answer [OF sample_explorer f, of sample_request "JUint 1" "obj [(''id'', JUint 0)]" 0 "\<lambda>_. []"]
    by (auto simp: ref_rows_def)
qed

text \<open>
  (C36) A request without parameters is refused by \<open>from_string\<close> with a parse error, but the method it names is called all the same,
  with null as its parameters. Whatever the method does, the answer carries an error and the id null although the request has an id;
  beside the error it carries the result the method has set, and its status is 200 if the method returns and 404 if it raises.
\<close>

theorem missing_params_answer:
  assumes "nlohmann_json E" and "\<not> forbidden (api_router E d) req" and "hq_method req = Verb_post"
    and "jl_parse E (hq_body req) = Inr j" and "field j ''jsonrpc'' = Some (JStr ''2.0'')"
    and "field j ''id'' = Some i" and "field j ''method'' = Some (JStr m)" and "request_params j = None"
    and "map_of (method_entries (api_methods E (help_json E))) m = Some f"
    and "f d (\<lparr>request = \<lparr>rq_id = i, rq_method = m, rq_params = JNull\<rparr>,
               response = \<lparr>rs_id = JNull, rs_result = JNull,
                 rs_error = Some (new_response_error (-32700) ''json-rpc: unknown parse error'')\<rparr>\<rparr>, w) = (u, (c, w'))"
  shows "\<exists>res text. handle E (api_router E d) req w = (Inr res, w')
    \<and> hp_status res = (case u of Inr _ \<Rightarrow> 200 | Inl _ \<Rightarrow> 404)
    \<and> hp_body res = text @ (case u of Inr _ \<Rightarrow> [CHR 0x0A] | Inl _ \<Rightarrow> [])
    \<and> (let r = response (case u of Inr _ \<Rightarrow> c | Inl e \<Rightarrow> apply_catch e c) in
         serialize_response E r = Inr text \<and> rs_id r = JNull \<and> rs_error r \<noteq> None)"
proof -
  let ?ctx = "\<lparr>request = \<lparr>rq_id = i, rq_method = m, rq_params = JNull\<rparr>,
      response = \<lparr>rs_id = JNull, rs_result = JNull, rs_error = Some (new_response_error (-32700) ''json-rpc: unknown parse error'')\<rparr>\<rparr>"
    and ?c = "case u of Inr _ \<Rightarrow> c | Inl e \<Rightarrow> apply_catch e c"
  have x: "from_string E (hq_body req) new_context = ?ctx"
    using nlohmann_json.from_string_missing_params [OF assms(1,4-8)] by (simp add: message_defs)
  have inv: "invP (on_response (\<lambda>r. rs_error r \<noteq> None)) (f d)" by (rule api_method_stable [OF response_stable_error assms(9)])
  have err: "rs_error (response ?c) \<noteq> None"
  proof (cases u)
    case (Inl e)
    with invPD [OF inv assms(10)] show ?thesis
      by (cases e) (auto simp: on_response_def make_response_parse_error_def set_error_def set_result_def)
  qed (use invPD [OF inv assms(10)] in \<open>simp add: on_response_def\<close>)
  have a: "answered (api_router E d) (from_string E (hq_body req) new_context) w = (\<not> isl u, ?c, w')"
    using assms(9,10) err by (cases u) (auto simp: x answered_def router_apply_def api_router_lookup api_router_db)
  from answered_stable [OF response_stable_id, of "from_string E (hq_body req) new_context" JNull, OF _ a]
  have "rs_id (response ?c) = JNull" by (simp add: x)
  with handle_post_answered [OF assms(1) a] err assms(2,3) show ?thesis
    by (cases u) (auto simp: handle_def to_json_def)
qed

definition no_params_json :: json where
  "no_params_json = obj [(''jsonrpc'', JStr ''2.0''), (''method'', JStr ''ping''), (''id'', JStr ''10'')]"

theorem missing_params_answer_witness:
  "\<exists>res text. handle (text_env ''ping'' no_params_json) (api_router (text_env ''ping'' no_params_json) sample_db)
      (ping_http ''/v1/api'') sample_world = (Inr res, sample_world) \<and> hp_status res = 200 \<and> hp_body res = text @ [CHR 0x0A]
    \<and> serialize_response (text_env ''ping'' no_params_json) \<lparr>rs_id = JNull, rs_result = JBool True,
        rs_error = Some (new_response_error (-32700) ''json-rpc: unknown parse error'')\<rparr> = Inr text"
proof -
  let ?E = "text_env ''ping'' no_params_json"
  have f: "\<not> forbidden (api_router ?E sample_db) (ping_http ''/v1/api'')" "hq_method (ping_http ''/v1/api'') = Verb_post"
    "jl_parse ?E (hq_body (ping_http ''/v1/api'')) = Inr no_params_json"
    by (simp_all add: forbidden_def ping_http_def request_path_def api_router_path text_env_parse)
  have r: "field no_params_json ''jsonrpc'' = Some (JStr ''2.0'')" "field no_params_json ''id'' = Some (JStr ''10'')"
    "field no_params_json ''method'' = Some (JStr ''ping'')" "request_params no_params_json = None"
    by (simp_all add: request_params_def no_params_json_def obj_def)
  have m: "map_of (method_entries (api_methods ?E (help_json ?E))) ''ping'' = Some api_ping"
    by (simp add: api_methods_def)
  have c: "api_ping sample_db (x, sample_world) = (Inr (), (set_result (JBool True) x, sample_world))" for x
    by (simp add: api_ping_def result_def)
  from missing_params_answer [OF text_env_json f r m c] show ?thesis by (simp add: set_result_def)
qed

text \<open>The exceptions of the JSON library, for which the router has handlers of their own.\<close>

fun json_exn :: "exn \<Rightarrow> bool" where
  "json_exn (Json_parse_error m) = True"
| "json_exn (Json_invalid_iterator m) = True"
| "json_exn (Json_type_error m) = True"
| "json_exn (Json_out_of_range m) = True"
| "json_exn (Json_other_error m) = True"
| "json_exn _ = False"

text \<open>
  (C37) A method that fails in any other way than by an exception of the JSON library, for example because \<^verbatim>\<open>std::stoull\<close> cannot read a parameter, and has set no error itself, is answered
  like a method that does not exist: with 404 and the error \<open>MethodNotFound\<close> (-32601), under the id of the request, and yet with a
  result, the empty array.
\<close>

theorem method_failure_answer:
  assumes "nlohmann_json E" and "\<not> forbidden (api_router E d) req" and "hq_method req = Verb_post"
    and "jl_parse E (hq_body req) = Inr j" and "rpc_request j = Some (i, m, p)"
    and "map_of (method_entries (api_methods E (help_json E))) m = Some f"
    and "f d (\<lparr>request = \<lparr>rq_id = i, rq_method = m, rq_params = p\<rparr>, response = \<lparr>rs_id = i, rs_result = JNull, rs_error = None\<rparr>\<rparr>, w)
      = (Inl e, (c, w'))" and "\<not> json_exn e" and "rs_error (response c) = None"
  shows "\<exists>res. handle E (api_router E d) req w = (Inr res, w') \<and> hp_status res = 404
    \<and> serialize_response E \<lparr>rs_id = i, rs_result = JArr [], rs_error = Some (new_response_error (-32601) ''MethodNotFound'')\<rparr>
      = Inr (hp_body res)"
proof -
  let ?ctx = "\<lparr>request = \<lparr>rq_id = i, rq_method = m, rq_params = p\<rparr>, response = \<lparr>rs_id = i, rs_result = JNull, rs_error = None\<rparr>\<rparr>"
  have x: "from_string E (hq_body req) new_context = ?ctx"
    using nlohmann_json.from_string_accepts [OF assms(1,4,5)] by (simp add: empty_response_def)
  have "invP (on_response (\<lambda>r. rs_id r = i)) (f d)" by (rule api_method_stable [OF response_stable_id assms(6)])
  from invPD [OF this assms(7)] have "rs_id (response c) = i" by (simp add: on_response_def)
  moreover have "apply_catch e c = set_result (JArr []) c" using assms(8) by (cases e) simp_all
  ultimately have r: "response (make_response_error_non_method (apply_catch e c))
      = \<lparr>rs_id = i, rs_result = JArr [], rs_error = Some (new_response_error (-32601) ''MethodNotFound'')\<rparr>"
    and n: "rs_error (response (apply_catch e c)) = None"
    using assms(9) by (simp_all add: message_defs set_result_def)
  have "answered (api_router E d) (from_string E (hq_body req) new_context) w
      = (False, make_response_error_non_method (apply_catch e c), w')"
    using assms(6,7) n by (simp add: x answered_def router_apply_def api_router_lookup api_router_db)
  from handle_post_answered [OF assms(1) this] assms(2,3) show ?thesis
    by (auto simp: handle_def to_json_def r)
qed

definition bad_first_json :: json where
  "bad_first_json = obj [(''jsonrpc'', JStr ''2.0''), (''method'', JStr ''get-transaction-history''), (''id'', JStr ''1''),
     (''params'', obj [(''first'', JStr ''abc''), (''limit'', JUint 1)])]"

theorem method_failure_answer_witness:
  "\<exists>res. handle (text_env ''ping'' bad_first_json) (api_router (text_env ''ping'' bad_first_json) sample_db)
      (ping_http ''/v1/api/'') sample_world = (Inr res, sample_world) \<and> hp_status res = 404"
proof -
  let ?E = "text_env ''ping'' bad_first_json" and ?p = "obj [(''first'', JStr ''abc''), (''limit'', JUint 1)]"
  have f: "\<not> forbidden (api_router ?E sample_db) (ping_http ''/v1/api/'')" "hq_method (ping_http ''/v1/api/'') = Verb_post"
    "jl_parse ?E (hq_body (ping_http ''/v1/api/'')) = Inr bad_first_json"
    by (simp_all add: forbidden_def ping_http_def request_path_def api_router_path text_env_parse)
  have r: "rpc_request bad_first_json = Some (JStr ''1'', ''get-transaction-history'', ?p)"
    by (simp add: rpc_request_def request_params_def bad_first_json_def obj_def)
  have m: "map_of (method_entries (api_methods ?E (help_json ?E))) ''get-transaction-history'' = Some (api_get_transaction_history ?E)"
    by (simp add: api_methods_def)
  have x: "explorer_env ?E (db_name sample_db) ref_rows" unfolding text_env_def by (rule ref_explorer)
  have s: "stoull ''abc'' = Inl (Std_exception ''stoull: invalid_argument'')" by code_simp
  have c: "api_get_transaction_history ?E sample_db (c, sample_world)
      = (Inl (Std_exception ''stoull: invalid_argument''), (c, sample_world))" if "params c = ?p" for c
  proof -
    have "check_limit ?E (c, sample_world) = (Inr True, (c, sample_world))"
      using that by (simp add: explorer_env.check_limit_value [OF x] obj_def nlohmann_json.json_laws [OF text_env_json])
    moreover have "get_transaction_id ?E ''first'' (c, sample_world) = (Inl (Std_exception ''stoull: invalid_argument''), (c, sample_world))"
      using that s by (simp add: get_transaction_id_def explorer_env.bindP_param_at [OF x] obj_def nlohmann_json.json_laws [OF text_env_json])
    ultimately show ?thesis by (simp add: api_get_transaction_history_def bindP_def)
  qed
  show ?thesis
    using method_failure_answer [OF text_env_json f r m c] by (auto simp: params_def)
qed

end
