(* ===== verification/Session.thy ===== *)
theory Session
  imports Request
begin

text \<open>
  The connections of the server: \<^verbatim>\<open>backend/jsonrpc/http/session.*\<close> and \<^verbatim>\<open>https/session.*\<close>. A session is driven by completions of asynchronous operations; each
  member function starts at most one operation, recorded as \<open>ss_pending\<close>, and the strand of the
  session runs one handler at a time. Sockets and TLS are outside the program: a completion
  carries the error code and, for a read, the request that was received. \<open>need_eof\<close>, the
  library's test whether a response ends the connection, is a parameter.
\<close>

section \<open>Sessions\<close>

datatype io_error = Io_ok | Io_end_of_stream | Io_error

datatype pending = P_none | P_handshake | P_read | P_write bool | P_shutdown

datatype completion =
    C_handshake io_error
  | C_read io_error http_request
  | C_write io_error
  | C_shutdown io_error

record session =
  ss_pending :: pending
  ss_req :: "http_request option" \<comment> \<open>\<^verbatim>\<open>req_\<close>, \<open>None\<close> while it is empty\<close>
  ss_res :: "http_response option" \<comment> \<open>\<^verbatim>\<open>res_\<close>\<close>
  ss_closed :: bool \<comment> \<open>the sending side of the socket is shut down\<close>
  ss_failed :: bool \<comment> \<open>\<open>fail\<close> has been called\<close>

definition new_session :: session where
  "new_session = \<lparr>ss_pending = P_none, ss_req = None, ss_res = None, ss_closed = False, ss_failed = False\<rparr>"

definition session_fail :: "session \<Rightarrow> session" where
  "session_fail s = s\<lparr>ss_failed := True\<rparr>"

definition send_lambda :: "(http_response \<Rightarrow> bool) \<Rightarrow> http_response \<Rightarrow> session \<Rightarrow> session" where
  "send_lambda need_eof msg s = s\<lparr>ss_res := Some msg, ss_pending := P_write (need_eof msg)\<rparr>"

definition serve_request ::
  "('w, 'e) env_scheme \<Rightarrow> 'w rpc_router \<Rightarrow> (http_response \<Rightarrow> bool) \<Rightarrow> http_request \<Rightarrow> (session \<times> 'w, unit) prog" where
  "serve_request E rpc need_eof req = (\<lambda>(s, w).
     case handle E rpc req w of
       (Inl e, w') \<Rightarrow> (Inl e, (s, w'))
     | (Inr res, w') \<Rightarrow> (Inr (), (send_lambda need_eof res s, w')))"

definition on_session :: "(session \<Rightarrow> session) \<Rightarrow> (session \<times> 'w, unit) prog" where
  "on_session f = modifyP (\<lambda>(s, w). (f s, w))"

section \<open>Plain sessions\<close>

text \<open>The request of the last read is still in \<^verbatim>\<open>req_\<close> when the next read starts.\<close>

definition http_do_read :: "session \<Rightarrow> session" where
  "http_do_read s = s\<lparr>ss_pending := P_read\<rparr>"

definition http_do_close :: "session \<Rightarrow> session" where
  "http_do_close s = s\<lparr>ss_closed := True\<rparr>"

definition http_on_read ::
  "('w, 'e) env_scheme \<Rightarrow> 'w rpc_router \<Rightarrow> (http_response \<Rightarrow> bool) \<Rightarrow> io_error \<Rightarrow> http_request \<Rightarrow> (session \<times> 'w, unit) prog" where
  "http_on_read E rpc need_eof ec req =
     (if ec = Io_end_of_stream then on_session http_do_close
      else if ec \<noteq> Io_ok then on_session session_fail
      else serve_request E rpc need_eof req)"

definition http_on_write :: "io_error \<Rightarrow> bool \<Rightarrow> session \<Rightarrow> session" where
  "http_on_write ec close s =
     (if ec \<noteq> Io_ok then session_fail s
      else if close then http_do_close s
      else http_do_read (s\<lparr>ss_res := None\<rparr>))"

definition http_run :: "session \<Rightarrow> session" where
  "http_run s = http_do_read s"

section \<open>TLS sessions\<close>

definition https_do_read :: "session \<Rightarrow> session" where
  "https_do_read s = s\<lparr>ss_req := None, ss_pending := P_read\<rparr>"

definition https_do_close :: "session \<Rightarrow> session" where
  "https_do_close s = s\<lparr>ss_pending := P_shutdown\<rparr>"

definition https_on_read ::
  "('w, 'e) env_scheme \<Rightarrow> 'w rpc_router \<Rightarrow> (http_response \<Rightarrow> bool) \<Rightarrow> io_error \<Rightarrow> http_request \<Rightarrow> (session \<times> 'w, unit) prog" where
  "https_on_read E rpc need_eof ec req =
     (if ec = Io_end_of_stream then on_session https_do_close
      else if ec \<noteq> Io_ok then on_session session_fail
      else serve_request E rpc need_eof req)"

definition https_on_write :: "io_error \<Rightarrow> bool \<Rightarrow> session \<Rightarrow> session" where
  "https_on_write ec close s =
     (if ec \<noteq> Io_ok then session_fail s
      else if close then https_do_close s
      else https_do_read (s\<lparr>ss_res := None\<rparr>))"

definition https_on_shutdown :: "io_error \<Rightarrow> session \<Rightarrow> session" where
  "https_on_shutdown ec s = (if ec \<noteq> Io_ok then session_fail s else s\<lparr>ss_closed := True\<rparr>)"

definition https_on_handshake :: "io_error \<Rightarrow> session \<Rightarrow> session" where
  "https_on_handshake ec s = (if ec \<noteq> Io_ok then session_fail s else https_do_read s)"

definition https_run :: "session \<Rightarrow> session" where
  "https_run s = s\<lparr>ss_pending := P_handshake\<rparr>"

section \<open>Completions\<close>

text \<open>
  A completed operation is no longer pending; a completed read has stored what it received in
  \<^verbatim>\<open>req_\<close>. Then the handler bound to the operation runs.
\<close>

fun enabled :: "completion \<Rightarrow> pending \<Rightarrow> bool" where
  "enabled (C_handshake _) P_handshake = True"
| "enabled (C_read _ _) P_read = True"
| "enabled (C_write _) (P_write _) = True"
| "enabled (C_shutdown _) P_shutdown = True"
| "enabled _ _ = False"

definition write_close :: "session \<Rightarrow> bool" where
  "write_close s = (case ss_pending s of P_write b \<Rightarrow> b | _ \<Rightarrow> False)"

definition dequeue :: "session \<Rightarrow> session" where
  "dequeue s = s\<lparr>ss_pending := P_none\<rparr>"

definition received :: "io_error \<Rightarrow> http_request \<Rightarrow> session \<Rightarrow> session" where
  "received ec req s = (if ec = Io_ok then s\<lparr>ss_pending := P_none, ss_req := Some req\<rparr> else dequeue s)"

fun http_complete ::
  "('w, 'e) env_scheme \<Rightarrow> 'w rpc_router \<Rightarrow> (http_response \<Rightarrow> bool) \<Rightarrow> completion \<Rightarrow> (session \<times> 'w, unit) prog" where
  "http_complete E rpc need_eof (C_read ec req) (s, w) = http_on_read E rpc need_eof ec req (received ec req s, w)"
| "http_complete E rpc need_eof (C_write ec) (s, w) = (Inr (), (http_on_write ec (write_close s) (dequeue s), w))"
| "http_complete E rpc need_eof _ (s, w) = (Inr (), (s, w))"

fun https_complete ::
  "('w, 'e) env_scheme \<Rightarrow> 'w rpc_router \<Rightarrow> (http_response \<Rightarrow> bool) \<Rightarrow> completion \<Rightarrow> (session \<times> 'w, unit) prog" where
  "https_complete E rpc need_eof (C_read ec req) (s, w) = https_on_read E rpc need_eof ec req (received ec req s, w)"
| "https_complete E rpc need_eof (C_write ec) (s, w) = (Inr (), (https_on_write ec (write_close s) (dequeue s), w))"
| "https_complete E rpc need_eof (C_handshake ec) (s, w) = (Inr (), (https_on_handshake ec (dequeue s), w))"
| "https_complete E rpc need_eof (C_shutdown ec) (s, w) = (Inr (), (https_on_shutdown ec (dequeue s), w))"

text \<open>
  The runs of a session: the completions so far, the requests it has received, the responses it has started to send, the
  session and the database it has reached.
\<close>

definition is_received :: "completion \<Rightarrow> bool" where
  "is_received c \<longleftrightarrow> (\<exists>q. c = C_read Io_ok q)"

definition sent :: "session \<Rightarrow> http_response list" where
  "sent s = (case ss_pending s of P_write _ \<Rightarrow> (case ss_res s of Some r \<Rightarrow> [r] | None \<Rightarrow> []) | _ \<Rightarrow> [])"

inductive session_run ::
  "session \<Rightarrow> (completion \<Rightarrow> (session \<times> 'w, unit) prog) \<Rightarrow> 'w \<Rightarrow>
   completion list \<Rightarrow> http_request list \<Rightarrow> http_response list \<Rightarrow> session \<Rightarrow> 'w \<Rightarrow> bool"
  for s0 complete w0 where
  start: "session_run s0 complete w0 [] [] [] s0 w0"
| receive: "session_run s0 complete w0 cs qs ps s w \<Longrightarrow> enabled (C_read Io_ok q) (ss_pending s) \<Longrightarrow>
    complete (C_read Io_ok q) (s, w) = (r, (s', w')) \<Longrightarrow>
    session_run s0 complete w0 (cs @ [C_read Io_ok q]) (qs @ [q]) (ps @ sent s') s' w'"
| other: "session_run s0 complete w0 cs qs ps s w \<Longrightarrow> enabled c (ss_pending s) \<Longrightarrow> \<not> is_received c \<Longrightarrow>
    complete c (s, w) = (r, (s', w')) \<Longrightarrow>
    session_run s0 complete w0 (cs @ [c]) qs ps s' w'"

text \<open>A session either waits for an operation or has ended, by closing or by a failure.\<close>

definition session_open :: "session \<Rightarrow> bool" where
  "session_open s \<longleftrightarrow> ss_pending s \<noteq> P_none \<and> \<not> ss_closed s \<and> \<not> ss_failed s"

definition session_ended :: "session \<Rightarrow> bool" where
  "session_ended s \<longleftrightarrow> ss_pending s = P_none \<and> (ss_closed s \<or> ss_failed s)"

text \<open>The specification of a session: the requests are handled one after the other.\<close>

fun handle_seq ::
  "('w, 'e) env_scheme \<Rightarrow> 'w rpc_router \<Rightarrow> http_request list \<Rightarrow> 'w \<Rightarrow> http_response list \<times> 'w" where
  "handle_seq E rpc [] w = ([], w)"
| "handle_seq E rpc (q # qs) w =
     (case handle E rpc q w of
        (Inl e, w') \<Rightarrow> ([], w')
      | (Inr p, w') \<Rightarrow> (case handle_seq E rpc qs w' of (ps, w'') \<Rightarrow> (p # ps, w'')))"

section \<open>What both kinds of session guarantee\<close>

lemma handle_total: "nlohmann_json E \<Longrightarrow> \<exists>p w'. handle E rpc q w = (Inr p, w')"
  using handle_post_answered [of E rpc q w]
  by (cases "answered rpc (from_string E (hq_body q) new_context) w") (auto simp: handle_def)

lemma handle_seq_snoc:
  assumes "nlohmann_json E" and "handle_seq E rpc qs w0 = (ps, w)" and "handle E rpc q w = (Inr p, w')"
  shows "handle_seq E rpc (qs @ [q]) w0 = (ps @ [p], w')"
  using assms(2,3)
proof (induction qs arbitrary: w0 ps)
  case Nil
  then show ?case by simp
next
  case (Cons a qs)
  obtain p1 w1 where h: "handle E rpc a w0 = (Inr p1, w1)" using handle_total [OF assms(1)] by blast
  obtain ps1 w2 where t: "handle_seq E rpc qs w1 = (ps1, w2)" by fastforce
  with Cons.prems h have "ps = p1 # ps1" "w2 = w" by auto
  with Cons h t show ?case by simp
qed

text \<open>
  The contract of a session class. A received request is handled and its response is sent. Any other completion leaves the
  database and starts no write: it ends the session, or a read follows a handshake or a response that does not close, or a
  shutdown follows a response that closes or the end of the stream. \<open>ops\<close> are the operations the class starts.
\<close>

definition follows :: "completion \<Rightarrow> pending \<Rightarrow> session \<Rightarrow> bool" where
  "follows c p s' \<longleftrightarrow> session_ended s'
     \<or> session_open s' \<and> ss_pending s' = P_read \<and> (c = C_handshake Io_ok \<or> c = C_write Io_ok \<and> p = P_write False)
     \<or> session_open s' \<and> ss_pending s' = P_shutdown \<and> (c = C_write Io_ok \<and> p = P_write True \<or> (\<exists>q. c = C_read Io_end_of_stream q))"

locale session_class =
  fixes E :: "('w, 'e) env_scheme" and rpc :: "'w rpc_router" and need_eof :: "http_response \<Rightarrow> bool"
    and ops :: "pending set" and begin_session :: "session" and complete :: "completion \<Rightarrow> (session \<times> 'w, unit) prog"
  assumes json: "nlohmann_json E"
    and begin_open: "session_open begin_session" "ss_pending begin_session \<in> {P_read, P_handshake} \<inter> ops"
    and complete_receive: "handle E rpc q w = (Inr p, w') \<Longrightarrow> session_open s \<Longrightarrow>
      \<exists>s'. complete (C_read Io_ok q) (s, w) = (Inr (), (s', w'))
        \<and> session_open s' \<and> ss_pending s' = P_write (need_eof p) \<and> ss_pending s' \<in> ops \<and> ss_res s' = Some p"
    and complete_other: "\<not> is_received c \<Longrightarrow> enabled c (ss_pending s) \<Longrightarrow> ss_pending s \<in> ops \<Longrightarrow> session_open s \<Longrightarrow>
      \<exists>s'. complete c (s, w) = (Inr (), (s', w)) \<and> follows c (ss_pending s) s' \<and> ss_pending s' \<in> ops"
begin

text \<open>
  What a run has led to: the responses are those of handling the requests in order, only the last of them can close the connection, and
  after it has been sent no read is started.
\<close>

definition in_order :: "http_request list \<Rightarrow> http_response list \<Rightarrow> 'w \<Rightarrow> session \<Rightarrow> 'w \<Rightarrow> bool" where
  "in_order qs ps w0 s w \<longleftrightarrow> handle_seq E rpc qs w0 = (ps, w) \<and> (\<forall>p \<in> set (butlast ps). \<not> need_eof p)
     \<and> (session_open s \<or> session_ended s) \<and> ss_pending s \<in> ops
     \<and> (\<forall>b. ss_pending s = P_write b \<longrightarrow> ps \<noteq> [] \<and> ss_res s = Some (last ps) \<and> b = need_eof (last ps))
     \<and> (ps \<noteq> [] \<and> need_eof (last ps) \<longrightarrow> ss_pending s \<in> {P_write True, P_shutdown, P_none})"

lemma enabled_open: "enabled c (ss_pending s) \<Longrightarrow> session_open s \<or> session_ended s \<Longrightarrow> session_open s"
  by (cases c) (auto simp: session_ended_def)

lemma run_refines:
  assumes "session_run begin_session complete w0 cs qs ps s w"
  shows "in_order qs ps w0 s w"
  using assms
proof induction
  case start
  then show ?case using begin_open by (auto simp: in_order_def)
next
  case (receive cs qs ps s w q r s' w')
  have o: "session_open s" using enabled_open receive by (auto simp: in_order_def)
  have "ss_pending s = P_read" using receive.hyps(2) by (cases "ss_pending s") auto
  with receive.IH have open': "\<forall>p \<in> set ps. \<not> need_eof p"
    by (cases ps rule: rev_cases) (auto simp: in_order_def)
  obtain p w1 where h: "handle E rpc q w = (Inr p, w1)" using handle_total [OF json] by blast
  from complete_receive [OF h o] receive.hyps(3)
  have "session_open s'" "ss_pending s' = P_write (need_eof p)" "ss_res s' = Some p" "w' = w1" "ss_pending s' \<in> ops" by auto
  then show ?case
    using handle_seq_snoc [OF json _ h] receive.IH open' by (auto simp: sent_def in_order_def)
next
  case (other cs qs ps s w c r s' w')
  have o: "session_open s" using enabled_open other by (auto simp: in_order_def)
  from complete_other [OF other.hyps(3,2) _ o, of w] other.hyps(4) other.IH
  have "w' = w" "follows c (ss_pending s) s'" "ss_pending s' \<in> ops" by (auto simp: in_order_def)
  then show ?case
    using other.IH other.hyps(2) by (auto simp: in_order_def follows_def session_ended_def)
qed

end

lemmas session_defs =
  serve_request_def send_lambda_def on_session_def session_fail_def dequeue_def received_def
  http_on_read_def http_on_write_def http_do_read_def http_do_close_def http_run_def
  https_on_read_def https_on_write_def https_do_read_def https_do_close_def https_run_def
  https_on_shutdown_def https_on_handshake_def

definition http_ops :: "pending set" where
  "http_ops = {P_none, P_read, P_write True, P_write False}"

lemma http_session_class:
  assumes "nlohmann_json E"
  shows "session_class E rpc need_eof http_ops (http_run new_session) (http_complete E rpc need_eof)"
proof (rule session_class.intro, goal_cases)
  case 1 show ?case by (rule assms)
next
  case 2 then show ?case by (simp add: http_run_def http_do_read_def new_session_def session_open_def)
next
  case 3 then show ?case by (simp add: http_run_def http_do_read_def http_ops_def)
next
  case (4 q w p w' s) then show ?case by (simp add: session_defs session_open_def http_ops_def)
next
  case (5 c s w)
  then show ?case
    by (cases "(c, ss_pending s)" rule: enabled.cases)
      (auto simp: session_defs is_received_def follows_def session_open_def session_ended_def write_close_def http_ops_def)
qed

lemma https_session_class:
  assumes "nlohmann_json E"
  shows "session_class E rpc need_eof UNIV (https_run new_session) (https_complete E rpc need_eof)"
proof (rule session_class.intro, goal_cases)
  case 1 show ?case by (rule assms)
next
  case 2 then show ?case by (simp add: https_run_def new_session_def session_open_def)
next
  case 3 then show ?case by (simp add: https_run_def)
next
  case (4 q w p w' s) then show ?case by (simp add: session_defs session_open_def)
next
  case (5 c s w)
  then show ?case
    by (cases "(c, ss_pending s)" rule: enabled.cases)
      (auto simp: session_defs is_received_def follows_def session_open_def session_ended_def write_close_def)
qed

interpretation http_ref: session_class "ref_env parse dump now" rpc need_eof http_ops "http_run new_session"
  "http_complete (ref_env parse dump now) rpc need_eof" for parse dump now rpc need_eof
  by (rule http_session_class [OF ref_env_json])

interpretation https_ref: session_class "ref_env parse dump now" rpc need_eof UNIV "https_run new_session"
  "https_complete (ref_env parse dump now) rpc need_eof" for parse dump now rpc need_eof
  by (rule https_session_class [OF ref_env_json])

section \<open>Properties\<close>

text \<open>
  (C38) Whatever the order in which the operations of a plain connection complete or fail, the
  responses the session sends are those of handling the received requests one after the other,
  in the order of their arrival, and so is the state of the database. Only the last response sent can be one that closes the connection: after
  such a response no read is started. While a response is being written, the session keeps it alive. Without a pending operation the session
  has ended, its sending side closed or a failure reported, and only then. (The requests are those the library's reads
  deliver; from the second on they read into a message that is not empty, \<open>http_read_not_empty\<close>.)
\<close>

theorem http_session_in_order:
  assumes "nlohmann_json E"
    and "session_run (http_run new_session) (http_complete E rpc need_eof) w0 cs qs ps s w"
  shows "handle_seq E rpc qs w0 = (ps, w) \<and> (\<forall>p \<in> set (butlast ps). \<not> need_eof p)
    \<and> (\<forall>b. ss_pending s = P_write b \<longrightarrow>
        ps \<noteq> [] \<and> ss_res s = Some (last ps) \<and> b = need_eof (last ps))
    \<and> (ps \<noteq> [] \<and> need_eof (last ps) \<longrightarrow> ss_pending s = P_write True \<or> ss_pending s = P_none)
    \<and> (ss_pending s = P_none \<longleftrightarrow> ss_closed s \<or> ss_failed s)"
  using session_class.run_refines [OF http_session_class [OF assms(1)] assms(2)]
  unfolding session_class.in_order_def [OF http_session_class [OF assms(1)]] session_open_def session_ended_def
  by (auto simp: http_ops_def)

text \<open>
  The run of a session that waits for a request, receives one, sends the answer, and then waits for the next request or,
  if the answer closes the connection, goes on to close it.
\<close>

lemma http_run_once:
  assumes "handle E rpc q w = (Inr p, w')"
  shows "session_run (http_run new_session) (http_complete E rpc need_eof) w [C_read Io_ok q, C_write Io_ok] [q] [p]
    (if need_eof p then new_session\<lparr>ss_req := Some q, ss_res := Some p, ss_closed := True\<rparr>
     else new_session\<lparr>ss_pending := P_read, ss_req := Some q\<rparr>) w'"
proof -
  let ?s = "new_session\<lparr>ss_pending := P_write (need_eof p), ss_req := Some q, ss_res := Some p\<rparr>"
  have "session_run (http_run new_session) (http_complete E rpc need_eof) w ([] @ [C_read Io_ok q]) ([] @ [q]) ([] @ sent ?s) ?s w'"
    by (rule session_run.receive [OF session_run.start])
      (use assms in \<open>auto simp: session_defs new_session_def\<close>)
  then have "session_run (http_run new_session) (http_complete E rpc need_eof) w [C_read Io_ok q] [q] [p] ?s w'"
    by (simp add: sent_def)
  from session_run.other [OF this, where c = "C_write Io_ok"] show ?thesis
    by (auto simp: session_defs write_close_def new_session_def is_received_def)
qed

definition bad_path_answer :: http_response where
  "bad_path_answer = new_http_response 403 11"

lemma bad_path_handle:
  "handle sample_env (api_router sample_env sample_db) (ping_http ''/'') w = (Inr bad_path_answer, w)"
  by (simp add: handle_def forbidden_def ping_http_def request_path_def api_router_path bad_path_answer_def)

theorem http_session_in_order_witness:
  "\<exists>cs s. session_run (http_run new_session) (http_complete sample_env (api_router sample_env sample_db) (\<lambda>_. True)) sample_world
      cs [ping_http ''/''] [bad_path_answer] s sample_world
    \<and> handle_seq sample_env (api_router sample_env sample_db) [ping_http ''/''] sample_world = ([bad_path_answer], sample_world)
    \<and> ss_pending s = P_none \<and> ss_closed s"
proof -
  have "nlohmann_json sample_env" by (simp add: sample_env_def ref_env_json)
  from http_session_in_order [OF this http_run_once [OF bad_path_handle [of sample_world], of "\<lambda>_. True"]]
    http_run_once [OF bad_path_handle [of sample_world], of "\<lambda>_. True"]
  show ?thesis by (intro exI) (auto simp: new_session_def)
qed

lemma https_read_empty:
  assumes "session_run (https_run new_session) (https_complete E rpc need_eof) w0 cs qs ps s w"
  shows "ss_pending s = P_read \<longrightarrow> ss_req s = None"
  using assms
proof induction
  case start
  then show ?case by (simp add: https_run_def)
next
  case (receive cs qs ps s w q r s' w')
  then show ?case by (auto simp: session_defs split: prod.splits sum.splits)
next
  case (other cs qs ps s w c r s' w')
  then show ?case
    by (cases "(c, ss_pending s)" rule: enabled.cases) (auto simp: session_defs is_received_def split: if_splits)
qed

text \<open>The handshake comes first, and nothing after it if it fails.\<close>

definition handshake_first :: "completion list \<Rightarrow> session \<Rightarrow> bool" where
  "handshake_first cs s \<longleftrightarrow>
     (case cs of [] \<Rightarrow> ss_pending s = P_handshake
      | c # cs' \<Rightarrow> c = C_handshake Io_ok \<and> ss_pending s \<noteq> P_handshake
          \<or> (\<exists>e. e \<noteq> Io_ok \<and> c = C_handshake e \<and> cs' = [] \<and> ss_pending s = P_none \<and> ss_failed s))"

lemma https_handshake_first:
  assumes "session_run (https_run new_session) (https_complete E rpc need_eof) w0 cs qs ps s w"
  shows "handshake_first cs s"
  using assms
proof induction
  case start
  then show ?case by (simp add: https_run_def handshake_first_def)
next
  case (receive cs qs ps s w q r s' w')
  have p: "ss_pending s = P_read" using receive.hyps(2) by (cases "ss_pending s") auto
  have "ss_pending s' \<noteq> P_handshake" using receive.hyps(3) p by (auto simp: session_defs split: prod.splits sum.splits)
  with p receive.IH show ?case by (cases cs) (auto simp: handshake_first_def)
next
  case (other cs qs ps s w c r s' w')
  from other.hyps(2,4) consider e where "c = C_handshake e" "ss_pending s = P_handshake" "s' = https_on_handshake e (dequeue s)"
    | "ss_pending s \<notin> {P_handshake, P_none}" "ss_pending s' \<noteq> P_handshake"
    using other.hyps(3)
    by (cases "(c, ss_pending s)" rule: enabled.cases) (auto simp: session_defs is_received_def split: if_splits)
  then show ?case
  proof cases
    case 1
    then have "cs = []" using other.IH by (cases cs) (auto simp: handshake_first_def)
    with 1 show ?thesis by (auto simp: handshake_first_def session_defs)
  next
    case 2
    then show ?thesis using other.IH by (cases cs) (auto simp: handshake_first_def)
  qed
qed

text \<open>
  (C39) The same for a TLS connection, which closes by a shutdown of its own. In addition the first completion of a session is that of its handshake, with which a
  session that fails in it ends, without a request; and every read starts with an empty request.
\<close>

theorem https_session_in_order:
  assumes "nlohmann_json E"
    and "session_run (https_run new_session) (https_complete E rpc need_eof) w0 cs qs ps s w"
  shows "handle_seq E rpc qs w0 = (ps, w) \<and> (\<forall>p \<in> set (butlast ps). \<not> need_eof p)
    \<and> (\<forall>b. ss_pending s = P_write b \<longrightarrow>
        ps \<noteq> [] \<and> ss_res s = Some (last ps) \<and> b = need_eof (last ps))
    \<and> (ps \<noteq> [] \<and> need_eof (last ps) \<longrightarrow> ss_pending s \<in> {P_write True, P_shutdown, P_none})
    \<and> (ss_pending s = P_none \<longleftrightarrow> ss_closed s \<or> ss_failed s)
    \<and> (ss_pending s = P_read \<longrightarrow> ss_req s = None)
    \<and> (case cs of [] \<Rightarrow> ss_pending s = P_handshake
       | c # cs' \<Rightarrow> c = C_handshake Io_ok \<and> ss_pending s \<noteq> P_handshake
           \<or> (\<exists>e. e \<noteq> Io_ok \<and> c = C_handshake e \<and> cs' = [] \<and> ss_pending s = P_none \<and> ss_failed s))"
  using session_class.run_refines [OF https_session_class [OF assms(1)] assms(2)] https_read_empty [OF assms(2)]
    https_handshake_first [OF assms(2)]
  unfolding session_class.in_order_def [OF https_session_class [OF assms(1)]] session_open_def session_ended_def handshake_first_def
  by blast

lemma https_run_once:
  assumes "handle E rpc q w = (Inr p, w')" and "need_eof p"
  shows "session_run (https_run new_session) (https_complete E rpc need_eof) w [C_handshake Io_ok, C_read Io_ok q, C_write Io_ok] [q] [p]
    (new_session\<lparr>ss_pending := P_shutdown, ss_req := Some q, ss_res := Some p\<rparr>) w'"
proof -
  let ?run = "session_run (https_run new_session) (https_complete E rpc need_eof) w"
  let ?s = "new_session\<lparr>ss_pending := P_write True, ss_req := Some q, ss_res := Some p\<rparr>"
  from session_run.other [OF session_run.start [of "https_run new_session" "https_complete E rpc need_eof" w], where c = "C_handshake Io_ok"]
  have 1: "?run [C_handshake Io_ok] [] [] (new_session\<lparr>ss_pending := P_read\<rparr>) w"
    by (auto simp: session_defs is_received_def new_session_def)
  have "?run ([C_handshake Io_ok] @ [C_read Io_ok q]) ([] @ [q]) ([] @ sent ?s) ?s w'"
    by (rule session_run.receive [OF 1]) (use assms in \<open>auto simp: session_defs new_session_def\<close>)
  then have 2: "?run [C_handshake Io_ok, C_read Io_ok q] [q] [p] ?s w'" by (simp add: sent_def)
  from session_run.other [OF 2, where c = "C_write Io_ok"] show ?thesis
    by (auto simp: session_defs write_close_def new_session_def is_received_def)
qed

theorem https_session_in_order_witness:
  "\<exists>cs s. session_run (https_run new_session) (https_complete sample_env (api_router sample_env sample_db) (\<lambda>_. True)) sample_world
      (C_handshake Io_ok # cs) [ping_http ''/''] [bad_path_answer] s sample_world
    \<and> handle_seq sample_env (api_router sample_env sample_db) [ping_http ''/''] sample_world = ([bad_path_answer], sample_world)
    \<and> ss_pending s = P_shutdown"
proof -
  let ?s = "new_session\<lparr>ss_pending := P_shutdown, ss_req := Some (ping_http ''/''), ss_res := Some bad_path_answer\<rparr>"
  have json: "nlohmann_json sample_env" by (simp add: sample_env_def ref_env_json)
  have run: "session_run (https_run new_session) (https_complete sample_env (api_router sample_env sample_db) (\<lambda>_. True)) sample_world
      [C_handshake Io_ok, C_read Io_ok (ping_http ''/''), C_write Io_ok] [ping_http ''/''] [bad_path_answer] ?s sample_world"
    by (rule https_run_once [OF bad_path_handle]) simp
  moreover have "handle_seq sample_env (api_router sample_env sample_db) [ping_http ''/''] sample_world = ([bad_path_answer], sample_world)"
    by (rule conjunct1 [OF https_session_in_order [OF json run]])
  moreover have "ss_pending ?s = P_shutdown" by simp
  ultimately show ?thesis by blast
qed

text \<open>
  A plain session, unlike a TLS session, starts its second read into the request of the first
  one: there is a run after which a read is pending while the request is not empty.
\<close>

lemma http_read_not_empty:
  "\<exists>cs qs ps s w. session_run (http_run new_session)
      (http_complete sample_env (api_router sample_env sample_db) (\<lambda>_. False)) sample_world cs qs ps s w
    \<and> ss_pending s = P_read \<and> ss_req s \<noteq> None"
  using http_run_once [OF bad_path_handle [of sample_world], of "\<lambda>_. False"]
  by (intro exI conjI) (assumption | simp add: new_session_def)+

end
