(* ===== verification/Server.thy ===== *)
theory Server
  imports Session
begin

text \<open>
  The listeners and the server: \<^verbatim>\<open>backend/jsonrpc/http/listener.cpp\<close>, \<^verbatim>\<open>https/listener.cpp\<close>, \<^verbatim>\<open>server.cpp\<close>. The calls on the
  acceptor belong to the operating system: they return an error code and may change the world. The router
  is shared by reference between server, listener and sessions, so the server holds the one there is;
  a listener only records what the program can see of its acceptor, the sessions it has started,
  and whether the process was ended.
\<close>

section \<open>Listeners\<close>

record 'w net =
  acceptor_open :: "'w \<Rightarrow> io_error \<times> 'w"
  acceptor_set_option :: "'w \<Rightarrow> io_error \<times> 'w"
  acceptor_bind :: "string \<Rightarrow> 16 word \<Rightarrow> 'w \<Rightarrow> io_error \<times> 'w"
  acceptor_listen :: "'w \<Rightarrow> io_error \<times> 'w"
  make_address :: "string \<Rightarrow> string option" \<comment> \<open>\<open>None\<close>: it raises \<^verbatim>\<open>system_error\<close>\<close>

record listener =
  li_open :: bool \<comment> \<open>\<^verbatim>\<open>acceptor_.is_open()\<close>\<close>
  li_failed :: "string option" \<comment> \<open>the text of the last \<^verbatim>\<open>fail\<close>\<close>
  li_accepting :: bool \<comment> \<open>an accept is pending\<close>
  li_sessions :: "session list"
  li_exited :: bool \<comment> \<open>\<^verbatim>\<open>exit(EXIT_FAILURE)\<close> was called\<close>

definition closed_listener :: listener where
  "closed_listener = \<lparr>li_open = False, li_failed = None, li_accepting = False, li_sessions = [], li_exited = False\<rparr>"

definition new_http_listener :: "'w net \<Rightarrow> string \<Rightarrow> 16 word \<Rightarrow> 'w \<Rightarrow> listener \<times> 'w" where
  "new_http_listener N address port w =
     (case acceptor_open N w of (ec, w) \<Rightarrow>
      if ec \<noteq> Io_ok then (closed_listener\<lparr>li_failed := Some ''open''\<rparr>, w)
      else case acceptor_bind N address port w of (ec, w) \<Rightarrow>
      if ec \<noteq> Io_ok then (closed_listener\<lparr>li_open := True, li_failed := Some ''bind''\<rparr>, w)
      else case acceptor_listen N w of (ec, w) \<Rightarrow>
      if ec \<noteq> Io_ok then (closed_listener\<lparr>li_open := True, li_failed := Some ''listen''\<rparr>, w)
      else (closed_listener\<lparr>li_open := True\<rparr>, w))"

definition new_https_listener :: "'w net \<Rightarrow> string \<Rightarrow> 16 word \<Rightarrow> 'w \<Rightarrow> listener \<times> 'w" where
  "new_https_listener N address port w =
     (case acceptor_open N w of (ec, w) \<Rightarrow>
      if ec \<noteq> Io_ok then (closed_listener\<lparr>li_failed := Some ''open''\<rparr>, w)
      else case acceptor_set_option N w of (ec, w) \<Rightarrow>
      if ec \<noteq> Io_ok then (closed_listener\<lparr>li_open := True, li_failed := Some ''set_option''\<rparr>, w)
      else case acceptor_bind N address port w of (ec, w) \<Rightarrow>
      if ec \<noteq> Io_ok then (closed_listener\<lparr>li_open := True, li_failed := Some ''bind''\<rparr>, w)
      else case acceptor_listen N w of (ec, w) \<Rightarrow>
      if ec \<noteq> Io_ok then (closed_listener\<lparr>li_open := True, li_failed := Some ''listen''\<rparr>, w)
      else (closed_listener\<lparr>li_open := True\<rparr>, w))"

definition do_accept :: "listener \<Rightarrow> listener" where
  "do_accept l = l\<lparr>li_accepting := True\<rparr>"

definition http_on_accept :: "io_error \<Rightarrow> listener \<Rightarrow> listener" where
  "http_on_accept ec l =
     (if ec \<noteq> Io_ok then l\<lparr>li_failed := Some ''accept'', li_exited := True\<rparr>
      else do_accept (l\<lparr>li_sessions := li_sessions l @ [http_run new_session]\<rparr>))"

definition https_on_accept :: "io_error \<Rightarrow> listener \<Rightarrow> listener" where
  "https_on_accept ec l =
     do_accept (if ec \<noteq> Io_ok then l\<lparr>li_failed := Some ''accept''\<rparr>
                else l\<lparr>li_sessions := li_sessions l @ [https_run new_session]\<rparr>)"

definition listener_run :: "listener \<Rightarrow> listener" where
  "listener_run l = (if li_open l then do_accept l else l)"

text \<open>The accepts of a running listener complete one after the other.\<close>

definition accept_completes :: "(io_error \<Rightarrow> listener \<Rightarrow> listener) \<Rightarrow> io_error \<Rightarrow> listener \<Rightarrow> listener" where
  "accept_completes h ec l = (if li_accepting l \<and> \<not> li_exited l then h ec (l\<lparr>li_accepting := False\<rparr>) else l)"

definition accepts :: "(io_error \<Rightarrow> listener \<Rightarrow> listener) \<Rightarrow> io_error list \<Rightarrow> listener \<Rightarrow> listener" where
  "accepts h ecs l = foldl (\<lambda>l ec. accept_completes h ec l) l ecs"

section \<open>The server\<close>

record 'w server =
  sv_db :: db
  sv_address :: string
  sv_port :: "16 word"
  sv_listener :: listener
  sv_router :: "'w rpc_router"

definition server_create ::
  "'w net \<Rightarrow> db \<Rightarrow> string \<Rightarrow> 16 word \<Rightarrow> string \<Rightarrow> string \<Rightarrow> 'w \<Rightarrow> 'w server option \<times> 'w" where
  "server_create N d bind_address port version target w =
     (case make_address N bind_address of None \<Rightarrow> (None, w)
      | Some address \<Rightarrow>
          let router = router_create d version target in
          case new_http_listener N address port w of (l, w) \<Rightarrow>
          (Some \<lparr>sv_db = d, sv_address = address, sv_port = port, sv_listener = l, sv_router = router\<rparr>, w))"

definition server_get_router :: "'w server \<Rightarrow> 'w rpc_router" where
  "server_get_router s = sv_router s"

text \<open>Up to the event loop.\<close>

definition server_run :: "'w server \<Rightarrow> 'w server" where
  "server_run s = s\<lparr>sv_listener := listener_run (sv_listener s)\<rparr>"

section \<open>Connections and errors\<close>

lemma http_accepts:
  assumes "li_accepting l" "\<not> li_exited l"
  shows "li_sessions (accepts http_on_accept ecs l)
      = li_sessions l @ replicate (length (takeWhile (\<lambda>ec. ec = Io_ok) ecs)) (http_run new_session)
    \<and> (li_exited (accepts http_on_accept ecs l) \<longleftrightarrow> (\<exists>ec \<in> set ecs. ec \<noteq> Io_ok))"
  using assms
proof (induction ecs arbitrary: l)
  case Nil
  then show ?case by (simp add: accepts_def)
next
  case (Cons ec ecs)
  show ?case
  proof (cases "ec = Io_ok")
    case True
    let ?l = "l\<lparr>li_sessions := li_sessions l @ [http_run new_session], li_accepting := True\<rparr>"
    have "accepts http_on_accept (ec # ecs) l = accepts http_on_accept ecs ?l"
      using True Cons.prems by (simp add: accepts_def accept_completes_def http_on_accept_def do_accept_def)
    with Cons.IH [of ?l] True Cons.prems show ?thesis by simp
  next
    case False
    have "accepts http_on_accept ecs l' = l'" if "li_exited l'" for l'
      using that by (induction ecs) (simp_all add: accepts_def accept_completes_def)
    note stop = this [of "l\<lparr>li_accepting := False, li_failed := Some ''accept'', li_exited := True\<rparr>"]
    have "accepts http_on_accept (ec # ecs) l
        = accepts http_on_accept ecs (l\<lparr>li_accepting := False, li_failed := Some ''accept'', li_exited := True\<rparr>)"
      using False Cons.prems by (simp add: accepts_def accept_completes_def http_on_accept_def)
    with stop False show ?thesis by simp
  qed
qed

lemma https_accepts:
  assumes "li_accepting l" "\<not> li_exited l"
  shows "li_sessions (accepts https_on_accept ecs l)
      = li_sessions l @ replicate (length (filter (\<lambda>ec. ec = Io_ok) ecs)) (https_run new_session)
    \<and> li_accepting (accepts https_on_accept ecs l) \<and> \<not> li_exited (accepts https_on_accept ecs l)"
  using assms
proof (induction ecs arbitrary: l)
  case Nil
  then show ?case by (simp add: accepts_def)
next
  case (Cons ec ecs)
  let ?l = "https_on_accept ec (l\<lparr>li_accepting := False\<rparr>)"
  have "accepts https_on_accept (ec # ecs) l = accepts https_on_accept ecs ?l"
    using Cons.prems by (simp add: accepts_def accept_completes_def)
  moreover have "li_accepting ?l" "\<not> li_exited ?l" using Cons.prems by (simp_all add: https_on_accept_def do_accept_def)
  moreover have "li_sessions ?l = li_sessions l @ (if ec = Io_ok then [https_run new_session] else [])"
    by (simp add: https_on_accept_def do_accept_def)
  ultimately show ?case using Cons.IH [of ?l] by simp
qed

text \<open>
  (C22) Failed accepts: the plain listener starts one session for every accept before the first failure, and that
  failure ends the whole process; the TLS listener starts one for every accept that succeeds, and a
  failure changes nothing else: it goes on accepting.
\<close>

theorem listeners_on_failure:
  assumes "li_open l" and "\<not> li_exited l"
  shows "li_sessions (accepts http_on_accept ecs (listener_run l))
      = li_sessions l @ replicate (length (takeWhile (\<lambda>ec. ec = Io_ok) ecs)) (http_run new_session)
    \<and> (li_exited (accepts http_on_accept ecs (listener_run l)) \<longleftrightarrow> \<not> set ecs \<subseteq> {Io_ok})
    \<and> li_sessions (accepts https_on_accept ecs (listener_run l))
      = li_sessions l @ replicate (length (filter (\<lambda>ec. ec = Io_ok) ecs)) (https_run new_session)
    \<and> li_accepting (accepts https_on_accept ecs (listener_run l))
    \<and> \<not> li_exited (accepts https_on_accept ecs (listener_run l))"
  using http_accepts [of "listener_run l" ecs] https_accepts [of "listener_run l" ecs] assms
  by (auto simp: listener_run_def do_accept_def)

theorem listeners_on_failure_witness:
  "li_exited (accepts http_on_accept [Io_ok, Io_error, Io_ok] (listener_run (closed_listener\<lparr>li_open := True\<rparr>)))
    \<and> length (li_sessions (accepts https_on_accept [Io_ok, Io_error, Io_ok] (listener_run (closed_listener\<lparr>li_open := True\<rparr>)))) = 2"
  using listeners_on_failure [of "closed_listener\<lparr>li_open := True\<rparr>" "[Io_ok, Io_error, Io_ok]"] by (simp add: closed_listener_def)

end
