(* ===== verification/Transactions.thy ===== *)
theory Transactions
  imports Db
begin

text \<open>
  The transaction half of the indexing pipeline: \<^verbatim>\<open>common/src/db/transactions/transactions.cpp\<close>, which turns
  the transactions of a block into rows of the processing table and entries of the wallets, and
  \<^verbatim>\<open>common/src/db/transactions/processing.cpp\<close>, the worker that moves the rows to the transactions table and
  numbers them.

  Work handed to a dispatch queue is kept in the state as a list of tasks: the two kinds of task of
  \<open>add_transactions\<close> and the wallets whose state is to be fetched. A queue has several threads, so
  the tasks may run in any order; each runs without interference here.
\<close>

section \<open>State\<close>

datatype task = Wallet_task json uint256 time_t | Stream_task json uint256 time_t

record 'w pstate =
  ps_world :: 'w
  ps_tasks :: "task list" \<comment> \<open>\<^verbatim>\<open>transactions_queue_\<close>\<close>
  ps_wallets :: "string list" \<comment> \<open>\<^verbatim>\<open>state_queue\<close>, by public key\<close>
  ps_prev_bid :: uint64 \<comment> \<open>\<^verbatim>\<open>prev_bid\<close> of the worker loop\<close>

definition on_db :: "('w, 'a) prog \<Rightarrow> ('w pstate, 'a) prog" where
  "on_db m = (\<lambda>s. case m (ps_world s) of (r, w') \<Rightarrow> (r, s\<lparr>ps_world := w'\<rparr>))"

definition push_task :: "task \<Rightarrow> ('w pstate, unit) prog" where
  "push_task t = modifyP (\<lambda>s. s\<lparr>ps_tasks := ps_tasks s @ [t]\<rparr>)"

definition update_wallet_state :: "string \<Rightarrow> ('w pstate, unit) prog" where
  "update_wallet_state public_key = modifyP (\<lambda>s. s\<lparr>ps_wallets := ps_wallets s @ [public_key]\<rparr>)"

section \<open>Keys of a transaction\<close>

definition replace_keys :: "'e json_lib_scheme \<Rightarrow> string \<Rightarrow> string \<Rightarrow> json \<Rightarrow> json result" where
  "replace_keys L key_from key_to trx =
     (if 0 < count_key trx key_from
      then bindE (jl_index L trx key_from) (\<lambda>v.
           bindE (jl_set L trx key_to v) (\<lambda>trx.
           jl_erase L trx key_from))
      else Inr trx)"

text \<open>A \<^verbatim>\<open>std::map\<close>: the entries sorted by key, \<open>map_set\<close> the assignment to one.\<close>

fun map_set :: "string \<Rightarrow> 'v \<Rightarrow> (string \<times> 'v) list \<Rightarrow> (string \<times> 'v) list" where
  "map_set k v [] = [(k, v)]"
| "map_set k v ((k', v') # m) =
     (if k = k' then (k, v) # m
      else if k < k' then (k, v) # (k', v') # m
      else (k', v') # map_set k v m)"

definition trx_key :: "string \<Rightarrow> string \<Rightarrow> string \<Rightarrow> string" where
  "trx_key address block_id trx_id = address @ '':'' @ block_id @ '':'' @ trx_id"

fun find_keys :: "'e json_lib_scheme \<Rightarrow> json \<Rightarrow> string \<Rightarrow> string list \<Rightarrow> (string \<times> string) list
    \<Rightarrow> (string \<times> string) list result" where
  "find_keys L trx block_id [] m = Inr m"
| "find_keys L trx block_id (name # names) m =
     (if count_key trx name = 0 then find_keys L trx block_id names m
      else bindE (bindE (const_index L trx name) (jl_get_string L)) (\<lambda>address.
           bindE (bindE (const_index L trx ''transaction-id'') (jl_get_string L)) (\<lambda>trx_id.
           find_keys L trx block_id names (map_set address (trx_key address block_id trx_id) m))))"

definition find_public_keys :: "'e json_lib_scheme \<Rightarrow> json \<Rightarrow> string \<Rightarrow> (string \<times> string) list result" where
  "find_public_keys L trx block_id = find_keys L trx block_id [''from'', ''public-key''] []"

section \<open>Rows of the transaction stream\<close>

fun replace_all :: "'e json_lib_scheme \<Rightarrow> (string \<times> string) list \<Rightarrow> json \<Rightarrow> json result" where
  "replace_all L [] trx = Inr trx"
| "replace_all L ((key_from, key_to) # ks) trx = bindE (replace_keys L key_from key_to trx) (replace_all L ks)"

definition stream_transaction_id :: "'e json_lib_scheme \<Rightarrow> json \<Rightarrow> json result" where
  "stream_transaction_id L trx =
     bindE (jl_index L trx ''transaction-id'') (\<lambda>i.
     if is_string i then bindE (jl_get_string L i) (\<lambda>s. jl_set L trx ''transaction-id'' (JStr s))
     else if is_number i then jl_set L trx ''transaction-id'' (JStr (jl_dump L None i))
     else Inr trx)"

definition stream_description :: "'e json_lib_scheme \<Rightarrow> nat \<Rightarrow> json \<Rightarrow> json result" where
  "stream_description L max_length trx =
     (if 0 < count_key trx ''description''
      then bindE (bindE (jl_index L trx ''description'') (jl_get_string L)) (\<lambda>desc.
           jl_set L trx ''description'' (JStr (take (min (length desc) max_length) desc)))
      else Inr trx)"

definition stream_row :: "'e mile_lib_scheme \<Rightarrow> string \<Rightarrow> string \<Rightarrow> time_t \<Rightarrow> json \<Rightarrow> json result" where
  "stream_row L uniq_id block_id t trx =
     bindE (jl_set L trx ''id'' (JStr uniq_id)) (\<lambda>trx.
     bindE (stoull block_id) (\<lambda>b.
     bindE (jl_set L trx ''block-id'' (JUint b)) (\<lambda>trx.
     bindE (jl_set L trx ''timestamp'' (JInt t)) (\<lambda>trx.
     bindE (stream_transaction_id L trx) (\<lambda>trx.
     bindE (replace_all L get_replacement_keys trx) (\<lambda>trx.
     stream_description L (description_max_length L) trx))))))"

text \<open>
  The loop over the keys: \<open>trx\<close> is changed in place from one key to the next, and a row keyed by the
  number of the block (not by the key of the transaction) makes the loop skip.
\<close>

fun stream_entries :: "('w, 'e) env_scheme \<Rightarrow> db \<Rightarrow> string \<Rightarrow> time_t \<Rightarrow> (string \<times> string) list
    \<Rightarrow> json \<Rightarrow> json \<Rightarrow> uint64 \<Rightarrow> ('w, json \<times> uint64) prog" where
  "stream_entries E d block_id t [] trx out n = ret (out, n)"
| "stream_entries E d block_id t (entry # entries) trx out n =
     bindP (get_data E (cursor_get block_id None (table_cursor True (open_table d t_transactions_processing)))) (\<lambda>row.
     if 0 < count_key row ''id'' then stream_entries E d block_id t entries trx out n
     else
       bindP (lift (stream_row E (snd entry) block_id t trx)) (\<lambda>trx'.
       bindP (lift (jl_push_back E out trx')) (\<lambda>out'.
       stream_entries E d block_id t entries trx' out' (n + 1))))"

definition add_stream_transaction ::
  "('w, 'e) env_scheme \<Rightarrow> db \<Rightarrow> json \<Rightarrow> uint256 \<Rightarrow> time_t \<Rightarrow> json \<Rightarrow> ('w, json \<times> uint64) prog" where
  "add_stream_transaction E d trx block_id t out =
     (let i = UInt256ToDecString E block_id in
      bindP (lift (find_public_keys E trx i)) (\<lambda>entries.
      stream_entries E d i t entries trx out 0))"

fun stream_all :: "('w, 'e) env_scheme \<Rightarrow> db \<Rightarrow> json list \<Rightarrow> uint256 \<Rightarrow> time_t \<Rightarrow> json \<Rightarrow> ('w, json) prog" where
  "stream_all E d [] block_id t out = ret out"
| "stream_all E d (trx # trxs) block_id t out =
     bindP (add_stream_transaction E d trx block_id t out) (\<lambda>(out', n).
     stream_all E d trxs block_id t out')"

section \<open>Wallets\<close>

definition wallet_entry :: "'e json_lib_scheme \<Rightarrow> json \<Rightarrow> string \<Rightarrow> uint64 \<Rightarrow> time_t \<Rightarrow> json result" where
  "wallet_entry L trx key b t =
     bindE (const_index L trx ''digest'') (\<lambda>digest.
     bindE (const_index L trx ''transaction-type'') (\<lambda>ty.
     Inr (obj [(''id'', JStr key), (''block-id'', JUint b), (''digest'', digest),
               (''transaction-type'', ty), (''timestamp'', JInt t)])))"

definition add_wallet_transaction ::
  "('w, 'e) env_scheme \<Rightarrow> db \<Rightarrow> json \<Rightarrow> uint256 \<Rightarrow> time_t \<Rightarrow> ('w pstate, unit) prog" where
  "add_wallet_transaction E d trx block_id t =
     (let i = UInt256ToDecString E block_id in
      bindP (lift (stoull i)) (\<lambda>b.
      bindP (lift (jl_push_back E JNull (JUint b))) (\<lambda>blocks.
      bindP (lift (find_public_keys E trx i)) (\<lambda>entries.
      forP entries (\<lambda>entry.
        bindP (lift (bindE (wallet_entry E trx (snd entry) b t) (jl_push_back E JNull))) (\<lambda>transactions_col.
        let columns = [(''blocks'', blocks), (''transactions'', transactions_col)] in
        bindP (on_db (table_update_columns E (fst entry) columns (open_table d t_wallets))) (\<lambda>_.
        bindP (update_wallet_state (fst entry)) (\<lambda>_.
        if 0 < count_key trx ''to''
        then
          bindP (lift (bindE (const_index E trx ''to'') (jl_get_string E))) (\<lambda>k.
          bindP (on_db (table_update_columns E k columns (open_table d t_wallets))) (\<lambda>_.
          update_wallet_state k))
        else ret ()))))))))"

section \<open>Tasks\<close>

text \<open>A block without a transaction array leaves a marker row, so that the worker sees its number.\<close>

definition marker_row :: "'e json_lib_scheme \<Rightarrow> string \<Rightarrow> time_t \<Rightarrow> json result" where
  "marker_row L block_id t =
     bindE (stoull block_id) (\<lambda>b.
     assign L JNull [(''id'', JStr block_id), (''block-id'', JUint b),
                     (''transaction-type'', JStr ''__processing__''), (''timestamp'', JInt t)])"

definition add_transactions ::
  "('w, 'e) env_scheme \<Rightarrow> db \<Rightarrow> json \<Rightarrow> uint256 \<Rightarrow> time_t \<Rightarrow> ('w pstate, unit) prog" where
  "add_transactions E d transactions block_id t =
     (if is_array transactions
      then bindP (push_task (Wallet_task transactions block_id t)) (\<lambda>_.
           push_task (Stream_task transactions block_id t))
      else bindP (lift (marker_row E (UInt256ToDecString E block_id) t)) (\<lambda>stream.
           on_db (table_insert E stream (open_table d t_transactions_processing))))"

fun run_task :: "('w, 'e) env_scheme \<Rightarrow> db \<Rightarrow> task \<Rightarrow> ('w pstate, unit) prog" where
  "run_task E d (Wallet_task transactions block_id t) =
     forP (items transactions) (\<lambda>trx. add_wallet_transaction E d trx block_id t)"
| "run_task E d (Stream_task transactions block_id t) =
     on_db (bindP (stream_all E d (items transactions) block_id t JNull) (\<lambda>stream.
       table_insert E stream (open_table d t_transactions_processing)))"

section \<open>The transaction worker\<close>

datatype trx_next = Trx_break | Trx_continue uint64 \<comment> \<open>with the next serial number\<close>

definition update_state :: "('w, 'e) env_scheme \<Rightarrow> db \<Rightarrow> uint64 \<Rightarrow> uint64 \<Rightarrow> ('w pstate, unit) prog" where
  "update_state E d n block_id =
     on_db (table_update E
       (obj [(''id'', JStr ''state''), (''count'', JUint n), (''block-id'', JUint block_id)])
       (open_table d t_transactions_state))"

definition set_prev_bid :: "uint64 \<Rightarrow> ('w pstate, unit) prog" where
  "set_prev_bid b = modifyP (\<lambda>s. s\<lparr>ps_prev_bid := b\<rparr>)"

definition remove_processing :: "('w, 'e) env_scheme \<Rightarrow> db \<Rightarrow> string \<Rightarrow> ('w pstate, unit) prog" where
  "remove_processing E d trxid =
     on_db (bindP (cursor_remove_id E trxid (table_cursor True (open_table d t_transactions_processing))) (\<lambda>_. ret ()))"

definition skip_marker :: "('w, 'e) env_scheme \<Rightarrow> db \<Rightarrow> uint64 \<Rightarrow> string \<Rightarrow> uint64 \<Rightarrow> ('w pstate, trx_next) prog" where
  "skip_marker E d bid trxid last_count =
     bindP (set_prev_bid bid) (\<lambda>_.
     bindP (remove_processing E d trxid) (\<lambda>_.
     ret (Trx_continue last_count)))"

definition index_item ::
  "('w, 'e) env_scheme \<Rightarrow> db \<Rightarrow> json \<Rightarrow> uint64 \<Rightarrow> string \<Rightarrow> uint64 \<Rightarrow> ('w pstate, trx_next) prog" where
  "index_item E d item bid trxid last_count =
     bindP (set_prev_bid bid) (\<lambda>_.
     bindP (on_db (get_data E (cursor_get trxid None (table_cursor True (open_table d t_transactions))))) (\<lambda>row.
     if 0 < count_key row ''id''
     then bindP (remove_processing E d trxid) (\<lambda>_. ret (Trx_continue last_count))
     else
       bindP (lift (jl_set E item ''serial'' (JUint last_count))) (\<lambda>item'.
       bindP (on_db (table_insert E item' (open_table d t_transactions))) (\<lambda>_.
       bindP (update_state E d (last_count + 1) bid) (\<lambda>_.
       bindP (remove_processing E d trxid) (\<lambda>_.
       ret (Trx_continue (last_count + 1))))))))"

definition trx_item :: "('w, 'e) env_scheme \<Rightarrow> db \<Rightarrow> json \<Rightarrow> uint64 \<Rightarrow> ('w pstate, trx_next) prog" where
  "trx_item E d item last_count =
     bindP (lift (bindE (jl_index E item ''block-id'') (jl_get_u64 E))) (\<lambda>bid.
     bindP (lift (bindE (jl_index E item ''id'') (jl_get_string E))) (\<lambda>trxid.
     bindP (getP ps_prev_bid) (\<lambda>prev_bid.
     bindP (lift (jl_at E item ''transaction-type'')) (\<lambda>ty.
     if 0 < prev_bid
     then
       if ty = JStr ''__processing__'' then skip_marker E d bid trxid last_count
       else if 1 < bid - prev_bid then bindP (set_prev_bid bid) (\<lambda>_. ret Trx_break)
       else index_item E d item bid trxid last_count
     else if ty = JStr ''__processing__'' then skip_marker E d bid trxid last_count
     else index_item E d item bid trxid last_count))))"

fun trx_items :: "('w, 'e) env_scheme \<Rightarrow> db \<Rightarrow> json list \<Rightarrow> uint64 \<Rightarrow> ('w pstate, unit) prog" where
  "trx_items E d [] last_count = ret ()"
| "trx_items E d (item # rest) last_count =
     bindP (trx_item E d item last_count) (\<lambda>r.
     case r of Trx_break \<Rightarrow> ret () | Trx_continue n \<Rightarrow> trx_items E d rest n)"

text \<open>One round of the worker loop; every exception ends the round and is logged.\<close>

definition read_count :: "('w, 'e) env_scheme \<Rightarrow> db \<Rightarrow> ('w pstate, uint64) prog" where
  "read_count E d =
     catchP (on_db (get_transaction_history_state E d))
       (\<lambda>_. bindP (update_state E d 0 0) (\<lambda>_. ret 0))"

definition transactions_pass :: "('w, 'e) env_scheme \<Rightarrow> db \<Rightarrow> ('w pstate, unit) prog" where
  "transactions_pass E d =
     catchP
       (bindP (on_db (get_data E (cursor_sort ''block-id'' (table_cursor True (open_table d t_transactions_processing))))) (\<lambda>js.
        bindP (read_count E d) (\<lambda>last_count.
        trx_items E d (items js) last_count)))
       (\<lambda>_. ret ())"

section \<open>The worker on the level of rows\<close>

text \<open>
  The specification of a round: what it does to the tables, a function of the rows alone. It
  answers how the loop goes on, the new \<open>prev_bid\<close> and the new tables. An item without a type ends
  the round.
\<close>

type_synonym tables = "string \<Rightarrow> row_map"

definition state_members :: "uint64 \<Rightarrow> uint64 \<Rightarrow> (string \<times> json) list" where
  "state_members n b = [(''block-id'', JUint b), (''count'', JUint n), (''id'', JStr ''state'')]"

definition state_row :: "json option \<Rightarrow> uint64 \<Rightarrow> uint64 \<Rightarrow> json" where
  "state_row old n b = (case old of
     None \<Rightarrow> JObj (state_members n b)
   | Some r \<Rightarrow> JObj (merge_members (members r) (state_members n b)))"

definition set_state :: "uint64 \<Rightarrow> uint64 \<Rightarrow> tables \<Rightarrow> tables" where
  "set_state n b T =
     T(t_transactions_state := (T t_transactions_state)(''state'' \<mapsto> state_row (T t_transactions_state ''state'') n b))"

definition drop_row :: "string \<Rightarrow> string \<Rightarrow> tables \<Rightarrow> tables" where
  "drop_row t i T = T(t := (T t)(i := None))"

definition numbered :: "json \<Rightarrow> uint64 \<Rightarrow> json" where
  "numbered item n = JObj (put ''serial'' (JUint n) (members item))"

definition add_numbered :: "string \<Rightarrow> json \<Rightarrow> uint64 \<Rightarrow> tables \<Rightarrow> tables" where
  "add_numbered i item n T = T(t_transactions := (T t_transactions)(i \<mapsto> numbered item n))"

definition spec_item :: "json \<Rightarrow> uint64 \<Rightarrow> uint64 \<Rightarrow> tables \<Rightarrow> trx_next \<times> uint64 \<times> tables" where
  "spec_item item prev n T =
     (case (uint_field ''block-id'' item, id_string item, field item ''transaction-type'') of
        (Some b, Some i, Some ty) \<Rightarrow>
          if ty = JStr ''__processing__'' then (Trx_continue n, b, drop_row t_transactions_processing i T)
          else if 0 < prev \<and> 1 < b - prev then (Trx_break, b, T)
          else if T t_transactions i \<noteq> None then (Trx_continue n, b, drop_row t_transactions_processing i T)
          else (Trx_continue (n + 1), b,
                drop_row t_transactions_processing i (set_state (n + 1) b (add_numbered i item n T)))
      | _ \<Rightarrow> (Trx_break, prev, T))"

fun spec_items :: "json list \<Rightarrow> uint64 \<Rightarrow> uint64 \<Rightarrow> tables \<Rightarrow> uint64 \<times> tables" where
  "spec_items [] prev n T = (prev, T)"
| "spec_items (x # xs) prev n T =
     (case spec_item x prev n T of
        (Trx_break, prev', T') \<Rightarrow> (prev', T')
      | (Trx_continue n', prev', T') \<Rightarrow> spec_items xs prev' n' T')"

definition state_count :: "tables \<Rightarrow> uint64 option" where
  "state_count T = Option.bind (T t_transactions_state ''state'') (uint_field ''count'')"

lemma bindP_on_db: "m (ps_world s) = (Inr x, w') \<Longrightarrow> bindP (on_db m) k s = k x (s\<lparr>ps_world := w'\<rparr>)"
  by (simp add: bindP_def on_db_def)

lemma state_row_count [simp]: "uint_field ''count'' (state_row old n b) = Some n"
  by (simp add: state_row_def state_members_def uint_field_Some merge_members_map split: option.split)

lemma state_obj: "obj [(''id'', JStr ''state''), (''count'', JUint n), (''block-id'', JUint b)] = JObj (state_members n b)"
  by (simp add: obj_def state_members_def)

lemma t_names_distinct [simp]:
  "t_transactions \<noteq> t_transactions_state" "t_transactions \<noteq> t_transactions_processing"
  "t_transactions_state \<noteq> t_transactions_processing" "t_transactions_state \<noteq> t_transactions"
  "t_transactions_processing \<noteq> t_transactions" "t_transactions_processing \<noteq> t_transactions_state"
  by (simp_all add: table_names)

lemma index_id_text_not_state [simp]: "index_id_text \<noteq> ''state''" "''state'' \<noteq> index_id_text"
  by (simp_all add: index_id_text_def)

lemma spec_item_keeps_index_text:
  "spec_item item prev n T = (r, prev', T') \<Longrightarrow>
    T' t_transactions_state index_id_text = T t_transactions_state index_id_text"
  by (auto simp: spec_item_def drop_row_def set_state_def add_numbered_def split: option.splits if_splits)

context explorer_env
begin

lemma remove_processing_effect:
  assumes "db_name d = dbn"
  shows "\<exists>w'. remove_processing E d i s = (Inr (), s\<lparr>ps_world := w'\<rparr>)
    \<and> rows w' = drop_row t_transactions_processing i (rows (ps_world s))"
  using remove_effect [OF assms, of i True t_transactions_processing "ps_world s"]
  by (auto simp: remove_processing_def on_db_def drop_row_def bindP_def)

lemma update_state_effect:
  assumes "db_name d = dbn" "rows (ps_world s) t_transactions_state index_id_text = None"
  shows "\<exists>w'. update_state E d n b s = (Inr (), s\<lparr>ps_world := w'\<rparr>)
    \<and> rows w' = set_state n b (rows (ps_world s))"
proof -
  have "id_string (JObj (state_members n b)) = Some ''state''"
    by (simp add: id_string_Some state_members_def)
  moreover have "map_of (state_members n b) ''state'' = None" by (simp add: state_members_def)
  ultimately obtain w' where w: "table_update E (JObj (state_members n b)) (open_table d t_transactions_state) (ps_world s) = (Inr (), w')"
    "rows w' = set_state n b (rows (ps_world s))"
    using update_effect [OF assms(1) _ assms(2)] unfolding set_state_def state_row_def by blast
  then show ?thesis unfolding update_state_def state_obj on_db_def by auto
qed

lemma index_item_effect:
  assumes "db_name d = dbn" "rows (ps_world s) t_transactions_state index_id_text = None"
    and "id_string (JObj m) = Some i"
  shows "\<exists>w' n'. index_item E d (JObj m) b i n s = (Inr (Trx_continue n'), s\<lparr>ps_prev_bid := b, ps_world := w'\<rparr>)
    \<and> (if rows (ps_world s) t_transactions i \<noteq> None
       then n' = n \<and> rows w' = drop_row t_transactions_processing i (rows (ps_world s))
       else n' = n + 1 \<and> rows w' = drop_row t_transactions_processing i
         (set_state (n + 1) b (add_numbered i (JObj m) n (rows (ps_world s)))))"
proof -
  let ?s = "s\<lparr>ps_prev_bid := b\<rparr>"
  let ?row = "case rows (ps_world s) t_transactions i of Some r \<Rightarrow> r | None \<Rightarrow> JArr []"
  have g: "get_data E (cursor_get i None (table_cursor True (open_table d t_transactions))) (ps_world ?s)
      = (Inr ?row, ps_world s)"
    using get_data_row [OF assms(1), of i True t_transactions "ps_world s"] by simp
  have c: "0 < count_key ?row ''id'' \<longleftrightarrow> rows (ps_world s) t_transactions i \<noteq> None"
    by (rule fetched_has_id)
  have start: "index_item E d (JObj m) b i n s =
      (if 0 < count_key ?row ''id''
       then bindP (remove_processing E d i) (\<lambda>_. ret (Trx_continue n)) ?s
       else bindP (on_db (table_insert E (numbered (JObj m) n) (open_table d t_transactions))) (\<lambda>_.
            bindP (update_state E d (n + 1) b) (\<lambda>_.
            bindP (remove_processing E d i) (\<lambda>_. ret (Trx_continue (n + 1))))) ?s)"
    unfolding index_item_def set_prev_bid_def
    by (simp add: numbered_def
        bindP_on_db [of "get_data E (cursor_get i None (table_cursor True (open_table d t_transactions)))" ?s, OF g])
  show ?thesis
  proof (cases "rows (ps_world s) t_transactions i \<noteq> None")
    case True
    with start c show ?thesis
      using remove_processing_effect [OF assms(1), of i ?s] by (auto simp: bindP_def)
  next
    case False
    let ?m = "put ''serial'' (JUint n) m"
    have k: "has_string_id (JObj ?m)" "id_string (JObj ?m) = Some i"
      using assms(3) by (simp_all add: has_string_id_def id_string_Some)
    obtain w1 where w1: "table_insert E (JObj ?m) (open_table d t_transactions) (ps_world ?s) = (Inr (), w1)"
      "rows w1 = add_numbered i (JObj m) n (rows (ps_world s))"
      using insert_row_effect [OF assms(1) k(1), of t_transactions "ps_world s"] k(2) False
      by (auto simp: insert_row_def add_numbered_def numbered_def)
    have "rows (ps_world (?s\<lparr>ps_world := w1\<rparr>)) t_transactions_state index_id_text = None"
      using assms(2) w1(2) by (simp add: add_numbered_def)
    from update_state_effect [OF assms(1) this, of "n + 1" b] obtain w2 where w2:
      "update_state E d (n + 1) b (?s\<lparr>ps_world := w1\<rparr>) = (Inr (), ?s\<lparr>ps_world := w2\<rparr>)"
      "rows w2 = set_state (n + 1) b (rows w1)" by auto
    obtain w3 where w3: "remove_processing E d i (?s\<lparr>ps_world := w2\<rparr>) = (Inr (), ?s\<lparr>ps_world := w3\<rparr>)"
      "rows w3 = drop_row t_transactions_processing i (rows w2)"
      using remove_processing_effect [OF assms(1), of i "?s\<lparr>ps_world := w2\<rparr>"] by auto
    have "index_item E d (JObj m) b i n s = (Inr (Trx_continue (n + 1)), ?s\<lparr>ps_world := w3\<rparr>)"
      using start c False w1(1) w2(1) w3(1) by (simp add: numbered_def bindP_def on_db_def)
    with w1(2) w2(2) w3(2) False show ?thesis by auto
  qed
qed

lemma trx_item_refines:
  assumes "db_name d = dbn" "rows (ps_world s) t_transactions_state index_id_text = None"
    and "id_string item = Some i" "uint_field ''block-id'' item = Some b"
    and spec: "spec_item item (ps_prev_bid s) n (rows (ps_world s)) = (r, prev', T')"
  shows "(\<exists>w'. trx_item E d item n s = (Inr r, s\<lparr>ps_prev_bid := prev', ps_world := w'\<rparr>) \<and> rows w' = T')
    \<or> (\<exists>e. trx_item E d item n s = (Inl e, s) \<and> r = Trx_break \<and> prev' = ps_prev_bid s \<and> T' = rows (ps_world s))"
proof -
  obtain m where item: "item = JObj m" using assms(3) by (cases item) (auto simp: id_string_Some)
  have i: "map_of m ''id'' = Some (JStr i)" and b: "map_of m ''block-id'' = Some (JUint b)"
    using assms(3,4) item by (simp_all add: id_string_Some uint_field_Some)
  show ?thesis
  proof (cases "map_of m ''transaction-type''")
    case None
    with spec have "r = Trx_break" "prev' = ps_prev_bid s" "T' = rows (ps_world s)"
      by (auto simp: spec_item_def item assms(3,4) [unfolded item])
    with None i b show ?thesis by (simp add: trx_item_def item)
  next
    case (Some ty)
    have start: "trx_item E d item n s =
        (if ty = JStr ''__processing__'' then skip_marker E d b i n s
         else if 0 < ps_prev_bid s \<and> 1 < b - ps_prev_bid s then (Inr Trx_break, s\<lparr>ps_prev_bid := b\<rparr>)
         else index_item E d item b i n s)"
      using Some i b by (simp add: trx_item_def item set_prev_bid_def)
    have sp: "spec_item item (ps_prev_bid s) n (rows (ps_world s)) =
        (if ty = JStr ''__processing__'' then (Trx_continue n, b, drop_row t_transactions_processing i (rows (ps_world s)))
         else if 0 < ps_prev_bid s \<and> 1 < b - ps_prev_bid s then (Trx_break, b, rows (ps_world s))
         else if rows (ps_world s) t_transactions i \<noteq> None
         then (Trx_continue n, b, drop_row t_transactions_processing i (rows (ps_world s)))
         else (Trx_continue (n + 1), b, drop_row t_transactions_processing i
                (set_state (n + 1) b (add_numbered i item n (rows (ps_world s))))))"
      using Some i b by (simp add: spec_item_def item assms(3,4) [unfolded item])
    consider (marker) "ty = JStr ''__processing__''"
      | (gap) "ty \<noteq> JStr ''__processing__''" "0 < ps_prev_bid s \<and> 1 < b - ps_prev_bid s"
      | (index) "ty \<noteq> JStr ''__processing__''" "\<not> (0 < ps_prev_bid s \<and> 1 < b - ps_prev_bid s)"
      by blast
    then show ?thesis
    proof cases
      case marker
      obtain w' where "remove_processing E d i (s\<lparr>ps_prev_bid := b\<rparr>) = (Inr (), s\<lparr>ps_prev_bid := b, ps_world := w'\<rparr>)"
        "rows w' = drop_row t_transactions_processing i (rows (ps_world s))"
        using remove_processing_effect [OF assms(1), of i "s\<lparr>ps_prev_bid := b\<rparr>"] by auto
      then show ?thesis
        using marker start sp spec by (auto simp: skip_marker_def set_prev_bid_def bindP_def)
    next
      case gap
      then show ?thesis
        using start sp spec by (auto intro!: exI [of _ "ps_world s"])
    next
      case index
      from index_item_effect [OF assms(1,2) assms(3) [unfolded item], of b n] obtain w' n' where
        w: "index_item E d item b i n s = (Inr (Trx_continue n'), s\<lparr>ps_prev_bid := b, ps_world := w'\<rparr>)"
        and x: "if rows (ps_world s) t_transactions i \<noteq> None
           then n' = n \<and> rows w' = drop_row t_transactions_processing i (rows (ps_world s))
           else n' = n + 1 \<and> rows w' = drop_row t_transactions_processing i
             (set_state (n + 1) b (add_numbered i item n (rows (ps_world s))))"
        unfolding item by blast
      have "trx_item E d item n s = index_item E d item b i n s" using index start by auto
      moreover have "r = Trx_continue n'" "prev' = b" "T' = rows w'"
        using index sp spec x by (auto split: if_splits)
      ultimately show ?thesis using w by auto
    qed
  qed
qed

text \<open>A round over a list of items is the round of the specification.\<close>

lemma trx_items_refines:
  assumes "db_name d = dbn" "rows (ps_world s) t_transactions_state index_id_text = None"
    and "\<forall>x \<in> set xs. id_string x \<noteq> None \<and> uint_field ''block-id'' x \<noteq> None"
  shows "(ps_prev_bid (snd (trx_items E d xs n s)), rows (ps_world (snd (trx_items E d xs n s))))
    = spec_items xs (ps_prev_bid s) n (rows (ps_world s))"
  using assms(2,3)
proof (induction xs arbitrary: n s)
  case Nil
  then show ?case by simp
next
  case (Cons x xs)
  obtain i b where ib: "id_string x = Some i" "uint_field ''block-id'' x = Some b" using Cons.prems(2) by auto
  obtain r prev' T' where sp: "spec_item x (ps_prev_bid s) n (rows (ps_world s)) = (r, prev', T')"
    by (cases "spec_item x (ps_prev_bid s) n (rows (ps_world s))")
  from trx_item_refines [OF assms(1) Cons.prems(1) ib sp] show ?case
  proof (elim disjE exE conjE)
    fix w' assume w: "trx_item E d x n s = (Inr r, s\<lparr>ps_prev_bid := prev', ps_world := w'\<rparr>)" "rows w' = T'"
    show ?thesis
    proof (cases r)
      case Trx_break
      with w sp show ?thesis by (simp add: bindP_def)
    next
      case (Trx_continue n')
      have "T' t_transactions_state index_id_text = None"
        using spec_item_keeps_index_text [OF sp] Cons.prems(1) by simp
      with Cons.IH [of "s\<lparr>ps_prev_bid := prev', ps_world := w'\<rparr>" n'] Cons.prems(2) w sp Trx_continue
      show ?thesis by (simp add: bindP_def)
    qed
  qed (use sp in \<open>simp add: bindP_def\<close>)
qed

lemma read_count_known:
  assumes "db_name d = dbn" "state_count (rows (ps_world s)) = Some n"
  shows "read_count E d s = (Inr n, s)"
proof -
  obtain r where r: "rows (ps_world s) t_transactions_state ''state'' = Some r" "field r ''count'' = Some (JUint n)"
    using assms(2) by (auto simp: state_count_def uint_field_Some Option.bind_eq_Some_conv)
  have "get_transaction_history_state E d (ps_world s) = (Inr n, ps_world s)"
    using run_get_field [OF r, of True] assms(1)
    by (simp add: get_transaction_history_state_def get_data_def cursor_defs bindP_def catch_reql_def catchP_def)
  then show ?thesis by (simp add: read_count_def catchP_def on_db_def)
qed

lemma read_count_new:
  assumes "db_name d = dbn" "rows (ps_world s) t_transactions_state index_id_text = None"
    and "rows (ps_world s) t_transactions_state ''state'' = None"
  shows "\<exists>w'. read_count E d s = (Inr 0, s\<lparr>ps_world := w'\<rparr>) \<and> rows w' = set_state 0 0 (rows (ps_world s))"
proof -
  obtain e where "get_transaction_history_state E d (ps_world s) = (Inl e, ps_world s)"
    using run_get_field_missing [OF assms(3), where od = True and f = "''count''"] assms(1)
    by (auto simp: get_transaction_history_state_def get_data_def cursor_defs bindP_def catch_reql_def catchP_def)
  moreover obtain w' where "update_state E d 0 0 s = (Inr (), s\<lparr>ps_world := w'\<rparr>)"
    "rows w' = set_state 0 0 (rows (ps_world s))"
    using update_state_effect [OF assms(1,2)] by blast
  ultimately show ?thesis by (auto simp: read_count_def catchP_def on_db_def bindP_def)
qed

end

text \<open>
  Where a round starts: with the count of the state row, or with a new state row and the count 0.
\<close>

definition spec_start :: "tables \<Rightarrow> uint64 \<times> tables" where
  "spec_start T = (case T t_transactions_state ''state'' of
     None \<Rightarrow> (0, set_state 0 0 T) | Some r \<Rightarrow> (index_value ''count'' r, T))"

definition processing_order :: "tables \<Rightarrow> json list \<Rightarrow> bool" where
  "processing_order T xs \<longleftrightarrow> distinct xs
     \<and> set xs = {r \<in> ran (T t_transactions_processing). has_index_value ''block-id'' r}
     \<and> sorted (map (index_value ''block-id'') xs)"

definition counted :: "tables \<Rightarrow> bool" where
  "counted T \<longleftrightarrow> T t_transactions_state index_id_text = None
     \<and> (T t_transactions_state ''state'' = None \<or> state_count T \<noteq> None)"

context explorer_env
begin

text \<open>A round of the worker is a round of the specification on the rows in the order of their blocks.\<close>

lemma transactions_pass_refines:
  assumes "db_name d = dbn" "counted (rows (ps_world s))"
  shows "\<exists>xs. processing_order (rows (ps_world s)) xs
    \<and> (ps_prev_bid (snd (transactions_pass E d s)), rows (ps_world (snd (transactions_pass E d s))))
      = (case spec_start (rows (ps_world s)) of (n, T) \<Rightarrow> spec_items xs (ps_prev_bid s) n T)"
proof -
  let ?T = "rows (ps_world s)"
  obtain xs where g: "get_data E (cursor_sort ''block-id'' (table_cursor True (open_table d t_transactions_processing))) (ps_world s)
      = (Inr (JArr xs), ps_world s)" and o: "processing_order ?T xs"
    using get_data_sorted [OF assms(1), of True t_transactions_processing "ps_world s"]
    by (auto simp: processing_order_def)
  have ids: "\<forall>x \<in> set xs. id_string x \<noteq> None \<and> uint_field ''block-id'' x \<noteq> None"
    using o by (auto simp: processing_order_def ran_def has_index_value_def dest: rows_keyed)
  obtain n T s' where st: "spec_start ?T = (n, T)" and c: "read_count E d s = (Inr n, s')"
    and s': "rows (ps_world s') = T" "ps_prev_bid s' = ps_prev_bid s"
  proof (cases "?T t_transactions_state ''state''")
    case None
    with that read_count_new [OF assms(1) _ None] assms(2) show ?thesis
      by (auto simp: spec_start_def counted_def)
  next
    case (Some r)
    then obtain n where n: "state_count ?T = Some n" using assms(2) by (auto simp: counted_def)
    with Some that read_count_known [OF assms(1) n] show ?thesis
      by (auto simp: spec_start_def state_count_def index_value_def)
  qed
  have "T t_transactions_state index_id_text = None"
    using assms(2) st by (auto simp: spec_start_def counted_def set_state_def split: option.splits)
  with trx_items_refines [OF assms(1) _ ids, of s' n] s'
  have "(ps_prev_bid (snd (trx_items E d xs n s')), rows (ps_world (snd (trx_items E d xs n s'))))
      = spec_items xs (ps_prev_bid s) n T" by simp
  moreover have "snd (transactions_pass E d s) = snd (trx_items E d xs n s')"
    unfolding transactions_pass_def
    by (simp add: catchP_def bindP_def on_db_def g c split: prod.split sum.split)
  ultimately show ?thesis using o st by auto
qed

end

section \<open>What a round keeps\<close>

definition serials_ok :: "row_map \<Rightarrow> uint64 \<Rightarrow> bool" where
  "serials_ok t n \<longleftrightarrow> (\<forall>r \<in> ran t. has_index_value ''serial'' r)
     \<and> bij_betw (\<lambda>i. unat (index_value ''serial'' (the (t i)))) (dom t) {..<unat n}"

definition serial_inv :: "tables \<Rightarrow> bool" where
  "serial_inv T \<longleftrightarrow> counted T
     \<and> serials_ok (T t_transactions) (case state_count T of Some n \<Rightarrow> n | None \<Rightarrow> 0)"

lemma numbered_serial:
  "has_index_value ''serial'' (numbered x n)" "index_value ''serial'' (numbered x n) = n"
  by (simp_all add: numbered_def has_index_value_def uint_field_def index_value_def)

lemma serials_ok_card: "serials_ok t n \<Longrightarrow> card (dom t) = unat n"
  by (auto simp: serials_ok_def dest: bij_betw_same_card)

lemma unat_Suc: "unat (n :: uint64) + 1 < 2 ^ 64 \<Longrightarrow> unat (n + 1) = Suc (unat n)"
  by (simp add: unat_word_ariths)

lemma serials_ok_add:
  assumes "serials_ok t n" "t i = None" "unat n + 1 < 2 ^ 64"
  shows "serials_ok (t(i \<mapsto> numbered x n)) (n + 1)"
proof -
  let ?f = "\<lambda>k. unat (index_value ''serial'' (the ((t(i \<mapsto> numbered x n)) k)))"
  have "bij_betw ?f (dom t) {..<unat n} \<longleftrightarrow>
      bij_betw (\<lambda>k. unat (index_value ''serial'' (the (t k)))) (dom t) {..<unat n}"
    by (rule bij_betw_cong) (use assms(2) in auto)
  with assms(1) have "bij_betw ?f (dom t) {..<unat n}" by (simp add: serials_ok_def)
  moreover have "?f i = unat n" by (simp add: numbered_serial)
  moreover have "i \<notin> dom t" using assms(2) by auto
  ultimately have "bij_betw ?f (dom t \<union> {i}) ({..<unat n} \<union> {unat n})"
    using notIn_Un_bij_betw [of i "dom t" ?f "{..<unat n}"] by simp
  moreover have "{..<unat n} \<union> {unat n} = {..<unat (n + 1)}" by (auto simp: unat_Suc [OF assms(3)])
  moreover have "dom t \<union> {i} = dom (t(i \<mapsto> numbered x n))" by auto
  ultimately have "bij_betw ?f (dom (t(i \<mapsto> numbered x n))) {..<unat (n + 1)}" by (simp only:)
  then show ?thesis
    using assms(1,2) unfolding serials_ok_def by (auto simp: numbered_serial ran_map_upd)
qed

lemma state_count_set [simp]: "state_count (set_state n b T) = Some n"
  by (simp add: state_count_def set_state_def)

lemma spec_item_serials:
  assumes "spec_item x prev n T = (r, prev', T')" "serials_ok (T t_transactions) n" "state_count T = Some n"
    and "unat n + 1 < 2 ^ 64"
  shows "case r of
      Trx_break \<Rightarrow> T' = T
    | Trx_continue n' \<Rightarrow> serials_ok (T' t_transactions) n' \<and> state_count T' = Some n' \<and> unat n' \<le> unat n + 1"
  using assms serials_ok_add [OF assms(2) _ assms(4)] unat_Suc [OF assms(4)]
  by (auto simp: spec_item_def drop_row_def add_numbered_def state_count_def set_state_def
      split: option.splits if_splits)

lemma spec_items_serials:
  assumes "serials_ok (T t_transactions) n" "state_count T = Some n" "unat n + length xs < 2 ^ 64"
    and "spec_items xs prev n T = (prev', T')"
  shows "\<exists>n'. serials_ok (T' t_transactions) n' \<and> state_count T' = Some n'"
  using assms
proof (induction xs arbitrary: prev n T)
  case Nil
  then show ?case by auto
next
  case (Cons x xs)
  obtain r p1 T1 where sp: "spec_item x prev n T = (r, p1, T1)" by (cases "spec_item x prev n T")
  from spec_item_serials [OF sp Cons.prems(1,2)] Cons.prems(3,4) sp show ?case
    by (cases r) (use Cons.prems Cons.IH in \<open>fastforce+\<close>)
qed

lemma spec_items_keeps_index_text:
  "spec_items xs prev n T = (prev', T') \<Longrightarrow>
    T' t_transactions_state index_id_text = T t_transactions_state index_id_text"
proof (induction xs arbitrary: prev n T)
  case (Cons x xs)
  obtain r p1 T1 where sp: "spec_item x prev n T = (r, p1, T1)" by (cases "spec_item x prev n T")
  from spec_item_keeps_index_text [OF sp] Cons sp show ?case by (cases r) (auto)
qed simp

lemma spec_start_serials:
  assumes "serial_inv T" "spec_start T = (n, T1)"
  shows "serials_ok (T1 t_transactions) n \<and> state_count T1 = Some n
    \<and> T1 t_transactions_state index_id_text = None \<and> T1 t_transactions = T t_transactions
    \<and> T1 t_transactions_processing = T t_transactions_processing"
proof (cases "T t_transactions_state ''state''")
  case None
  with assms have "n = 0" "T1 = set_state 0 0 T" by (auto simp: spec_start_def)
  moreover have "state_count T = None" using None by (simp add: state_count_def)
  ultimately show ?thesis using assms(1) by (simp add: serial_inv_def counted_def set_state_def state_count_def)
next
  case (Some r)
  with assms show ?thesis
    by (auto simp: spec_start_def serial_inv_def counted_def state_count_def index_value_def)
qed

lemma processing_order_length:
  assumes "processing_order T xs" "finite (dom (T t_transactions_processing))"
  shows "length xs \<le> card (dom (T t_transactions_processing))"
proof -
  have "ran (T t_transactions_processing) = (\<lambda>i. the (T t_transactions_processing i)) ` dom (T t_transactions_processing)"
    by (force simp: ran_def)
  then have "card (ran (T t_transactions_processing)) \<le> card (dom (T t_transactions_processing))"
    and f: "finite (ran (T t_transactions_processing))"
    using assms(2) by (simp_all add: card_image_le)
  moreover have "length xs \<le> card (ran (T t_transactions_processing))"
    using assms(1) card_mono [OF f, of "set xs"] distinct_card [of xs] by (simp add: processing_order_def)
  ultimately show ?thesis by simp
qed

definition is_marker :: "json \<Rightarrow> bool" where
  "is_marker r \<longleftrightarrow> field r ''transaction-type'' = Some (JStr ''__processing__'')"

text \<open>A row of the processing table is still there, or indexed, or a marker.\<close>

definition accounted :: "tables \<Rightarrow> tables \<Rightarrow> bool" where
  "accounted T0 T \<longleftrightarrow> (\<forall>i r. T0 t_transactions_processing i = Some r \<longrightarrow>
     T t_transactions_processing i = Some r \<or> T t_transactions i \<noteq> None \<or> is_marker r)"

lemma spec_item_accounted:
  assumes "spec_item x prev n T = (r, prev', T')" "accounted T0 T"
    and "\<forall>i. id_string x = Some i \<longrightarrow> T0 t_transactions_processing i = Some x"
  shows "accounted T0 T' \<and> T t_transactions \<subseteq>\<^sub>m T' t_transactions"
  using assms
  by (fastforce simp: spec_item_def accounted_def is_marker_def drop_row_def set_state_def add_numbered_def map_le_def
      split: option.splits if_splits)

lemma spec_items_accounted:
  assumes "spec_items xs prev n T = (prev', T')" "accounted T0 T"
    and "\<forall>x \<in> set xs. \<forall>i. id_string x = Some i \<longrightarrow> T0 t_transactions_processing i = Some x"
  shows "accounted T0 T' \<and> T t_transactions \<subseteq>\<^sub>m T' t_transactions"
  using assms
proof (induction xs arbitrary: prev n T)
  case (Cons x xs)
  obtain r p1 T1 where sp: "spec_item x prev n T = (r, p1, T1)" by (cases "spec_item x prev n T")
  have a: "accounted T0 T1" "T t_transactions \<subseteq>\<^sub>m T1 t_transactions"
    using spec_item_accounted [OF sp Cons.prems(2)] Cons.prems(3) by auto
  show ?case
  proof (cases r)
    case Trx_break
    with sp Cons.prems(1) a show ?thesis by auto
  next
    case (Trx_continue n')
    with sp Cons.prems(1) have "spec_items xs p1 n' T1 = (prev', T')" by simp
    from Cons.IH [OF this a(1)] Cons.prems(3) a(2) show ?thesis by (auto intro: map_le_trans)
  qed
qed simp

text \<open>Block numbers that never leave more than one step, starting from \<open>prev\<close>.\<close>

fun gap_free :: "uint64 \<Rightarrow> json list \<Rightarrow> bool" where
  "gap_free prev [] = True"
| "gap_free prev (x # xs) =
     (field x ''transaction-type'' \<noteq> None
      \<and> (is_marker x \<or> prev = 0 \<or> index_value ''block-id'' x - prev \<le> 1)
      \<and> gap_free (index_value ''block-id'' x) xs)"

lemma spec_item_progress:
  assumes "id_string x = Some i" "has_index_value ''block-id'' x" "gap_free prev [x]"
  shows "\<exists>n' T'. spec_item x prev n T = (Trx_continue n', index_value ''block-id'' x, T')
    \<and> T' t_transactions_processing = (T t_transactions_processing)(i := None)"
proof -
  obtain b ty where b: "uint_field ''block-id'' x = Some b" and ty: "field x ''transaction-type'' = Some ty"
    using assms(2,3) by (auto simp: has_index_value_def)
  then have v: "index_value ''block-id'' x = b" by (simp add: index_value_def)
  have g: "\<not> (0 < prev \<and> 1 < b - prev)" if "ty \<noteq> JStr ''__processing__''"
    using assms(3) that ty v by (auto simp: is_marker_def word_gt_0)
  show ?thesis
    using b ty v g assms(1)
    by (cases "ty = JStr ''__processing__''"; cases "T t_transactions i")
      (auto simp: spec_item_def drop_row_def set_state_def add_numbered_def)
qed

lemma spec_items_drain:
  assumes "spec_items xs prev n T = (prev', T')" "gap_free prev xs"
    and "\<forall>x \<in> set xs. id_string x \<noteq> None \<and> has_index_value ''block-id'' x"
  shows "T' t_transactions_processing = (\<lambda>i. if \<exists>x \<in> set xs. id_string x = Some i then None else T t_transactions_processing i)"
  using assms
proof (induction xs arbitrary: prev n T)
  case (Cons x xs)
  from Cons.prems(3) obtain i where i: "id_string x = Some i" by auto
  have "gap_free prev [x]" "gap_free (index_value ''block-id'' x) xs" using Cons.prems(2) by simp_all
  with spec_item_progress [OF i, of prev n T] Cons.prems(3) obtain n1 T1 where
    sp: "spec_item x prev n T = (Trx_continue n1, index_value ''block-id'' x, T1)"
    and t: "T1 t_transactions_processing = (T t_transactions_processing)(i := None)" by auto
  with Cons.prems(1) have "spec_items xs (index_value ''block-id'' x) n1 T1 = (prev', T')" by simp
  from Cons.IH [OF this] Cons.prems(2,3) t i show ?case by (auto simp: fun_eq_iff)
qed auto

section \<open>Properties of the worker\<close>

text \<open>A processing table with one row, for concrete runs.\<close>

definition sample_trx :: json where
  "sample_trx = obj [(''id'', JStr ''key:1:1''), (''block-id'', JUint 1), (''transaction-type'', JStr ''Transfer'')]"

definition sample_pstate :: "refdb pstate" where
  "sample_pstate = \<lparr>ps_world = (\<lambda>_. [])(t_transactions_processing := [sample_trx]),
     ps_tasks = [], ps_wallets = [], ps_prev_bid = 0\<rparr>"

lemma sample_trx_fields:
  "id_string sample_trx = Some ''key:1:1''" "has_index_value ''block-id'' sample_trx"
  "index_value ''block-id'' sample_trx = 1" "field sample_trx ''transaction-type'' = Some (JStr ''Transfer'')"
  by (simp_all add: sample_trx_def obj_def id_string_def has_index_value_def uint_field_def index_value_def)

lemma sample_rows:
  "ref_rows (ps_world sample_pstate) t_transactions_processing = [''key:1:1'' \<mapsto> sample_trx]"
  "ref_rows (ps_world sample_pstate) t_transactions = Map.empty"
  "ref_rows (ps_world sample_pstate) t_transactions_state = Map.empty"
  by (auto simp: fun_eq_iff ref_rows_def sample_pstate_def has_id_def sample_trx_fields)

lemma sample_counted: "counted (ref_rows (ps_world sample_pstate))"
  by (simp add: counted_def sample_rows)

lemma sample_serial_inv: "serial_inv (ref_rows (ps_world sample_pstate))"
  by (simp add: serial_inv_def sample_counted sample_rows state_count_def serials_ok_def bij_betw_def)

text \<open>
  Serial numbers: if the numbers of the indexed transactions are exactly \<open>0, \<dots>, n - 1\<close>, each used
  once, and the state row counts \<open>n\<close> of them (or there is neither row nor transaction), then
  the same holds after any round of the worker, whatever the processing table holds and wherever
  the round stops, as long as the numbers fit into 64 bits.
\<close>

lemma transactions_pass_serials:
  assumes "explorer_env E (db_name d) rows" and "serial_inv (rows (ps_world s))"
    and "card (dom (rows (ps_world s) t_transactions))
      + card (dom (rows (ps_world s) t_transactions_processing)) < 2 ^ 64"
  shows "serial_inv (rows (ps_world (snd (transactions_pass E d s))))"
proof -
  let ?T = "rows (ps_world s)"
  have "counted ?T" using assms(2) by (simp add: serial_inv_def)
  from explorer_env.transactions_pass_refines [OF assms(1) refl this] obtain xs n T1 p' T' where
    xs: "processing_order ?T xs" and st: "spec_start ?T = (n, T1)"
    and r: "spec_items xs (ps_prev_bid s) n T1 = (p', T')"
    and T': "T' = rows (ps_world (snd (transactions_pass E d s)))"
    by (metis (no_types, lifting) old.prod.case surj_pair snd_conv)
  note s1 = spec_start_serials [OF assms(2) st]
  have "length xs \<le> card (dom (?T t_transactions_processing))"
    by (rule processing_order_length [OF xs])
      (rule reql_server.rows_finite [OF explorer_env.axioms(2) [OF assms(1)]])
  moreover have "unat n = card (dom (?T t_transactions))" using serials_ok_card s1 by metis
  ultimately have b: "unat n + length xs < 2 ^ 64" using assms(3) by linarith
  obtain n' where "serials_ok (T' t_transactions) n'" "state_count T' = Some n'"
    using spec_items_serials [OF _ _ b r] s1 by blast
  moreover have "T' t_transactions_state index_id_text = None"
    using spec_items_keeps_index_text [OF r] s1 by simp
  ultimately show ?thesis unfolding T' [symmetric] by (simp add: serial_inv_def counted_def)
qed

text \<open>
  Nothing is lost or rewritten: a round keeps every indexed transaction as it is, and every row
  of the processing table stays there, unless a transaction with its key is indexed or it is
  the marker of a block without transactions.
\<close>

lemma transactions_pass_keeps:
  assumes "explorer_env E (db_name d) rows" and "counted (rows (ps_world s))"
  shows "rows (ps_world s) t_transactions \<subseteq>\<^sub>m rows (ps_world (snd (transactions_pass E d s))) t_transactions
    \<and> accounted (rows (ps_world s)) (rows (ps_world (snd (transactions_pass E d s))))"
proof -
  let ?T = "rows (ps_world s)"
  from explorer_env.transactions_pass_refines [OF assms(1) refl assms(2)] obtain xs n T1 p' T' where
    xs: "processing_order ?T xs" and st: "spec_start ?T = (n, T1)"
    and r: "spec_items xs (ps_prev_bid s) n T1 = (p', T')"
    and T': "T' = rows (ps_world (snd (transactions_pass E d s)))"
    by (metis (no_types, lifting) old.prod.case surj_pair snd_conv)
  have "T1 t_transactions = ?T t_transactions" "T1 t_transactions_processing = ?T t_transactions_processing"
    using st by (auto simp: spec_start_def set_state_def split: option.splits)
  moreover have "\<forall>x \<in> set xs. \<forall>i. id_string x = Some i \<longrightarrow> ?T t_transactions_processing i = Some x"
    using xs reql_server.rows_keyed [OF explorer_env.axioms(2) [OF assms(1)]]
    by (fastforce simp: processing_order_def ran_def)
  ultimately show ?thesis
    using spec_items_accounted [OF r, of ?T] unfolding T' [symmetric] by (simp add: accounted_def)
qed

text \<open>
  (C6) Progress: if the rows of the processing table have a type and their block numbers, in order and
  after the last block seen, never jump by more than one, a round empties the table of every
  row that has a block number.
\<close>

theorem transactions_pass_drains:
  assumes "explorer_env E (db_name d) rows" and "counted (rows (ps_world s))"
    and "\<And>xs. processing_order (rows (ps_world s)) xs \<Longrightarrow> gap_free (ps_prev_bid s) xs"
    and "rows (ps_world s) t_transactions_processing i = Some r" and "has_index_value ''block-id'' r"
  shows "rows (ps_world (snd (transactions_pass E d s))) t_transactions_processing i = None"
proof -
  let ?T = "rows (ps_world s)"
  from explorer_env.transactions_pass_refines [OF assms(1) refl assms(2)] obtain xs n T1 p' T' where
    xs: "processing_order ?T xs" and st: "spec_start ?T = (n, T1)"
    and sp: "spec_items xs (ps_prev_bid s) n T1 = (p', T')"
    and T': "T' = rows (ps_world (snd (transactions_pass E d s)))"
    by (metis (no_types, lifting) old.prod.case surj_pair snd_conv)
  note keyed = reql_server.rows_keyed [OF explorer_env.axioms(2) [OF assms(1)]]
  have "\<forall>x \<in> set xs. id_string x \<noteq> None \<and> has_index_value ''block-id'' x"
    using xs by (auto simp: processing_order_def ran_def dest: keyed)
  from spec_items_drain [OF sp assms(3) [OF xs] this]
  have "T' t_transactions_processing i = None" if "r \<in> set xs"
    using that keyed [OF assms(4)] by auto
  moreover have "r \<in> set xs" using xs assms(4,5) by (auto simp: processing_order_def ran_def)
  ultimately show ?thesis unfolding T' by simp
qed

theorem transactions_pass_drains_witness:
  "ref_rows (ps_world (snd (transactions_pass sample_env sample_db sample_pstate)))
     t_transactions_processing ''key:1:1'' = None"
proof -
  have "gap_free (ps_prev_bid sample_pstate) xs" if "processing_order (ref_rows (ps_world sample_pstate)) xs" for xs
  proof -
    have "{r \<in> ran [''key:1:1'' \<mapsto> sample_trx]. has_index_value ''block-id'' r} = {sample_trx}"
      using sample_trx_fields(2) by (simp add: Collect_conv_if conj_commute)
    with that have "set xs = {sample_trx}" "distinct xs"
      by (simp_all only: processing_order_def sample_rows)
    then have "xs = [sample_trx]" by (simp add: distinct_singleton_set)
    then show ?thesis by (simp add: sample_pstate_def sample_trx_fields)
  qed
  then show ?thesis
    using transactions_pass_drains [where E = sample_env and d = sample_db and rows = ref_rows and s = sample_pstate, OF sample_explorer sample_counted, of "''key:1:1''" sample_trx]
    by (simp add: sample_rows sample_trx_fields)
qed

section \<open>Properties of the stream rows\<close>

definition renamed :: "(string \<rightharpoonup> json) \<Rightarrow> (string \<rightharpoonup> json)" where
  "renamed f = (case f ''transaction-name'' of
     Some v \<Rightarrow> f(''transaction-type'' \<mapsto> v, ''transaction-name'' := None) | None \<Rightarrow> f)"

lemma replace_all_value:
  assumes "nlohmann_json L"
  shows "\<exists>m'. replace_all L get_replacement_keys (JObj m) = Inr (JObj m') \<and> map_of m' = renamed (map_of m)"
  by (cases "map_of m ''transaction-name''")
    (simp_all add: get_replacement_keys_def replace_keys_def renamed_def nlohmann_json.json_laws [OF assms])

lemma stream_description_value:
  assumes "nlohmann_json L" and "map_of m ''description'' = Some (JStr desc)"
  shows "stream_description L k (JObj m) = Inr (JObj (put ''description'' (JStr (take k desc)) m))"
proof -
  have "take (min (length desc) k) desc = take k desc" by (simp add: min_def)
  with assms(2) show ?thesis
    by (simp add: stream_description_def nlohmann_json.json_laws [OF assms(1)])
qed

lemma stream_row_value:
  assumes "nlohmann_json L" and "map_of m ''transaction-id'' = Some (JStr ti)"
    and "map_of m ''description'' = Some (JStr desc)" and "b < 2 ^ 64"
  shows "\<exists>m'. stream_row L key (to_string b) t (JObj m) = Inr (JObj m')
    \<and> map_of m' = (renamed ((map_of m)(''id'' \<mapsto> JStr key, ''block-id'' \<mapsto> JUint (of_nat b), ''timestamp'' \<mapsto> JInt t)))
        (''description'' \<mapsto> JStr (take (description_max_length L) desc))"
proof -
  note laws [simp] = nlohmann_json.json_laws [OF assms(1)]
  let ?m = "put ''timestamp'' (JInt t) (put ''block-id'' (JUint (of_nat b)) (put ''id'' (JStr key) m))"
  let ?m1 = "put ''transaction-id'' (JStr ti) ?m"
  have m1: "map_of ?m1 = (map_of m)(''id'' \<mapsto> JStr key, ''block-id'' \<mapsto> JUint (of_nat b), ''timestamp'' \<mapsto> JInt t)"
    using assms(2) by (auto simp: fun_eq_iff)
  have s1: "stream_transaction_id L (JObj ?m) = Inr (JObj ?m1)"
    using assms(2) by (simp add: stream_transaction_id_def)
  obtain m2 where m2: "replace_all L get_replacement_keys (JObj ?m1) = Inr (JObj m2)" "map_of m2 = renamed (map_of ?m1)"
    using replace_all_value [OF assms(1)] by blast
  have "map_of m2 ''description'' = Some (JStr desc)"
    unfolding m2(2) m1 using assms(3) by (simp add: renamed_def split: option.split)
  note sd = stream_description_value [OF assms(1) this, of "description_max_length L"]
  have "stream_row L key (to_string b) t (JObj m) = stream_description L (description_max_length L) (JObj m2)"
    using s1 m2(1) by (simp add: stream_row_def stoull_to_string [OF assms(4)])
  with sd m2(2) m1 show ?thesis by simp
qed

text \<open>
  (C27) The row the indexer stores for one public key of a transaction: it carries the key, the block
  number and the time, keeps the id of the transaction and every other member, has its type
  under \<open>transaction-type\<close> even where the node calls it \<open>transaction-name\<close>, and its description is
  cut to the longest the network allows.
\<close>

theorem stream_row_fields:
  assumes "nlohmann_json L" and "field trx ''transaction-id'' = Some (JStr ti)"
    and "field trx ''description'' = Some (JStr desc)" and "b < 2 ^ 64"
  shows "\<exists>row. stream_row L key (to_string b) t trx = Inr row
    \<and> field row ''id'' = Some (JStr key) \<and> field row ''block-id'' = Some (JUint (of_nat b))
    \<and> field row ''timestamp'' = Some (JInt t) \<and> field row ''transaction-id'' = Some (JStr ti)
    \<and> field row ''description'' = Some (JStr (take (description_max_length L) desc))
    \<and> field row ''transaction-name'' = None
    \<and> field row ''transaction-type'' =
        (case field trx ''transaction-name'' of Some v \<Rightarrow> Some v | None \<Rightarrow> field trx ''transaction-type'')
    \<and> (\<forall>k. k \<notin> {''id'', ''block-id'', ''timestamp'', ''description'', ''transaction-name'', ''transaction-type''}
        \<longrightarrow> field row k = field trx k)"
proof -
  obtain m where m: "trx = JObj m" using field_Some_object [OF assms(2)] by (cases trx) auto
  let ?f = "(map_of m)(''id'' \<mapsto> JStr key, ''block-id'' \<mapsto> JUint (of_nat b), ''timestamp'' \<mapsto> JInt t)"
  obtain m' where r: "stream_row L key (to_string b) t trx = Inr (JObj m')"
    and m': "map_of m' = (renamed ?f)(''description'' \<mapsto> JStr (take (description_max_length L) desc))"
    using stream_row_value [OF assms(1) _ _ assms(4), of m ti desc key t] assms(2,3) by (auto simp: m)
  show ?thesis
    using assms(2,3) by (intro exI [of _ "JObj m'"]) (simp add: m r [unfolded m] m' renamed_def split: option.split)
qed

definition sample_node_trx :: json where
  "sample_node_trx = obj [(''transaction-id'', JStr ''5''), (''description'', JStr ''abcd''),
     (''transaction-name'', JStr ''Transfer''), (''from'', JStr ''pk''), (''digest'', JStr ''d'')]"

lemma sample_env_json: "nlohmann_json sample_env"
  by (simp add: sample_env_def ref_env_json)

theorem stream_row_fields_witness:
  "\<exists>row. stream_row sample_env ''pk:3:5'' (to_string 3) 100 sample_node_trx = Inr row
    \<and> field row ''id'' = Some (JStr ''pk:3:5'') \<and> field row ''transaction-type'' = Some (JStr ''Transfer'')"
proof -
  have f: "field sample_node_trx ''transaction-id'' = Some (JStr ''5'')"
    "field sample_node_trx ''description'' = Some (JStr ''abcd'')"
    "field sample_node_trx ''transaction-name'' = Some (JStr ''Transfer'')"
    by (simp_all add: sample_node_trx_def obj_def)
  show ?thesis
    using stream_row_fields [OF sample_env_json f(1,2), of 3 "''pk:3:5''" 100] f(3) by auto
qed

text \<open>
  (C28) The keys of the rows are unique: two keys made of an address, a block number and a transaction id
  are equal only if all three parts are, for addresses without a colon.
\<close>

theorem trx_key_unique:
  assumes "CHR '':'' \<notin> set a" and "CHR '':'' \<notin> set a'"
    and "trx_key a (to_string b) i = trx_key a' (to_string b') i'"
  shows "a = a' \<and> b = b' \<and> i = i'"
proof -
  have "a = a' \<and> to_string b @ CHR '':'' # i = to_string b' @ CHR '':'' # i'"
    using append_sep_inject [OF assms(1,2)] assms(3) by (simp add: trx_key_def)
  moreover have "to_string b = to_string b' \<and> i = i'" if "to_string b @ CHR '':'' # i = to_string b' @ CHR '':'' # i'"
    by (rule append_sep_inject [OF _ _ that]) simp_all
  ultimately show ?thesis by simp
qed

theorem trx_key_unique_witness:
  "trx_key ''pk'' (to_string 3) ''5'' \<noteq> trx_key ''pk'' (to_string 35) []"
  using trx_key_unique [of "''pk''" "''pk''" 3 "''5''" 35 "[]"] by auto

end
