(* ===== verification/Time.thy ===== *)
theory Time
  imports Names
begin

text \<open>
  Times, \<^verbatim>\<open>common/src/utils.cpp\<close>: \<open>getTime\<close>, \<open>getEpochTime\<close>, \<open>utcToString\<close> with what they use of the
  standard library. \<^verbatim>\<open>std::get_time\<close> reads the fields of the format in order and stops at the first
  that does not match, leaving the rest of the \<^verbatim>\<open>tm\<close> as it was, here uninitialized: \<open>getTime\<close> is
  \<open>None\<close> where a field of the date or the time is missing. The zone at the end of the format
  fills no field of the \<^verbatim>\<open>tm\<close>. Names of months are those of the classic locale, which the streams
  of the program use.
\<close>

section \<open>Calendar\<close>

record tm =
  tm_sec :: nat
  tm_min :: nat
  tm_hour :: nat
  tm_mday :: nat
  tm_mon :: nat
  tm_year :: int

definition is_leap :: "int \<Rightarrow> bool" where
  "is_leap y \<longleftrightarrow> (4 dvd y \<and> \<not> 100 dvd y) \<or> 400 dvd y"

definition year_len :: "int \<Rightarrow> nat" where
  "year_len y = (if is_leap y then 366 else 365)"

definition month_len :: "int \<Rightarrow> nat \<Rightarrow> nat" where
  "month_len y m =
     (if m = 1 then (if is_leap y then 29 else 28)
      else if m \<in> {3, 5, 8, 10} then 30 else 31)"

text \<open>The number of days from the start of year 1 to the start of the year, and within the year.\<close>

definition days_before_year :: "int \<Rightarrow> int" where
  "days_before_year y = 365 * (y - 1) + (y - 1) div 4 - (y - 1) div 100 + (y - 1) div 400"

fun days_before_month :: "int \<Rightarrow> nat \<Rightarrow> nat" where
  "days_before_month y 0 = 0"
| "days_before_month y (Suc m) = days_before_month y m + month_len y m"

definition timegm :: "tm \<Rightarrow> time_t" where
  "timegm dt =
     86400 * (days_before_year (tm_year dt + 1900) - days_before_year 1970
              + int (days_before_month (tm_year dt + 1900) (tm_mon dt)) + int (tm_mday dt) - 1)
     + 3600 * int (tm_hour dt) + 60 * int (tm_min dt) + int (tm_sec dt)"

function find_year :: "int \<Rightarrow> nat \<Rightarrow> int \<times> nat" where
  "find_year y n = (if year_len y \<le> n then find_year (y + 1) (n - year_len y) else (y, n))"
  by pat_completeness auto

termination find_year
  by (relation "measure snd") (auto simp: year_len_def)

declare find_year.simps [simp del]

function find_month :: "int \<Rightarrow> nat \<Rightarrow> nat \<Rightarrow> nat \<times> nat" where
  "find_month y m n =
     (if m < 11 \<and> month_len y m \<le> n then find_month y (Suc m) (n - month_len y m) else (m, n))"
  by pat_completeness auto

termination find_month
  by (relation "measure (\<lambda>(y, m, n). 11 - m)") auto

declare find_month.simps [simp del]

text \<open>\<^verbatim>\<open>std::gmtime\<close>; the calendar repeats after 400 years, which are 146097 days.\<close>

definition gmtime :: "time_t \<Rightarrow> tm" where
  "gmtime t =
     (let days = t div 86400; secs = nat (t mod 86400);
          (y, yd) = find_year (1970 + 400 * (days div 146097)) (nat (days mod 146097));
          (m, md) = find_month y 0 yd
      in \<lparr>tm_sec = secs mod 60, tm_min = secs div 60 mod 60, tm_hour = secs div 3600,
          tm_mday = md + 1, tm_mon = m, tm_year = y - 1900\<rparr>)"

section \<open>Reading\<close>

definition month_names :: "string list" where
  "month_names = [''Jan'', ''Feb'', ''Mar'', ''Apr'', ''May'', ''Jun'',
                  ''Jul'', ''Aug'', ''Sep'', ''Oct'', ''Nov'', ''Dec'']"

definition long_month_names :: "string list" where
  "long_month_names = [''January'', ''February'', ''March'', ''April'', ''May'', ''June'',
                       ''July'', ''August'', ''September'', ''October'', ''November'', ''December'']"

definition read_num :: "nat \<Rightarrow> nat \<Rightarrow> nat \<Rightarrow> string \<Rightarrow> (nat \<times> string) option" where
  "read_num width lo hi s =
     (let ds = takeWhile is_digit_char (take width s); v = decimal_value ds
      in if ds = [] \<or> v < lo \<or> hi < v then None else Some (v, drop (length ds) s))"

fun is_prefix :: "string \<Rightarrow> string \<Rightarrow> bool" where
  "is_prefix [] s = True"
| "is_prefix (c # p) (d # s) = (c = d \<and> is_prefix p s)"
| "is_prefix (c # p) [] = False"

fun read_name :: "string list \<Rightarrow> nat \<Rightarrow> string \<Rightarrow> (nat \<times> string) option" where
  "read_name [] i s = None"
| "read_name (n # ns) i s = (if is_prefix n s then Some (i, drop (length n) s) else read_name ns (Suc i) s)"

definition read_month :: "string \<Rightarrow> (nat \<times> string) option" where
  "read_month s = (case read_name long_month_names 0 s of Some r \<Rightarrow> Some r | None \<Rightarrow> read_name month_names 0 s)"

definition read_char :: "char \<Rightarrow> string \<Rightarrow> string option" where
  "read_char c s = (if s \<noteq> [] \<and> hd s = c then Some (tl s) else None)"

definition skip_spaces :: "string \<Rightarrow> string" where
  "skip_spaces s = dropWhile is_space_char s"

text \<open>The format \<^verbatim>\<open>%Y-%h-%d %H:%M:%S %Z\<close>.\<close>

definition getTime :: "string \<Rightarrow> bool \<Rightarrow> tm option" where
  "getTime s adjust_year =
     Option.bind (read_num 4 0 9999 s) (\<lambda>(year, s).
     Option.bind (read_char CHR ''-'' s) (\<lambda>s.
     Option.bind (read_month s) (\<lambda>(mon, s).
     Option.bind (read_char CHR ''-'' s) (\<lambda>s.
     Option.bind (read_num 2 1 31 s) (\<lambda>(mday, s).
     Option.bind (read_num 2 0 23 (skip_spaces s)) (\<lambda>(hour, s).
     Option.bind (read_char CHR '':'' s) (\<lambda>s.
     Option.bind (read_num 2 0 59 s) (\<lambda>(min, s).
     Option.bind (read_char CHR '':'' s) (\<lambda>s.
     Option.bind (read_num 2 0 60 s) (\<lambda>(sec, s).
     Some \<lparr>tm_sec = sec, tm_min = min, tm_hour = hour, tm_mday = mday, tm_mon = mon,
           tm_year = int year - 1900 + (if adjust_year then 1900 else 0)\<rparr>))))))))))"

text \<open>\<open>indeterminate\<close> stands for the time made of a \<^verbatim>\<open>tm\<close> that was not filled.\<close>

definition getEpochTime :: "(string \<Rightarrow> time_t) \<Rightarrow> string \<Rightarrow> time_t" where
  "getEpochTime indeterminate s =
     (case getTime s False of Some dt \<Rightarrow> timegm dt | None \<Rightarrow> indeterminate s)"

section \<open>Printing\<close>

definition pad2 :: "nat \<Rightarrow> string" where
  "pad2 n = (if n < 10 then ''0'' else []) @ to_string n"

definition year_text :: "int \<Rightarrow> string" where
  "year_text y = (if y < 0 then ''-'' else []) @ to_string (nat \<bar>y\<bar>)"

definition time_text :: "tm \<Rightarrow> nat \<Rightarrow> string" where
  "time_text dt minutes =
     year_text (tm_year dt + 1900) @ ''-'' @ month_names ! tm_mon dt @ ''-'' @ pad2 (tm_mday dt) @ '' ''
     @ pad2 (tm_hour dt) @ '':'' @ pad2 minutes @ '':'' @ pad2 (tm_sec dt) @ '' GMT''"

text \<open>In the format \<^verbatim>\<open>%Y-%h-%d %H:%m:%S %Z\<close> the second field of the time is the number of the month.\<close>

definition utcToString :: "time_t \<Rightarrow> string" where
  "utcToString t = time_text (gmtime t) (tm_mon (gmtime t) + 1)"

section \<open>The calendar is consistent\<close>

lemma year_len_pos [simp]: "0 < year_len y"
  by (simp add: year_len_def)

lemma month_len_bounds: "28 \<le> month_len y m \<and> month_len y m \<le> 31"
  by (simp add: month_len_def)

lemma days_before_year_Suc: "days_before_year (y + 1) = days_before_year y + int (year_len y)"
proof -
  have d: "y div k = (y - 1) div k + (if k dvd y then 1 else 0)" if "0 < k" for k :: int
  proof (cases "k dvd y")
    case True
    then obtain q where q: "y = k * q" by auto
    have "(k * q - 1) div k = q - 1"
      using that by (intro int_div_pos_eq [where r = "k - 1"]) (auto simp: algebra_simps)
    with q that True show ?thesis by simp
  next
    case False
    have e: "y = k * (y div k) + y mod k" by simp
    have r: "0 < y mod k" using False that by (metis dvd_eq_mod_eq_0 le_less pos_mod_sign)
    have "(y - 1) div k = y div k"
      using that r pos_mod_bound [OF that, of y]
      by (intro int_div_pos_eq [where r = "y mod k - 1"]) (use e in linarith)+
    with False show ?thesis by simp
  qed
  have d4: "y div 4 = (y - 1) div 4 + (if 4 dvd y then 1 else 0)" by (rule d) simp
  have d100: "y div 100 = (y - 1) div 100 + (if 100 dvd y then 1 else 0)" by (rule d) simp
  have d400: "y div 400 = (y - 1) div 400 + (if 400 dvd y then 1 else 0)" by (rule d) simp
  have arith: "365 * y + (a + p) - (b + q) + (c + r) = 365 * (y - 1) + a - b + c + 365 + (p - q + r)"
    for a b c p q r :: int by simp
  have i: "(100 :: int) dvd y \<Longrightarrow> 4 dvd y" "(400 :: int) dvd y \<Longrightarrow> 100 dvd y" by presburger+
  have "days_before_year (y + 1) = 365 * y + y div 4 - y div 100 + y div 400"
    by (simp add: days_before_year_def)
  also have "\<dots> = days_before_year y + 365
      + ((if 4 dvd y then 1 else 0) - (if 100 dvd y then 1 else 0) + (if 400 dvd y then 1 else 0))"
    unfolding d4 d100 d400 days_before_year_def by (rule arith)
  also have "\<dots> = days_before_year y + int (year_len y)"
    unfolding year_len_def is_leap_def using i
    by (cases "4 dvd y"; cases "100 dvd y"; cases "400 dvd y") simp_all
  finally show ?thesis .
qed

lemma days_before_year_400: "days_before_year (y + 400 * k) = days_before_year y + 146097 * k"
proof -
  have s: "y + 400 * k - 1 = (y - 1) + (100 * k) * 4" "y + 400 * k - 1 = (y - 1) + (4 * k) * 100"
    "y + 400 * k - 1 = (y - 1) + k * 400" by simp_all
  have "(y + 400 * k - 1) div 4 = 100 * k + (y - 1) div 4" by (subst s(1)) simp
  moreover have "(y + 400 * k - 1) div 100 = 4 * k + (y - 1) div 100" by (subst s(2)) simp
  moreover have "(y + 400 * k - 1) div 400 = k + (y - 1) div 400" by (subst s(3)) simp
  moreover have "365 * (y + 400 * k - 1) + (100 * k + a) - (4 * k + b) + (k + c)
      = 365 * (y - 1) + a - b + c + 146097 * k" for a b c by simp
  ultimately show ?thesis unfolding days_before_year_def by (simp only:)
qed

lemma find_year_sum:
  "find_year y n = (y', n') \<Longrightarrow>
    days_before_year y' + int n' = days_before_year y + int n \<and> n' < year_len y'"
proof (induction y n arbitrary: y' n' rule: find_year.induct)
  case (1 y n)
  show ?case
  proof (cases "year_len y \<le> n")
    case True
    with "1.prems" have "find_year (y + 1) (n - year_len y) = (y', n')" by (simp add: find_year.simps [of y n])
    from "1.IH" [OF True this] True show ?thesis
      by (auto simp: days_before_year_Suc of_nat_diff)
  next
    case False
    with "1.prems" show ?thesis by (simp add: find_year.simps [of y n])
  qed
qed

lemma days_in_year: "days_before_month y 12 = year_len y"
  by (simp add: numeral_eq_Suc month_len_def year_len_def)

lemma find_month_sum:
  "find_month y m n = (m', n') \<Longrightarrow> m \<le> 11 \<Longrightarrow> days_before_month y m + n < year_len y \<Longrightarrow>
    days_before_month y m' + n' = days_before_month y m + n \<and> m' \<le> 11 \<and> n' < month_len y m'"
proof (induction y m n arbitrary: m' n' rule: find_month.induct)
  case (1 y m n)
  show ?case
  proof (cases "m < 11 \<and> month_len y m \<le> n")
    case True
    with 1 show ?thesis by (simp add: find_month.simps [of y m n])
  next
    case False
    have "n < month_len y m"
    proof (rule ccontr)
      assume "\<not> n < month_len y m"
      with False "1.prems"(2) have "m = 11" by simp
      then have "days_before_month y 12 \<le> days_before_month y m + n"
        using \<open>\<not> n < month_len y m\<close> by (simp add: numeral_eq_Suc)
      with "1.prems"(3) show False by (simp add: days_in_year)
    qed
    with False "1.prems" show ?thesis by (auto simp: find_month.simps [of y m n])
  qed
qed

lemma clock_sum: "3600 * (n div 3600) + 60 * (n div 60 mod 60) + n mod 60 = (n :: nat)"
proof -
  have "n div 3600 = n div 60 div 60" by (simp add: div_mult2_eq [symmetric])
  then show ?thesis
    using mult_div_mod_eq [of 60 "n div 60"] mult_div_mod_eq [of 60 n] by linarith
qed

lemma gmtime_clock:
  "tm_sec (gmtime t) = nat (t mod 86400) mod 60"
  "tm_min (gmtime t) = nat (t mod 86400) div 60 mod 60"
  "tm_hour (gmtime t) = nat (t mod 86400) div 3600"
  by (cases "find_year (1970 + 400 * (t div 86400 div 146097)) (nat (t div 86400 mod 146097))",
      simp only: gmtime_def Let_def split_beta tm.simps)+

lemma gmtime_fields:
  "\<exists>y m md. tm_year (gmtime t) = y - 1900 \<and> tm_mon (gmtime t) = m \<and> tm_mday (gmtime t) = md + 1
     \<and> m \<le> 11 \<and> md < month_len y m
     \<and> days_before_year y - days_before_year 1970 + int (days_before_month y m) + int md = t div 86400"
proof -
  let ?days = "t div 86400"
  obtain y yd where fy: "find_year (1970 + 400 * (?days div 146097)) (nat (?days mod 146097)) = (y, yd)"
    by fastforce
  obtain m md where fm: "find_month y 0 yd = (m, md)" by fastforce
  from find_year_sum [OF fy] have sy: "days_before_year y + int yd
      = days_before_year 1970 + 146097 * (?days div 146097) + ?days mod 146097" and yd: "yd < year_len y"
    by (auto simp: days_before_year_400)
  then have sy': "days_before_year y + int yd = days_before_year 1970 + ?days"
    by (metis add.assoc mult_div_mod_eq)
  from find_month_sum [OF fm] yd have "days_before_month y m + md = yd" "m \<le> 11" "md < month_len y m" by auto
  with sy' show ?thesis
    by (intro exI [of _ y] exI [of _ m] exI [of _ md]) (auto simp: gmtime_def fy fm Let_def)
qed

lemma timegm_gmtime: "timegm (gmtime t) = t"
proof -
  obtain y m md where f: "tm_year (gmtime t) = y - 1900" "tm_mon (gmtime t) = m" "tm_mday (gmtime t) = md + 1"
    and d: "days_before_year y - days_before_year 1970 + int (days_before_month y m) + int md = t div 86400"
    using gmtime_fields by blast
  define n where "n = nat (t mod 86400)"
  have "int (3600 * (n div 3600) + 60 * (n div 60 mod 60) + n mod 60) = int n"
    by (simp only: clock_sum)
  moreover have "int n = t mod 86400" by (simp add: n_def)
  ultimately have c: "3600 * int (n div 3600) + 60 * int (n div 60 mod 60) + int (n mod 60) = t mod 86400"
    by (simp only: of_nat_add of_nat_mult of_nat_numeral)
  have "tm_year (gmtime t) + 1900 = y" using f(1) by simp
  then have "timegm (gmtime t) = 86400 * (t div 86400)
      + 3600 * int (n div 3600) + 60 * int (n div 60 mod 60) + int (n mod 60)"
    unfolding timegm_def gmtime_clock f(2,3) n_def [symmetric] using d by simp
  also have "\<dots> = 86400 * (t div 86400) + t mod 86400" using c by (simp only: add.assoc)
  finally show ?thesis by (simp only: mult_div_mod_eq)
qed

lemma gmtime_ranges:
  "tm_sec (gmtime t) < 60" "tm_min (gmtime t) < 60" "tm_hour (gmtime t) < 24"
  "tm_mon (gmtime t) < 12" "1 \<le> tm_mday (gmtime t)" "tm_mday (gmtime t) \<le> 31"
proof -
  have "nat (t mod 86400) < 24 * 3600" by (simp add: nat_less_iff)
  then show "tm_hour (gmtime t) < 24" unfolding gmtime_clock by (rule less_mult_imp_div_less)
  show "tm_sec (gmtime t) < 60" "tm_min (gmtime t) < 60" unfolding gmtime_clock by simp_all
  show "tm_mon (gmtime t) < 12" "1 \<le> tm_mday (gmtime t)" "tm_mday (gmtime t) \<le> 31"
    using gmtime_fields [of t] month_len_bounds by (auto simp: le_less_trans Suc_le_eq) (meson less_le_trans)
qed

section \<open>Reading what was printed\<close>

definition starts_nondigit :: "string \<Rightarrow> bool" where
  "starts_nondigit s \<longleftrightarrow> s = [] \<or> \<not> is_digit_char (hd s)"

lemma read_num_digits:
  assumes "\<forall>c \<in> set ds. is_digit_char c" "ds \<noteq> []" "length ds \<le> width" "starts_nondigit s"
    and "lo \<le> decimal_value ds" "decimal_value ds \<le> hi"
  shows "read_num width lo hi (ds @ s) = Some (decimal_value ds, s)"
proof -
  have "takeWhile is_digit_char (take width (ds @ s)) = ds"
    using assms(1,3,4) by (cases s; cases "width - length ds") (auto simp: starts_nondigit_def takeWhile_append)
  with assms show ?thesis by (simp add: read_num_def)
qed

lemma decimal_value_zero: "decimal_value (CHR ''0'' # s) = decimal_value s"
  by (simp add: decimal_value_def digit_value_def)

lemma to_string_length: "n < 10 ^ Suc k \<Longrightarrow> length (to_string n) \<le> Suc k"
proof (induction k arbitrary: n)
  case 0
  then show ?case by (simp add: to_string.simps)
next
  case (Suc k)
  show ?case
  proof (cases "n < 10")
    case False
    have "n div 10 < 10 ^ Suc k" using Suc.prems by (simp add: less_mult_imp_div_less)
    with Suc.IH False show ?thesis by (simp add: to_string.simps [of n])
  qed (simp add: to_string.simps [of n])
qed

lemma read_pad2:
  assumes "n < 100" "lo \<le> n" "n \<le> hi" "starts_nondigit s"
  shows "read_num 2 lo hi (pad2 n @ s) = Some (n, s)"
proof -
  have v: "decimal_value (pad2 n) = n" by (simp add: pad2_def decimal_value_zero)
  have "length (to_string n) \<le> 2" using to_string_length [of n 1] assms(1) by simp
  moreover have "length (to_string n) = 1" if "n < 10" using that by (simp add: to_string.simps [of n])
  ultimately have l: "length (pad2 n) \<le> 2" by (simp add: pad2_def)
  have d: "\<forall>c \<in> set (pad2 n). is_digit_char c"
    by (auto simp: pad2_def to_string_digits) (simp add: is_digit_char_def)
  show ?thesis
    using read_num_digits [OF d _ l assms(4), of lo hi] assms v by (simp add: pad2_def)
qed

lemma read_year:
  assumes "0 \<le> y" "y \<le> 9999" "starts_nondigit s"
  shows "read_num 4 0 9999 (year_text y @ s) = Some (nat y, s)"
proof -
  have "length (to_string (nat y)) \<le> 4" using to_string_length [of "nat y" 3] assms(1,2) by simp
  with read_num_digits [of "to_string (nat y)" 4 s 0 9999] assms show ?thesis
    by (simp add: year_text_def to_string_digits)
qed

lemma read_month_name:
  assumes "m < 12" shows "read_month (month_names ! m @ CHR ''-'' # s) = Some (m, CHR ''-'' # s)"
proof -
  have "m \<in> set [0..<12]" using assms by simp
  moreover have "[0..<12] = [0, 1, 2, 3, 4, 5, 6, 7, 8, 9, 10, 11 :: nat]" by code_simp
  ultimately have "m \<in> set [0, 1, 2, 3, 4, 5, 6, 7, 8, 9, 10, 11]" by (simp only:)
  then show ?thesis
    unfolding list.set
    by (elim insertE emptyE) (simp_all add: read_month_def month_names_def long_month_names_def)
qed

lemma skip_spaces_pad2: "skip_spaces (CHR '' '' # pad2 n @ s) = pad2 n @ s"
proof -
  have "\<not> is_space_char (hd (pad2 n))" "pad2 n \<noteq> []"
    using digit_not_space [OF to_string_hd_digit [of n]] by (auto simp: pad2_def is_space_char_def)
  moreover obtain c cs where "pad2 n = c # cs" using \<open>pad2 n \<noteq> []\<close> by (cases "pad2 n") auto
  moreover have "is_space_char CHR '' ''" by (simp add: is_space_char_def)
  ultimately show ?thesis by (simp add: skip_spaces_def)
qed

lemma starts_nondigit_chars [simp]:
  "starts_nondigit (CHR ''-'' # s)" "starts_nondigit (CHR '':'' # s)" "starts_nondigit (CHR '' '' # s)"
  by (simp_all add: starts_nondigit_def is_digit_char_def)

text \<open>
  Reading a printed time gives its fields back, the second field of the time as minutes, whatever
  it stood for.
\<close>

lemma getTime_text:
  assumes "0 \<le> tm_year dt + 1900" "tm_year dt + 1900 \<le> 9999" "tm_mon dt < 12" "1 \<le> tm_mday dt"
    and "tm_mday dt \<le> 31" "tm_hour dt < 24" "k < 60" "tm_sec dt < 60"
  shows "getTime (time_text dt k) False = Some (dt\<lparr>tm_min := k\<rparr>)"
  using assms
  by (simp add: getTime_def time_text_def read_year read_char_def read_month_name read_pad2 skip_spaces_pad2)

lemma getEpochTime_text:
  assumes "0 \<le> tm_year (gmtime t) + 1900" "tm_year (gmtime t) + 1900 \<le> 9999" "k < 60"
  shows "getEpochTime ind (time_text (gmtime t) k) = t + 60 * (int k - int (tm_min (gmtime t)))"
proof -
  have "getEpochTime ind (time_text (gmtime t) k) = timegm ((gmtime t)\<lparr>tm_min := k\<rparr>)"
    using getTime_text [of "gmtime t" k] gmtime_ranges [of t] assms by (simp add: getEpochTime_def)
  also have "\<dots> = timegm (gmtime t) + 60 * (int k - int (tm_min (gmtime t)))"
    by (simp add: timegm_def)
  finally show ?thesis by (simp only: timegm_gmtime)
qed

section \<open>Properties\<close>

text \<open>
  (C40) \<open>getEpochTime\<close> inverts the text of a time: a time of the years 0 to 9999, printed as
  \<open>year-month-day hours:minutes:seconds zone\<close> with the calendar of \<open>gmtime\<close>, is read back as itself.
\<close>

theorem epoch_roundtrip:
  assumes "0 \<le> tm_year (gmtime t) + 1900" and "tm_year (gmtime t) + 1900 \<le> 9999"
  shows "getEpochTime ind (time_text (gmtime t) (tm_min (gmtime t))) = t"
  using getEpochTime_text [OF assms gmtime_ranges(2)] by simp

lemma gmtime_block_time:
  "gmtime 1542092480 = \<lparr>tm_sec = 20, tm_min = 1, tm_hour = 7, tm_mday = 13, tm_mon = 10, tm_year = 118\<rparr>"
  by (simp add: gmtime_def find_year.simps find_month.simps year_len_def is_leap_def month_len_def)

lemma block_time_text: "time_text (gmtime 1542092480) 1 = ''2018-Nov-13 07:01:20 GMT''"
  unfolding gmtime_block_time by code_simp

theorem epoch_roundtrip_witness:
  "getEpochTime (\<lambda>_. 0) ''2018-Nov-13 07:01:20 GMT'' = 1542092480"
  using epoch_roundtrip [of 1542092480 "\<lambda>_. 0"] block_time_text by (simp add: gmtime_block_time)

text \<open>
  What \<open>utcToString\<close> prints is not the time: reading it back moves the time to the minute
  that has the number of the month.
\<close>

lemma utcToString_minutes:
  assumes "0 \<le> tm_year (gmtime t) + 1900" and "tm_year (gmtime t) + 1900 \<le> 9999"
  shows "getEpochTime ind (utcToString t)
    = t + 60 * (int (tm_mon (gmtime t)) + 1 - int (tm_min (gmtime t)))"
  using getEpochTime_text [OF assms, of "tm_mon (gmtime t) + 1" ind] gmtime_ranges(4) [of t]
  by (simp add: utcToString_def algebra_simps)

lemma utcToString_minutes_example:
  "getEpochTime (\<lambda>_. 0) (utcToString 1542092480) = 1542092480 + 600"
  using utcToString_minutes [of 1542092480 "\<lambda>_. 0"] by (simp add: gmtime_block_time)

end
