(* ===== verification/Blocks.thy ===== *)
theory Blocks
  imports Transactions Time
begin

text \<open>
  The block half of the indexing pipeline: \<^verbatim>\<open>common/src/db/blocks/blocks.cpp\<close> stores a fetched block in the
  processing table, \<^verbatim>\<open>common/src/db/blocks/processing.cpp\<close> is the worker that moves the blocks, in the order
  of their numbers, to the blocks table and hands their transactions on; it also stores the
  transactions of the genesis block and asks for the wallets of \<^verbatim>\<open>blocks/wallets_state.cpp\<close>.
\<close>

section \<open>Operations\<close>

definition catch_logged :: "('s, unit) prog \<Rightarrow> ('s, unit) prog" where
  "catch_logged m = catchP m (\<lambda>e. if is_reql_error e \<or> is_std_exception e then ret () else raise e)"

definition block_timestamp :: "'e json_lib_scheme \<Rightarrow> (string \<Rightarrow> time_t) \<Rightarrow> time_t \<Rightarrow> json \<Rightarrow> json result" where
  "block_timestamp L indeterminate now block =
     (if count_key block ''timestamp'' \<noteq> 0
      then bindE (bindE (jl_index L block ''timestamp'') (jl_get_string L)) (\<lambda>s.
           jl_set L block ''timestamp'' (JInt (getEpochTime indeterminate s)))
      else jl_set L block ''timestamp'' (JInt now))"

definition add_block ::
  "('w, 'e) env_scheme \<Rightarrow> (string \<Rightarrow> time_t) \<Rightarrow> db \<Rightarrow> json \<Rightarrow> uint256 \<Rightarrow> ('w, unit) prog" where
  "add_block E indeterminate d block block_id =
     catch_logged
       (let i = UInt256ToDecString E block_id in
        bindP (get_data E (cursor_get i None (table_cursor True (open_table d t_blocks_processing)))) (\<lambda>row.
        if 0 < count_key row ''id'' then ret ()
        else
          bindP (lift (bindE (stoull i) (\<lambda>b. jl_set E block ''block-id'' (JUint b)))) (\<lambda>block.
          bindP (getP (clock E)) (\<lambda>now.
          bindP (lift (block_timestamp E indeterminate now block)) (\<lambda>block.
          bindP (lift (jl_set E block ''index-timestamp'' (JInt now))) (\<lambda>block.
          table_insert E block (open_table d t_blocks_processing)))))))"

definition block_changes ::
  "('w, 'e) env_scheme \<Rightarrow> db \<Rightarrow> json \<Rightarrow> uint256 \<Rightarrow> time_t \<Rightarrow> ('w pstate, unit) prog" where
  "block_changes E d block i t =
     catchP
       (bindP (lift (jl_at E block ''transactions'')) (\<lambda>trx. add_transactions E d trx i t))
       (\<lambda>e. if e = Timeout \<or> is_reql_error e then ret () else raise e)"

section \<open>The block worker\<close>

definition get_prev_bid :: "('w, 'e) env_scheme \<Rightarrow> db \<Rightarrow> ('w, uint64) prog" where
  "get_prev_bid E d =
     bindP (get_number E (cursor_field ''block-id'' (cursor_max ''block-id''
       (table_cursor False (open_table d t_blocks))))) (\<lambda>v.
     ret (word_of_int (trunc_double v)))"

text \<open>One item; the answer is false where the loop breaks.\<close>

definition block_item :: "('w, 'e) env_scheme \<Rightarrow> db \<Rightarrow> json \<Rightarrow> ('w pstate, bool) prog" where
  "block_item E d item =
     bindP (lift (bindE (jl_index E item ''block-id'') (jl_get_u64 E))) (\<lambda>bid.
     bindP (on_db (get_prev_bid E d)) (\<lambda>prev_bid.
     if 0 < prev_bid \<and> 1 < bid - prev_bid \<and> prev_bid < bid then ret False
     else
       let i = to_string (unat bid) in
       bindP (on_db (get_data E (cursor_get i None (table_cursor True (open_table d t_blocks))))) (\<lambda>row.
       bindP (lift (bindE (jl_index E item ''timestamp'') (jl_get_time E))) (\<lambda>t.
       bindP (block_changes E d item (ucast bid) t) (\<lambda>_.
       bindP (if 0 < count_key row ''id'' then ret ()
              else on_db (table_insert E item (open_table d t_blocks))) (\<lambda>_.
       bindP (on_db (cursor_remove_id E i (table_cursor True (open_table d t_blocks_processing)))) (\<lambda>_.
       ret True)))))))"

fun block_items :: "('w, 'e) env_scheme \<Rightarrow> db \<Rightarrow> json list \<Rightarrow> ('w pstate, unit) prog" where
  "block_items E d [] = ret ()"
| "block_items E d (item # rest) =
     bindP (block_item E d item) (\<lambda>go_on. if go_on then block_items E d rest else ret ())"

definition blocks_pass :: "('w, 'e) env_scheme \<Rightarrow> db \<Rightarrow> ('w pstate, unit) prog" where
  "blocks_pass E d =
     catchP
       (bindP (on_db (get_data E (cursor_sort ''block-id'' (table_cursor True (open_table d t_blocks_processing))))) (\<lambda>js.
        block_items E d (items js)))
       (\<lambda>_. ret ())"

section \<open>The genesis block\<close>

definition update_wallets_state :: "('w, 'e) env_scheme \<Rightarrow> db \<Rightarrow> ('w pstate, unit) prog" where
  "update_wallets_state E d =
     bindP (on_db (get_data E (cursor_field ''id'' (table_cursor True (open_table d t_wallets))))) (\<lambda>js.
     forP (items js) (\<lambda>item.
       bindP (lift (jl_get_string E item)) update_wallet_state))"

text \<open>The columns of a genesis row are the members of the transaction.\<close>

fun genesis_items :: "('w, 'e) env_scheme \<Rightarrow> db \<Rightarrow> json list \<Rightarrow> uint64 \<Rightarrow> ('w pstate, unit) prog" where
  "genesis_items E d [] n = ret ()"
| "genesis_items E d (trx # trxs) n =
     bindP (add_wallet_transaction E d trx 0 0) (\<lambda>_.
     bindP (lift (bindE (jl_index E trx ''public-key'') (jl_get_string E))) (\<lambda>pk.
     bindP (lift (bindE (jl_index E trx ''transaction-id'') (jl_get_string E))) (\<lambda>ti.
     bindP (lift (jl_set E trx ''serial'' (JUint n))) (\<lambda>trx'.
     bindP (on_db (table_update_columns E (trx_key pk ''0'' ti) (members trx') (open_table d t_genesis_transactions))) (\<lambda>_.
     genesis_items E d trxs (n + 1))))))"

definition update_genesis :: "('w, 'e) env_scheme \<Rightarrow> db \<Rightarrow> json \<Rightarrow> ('w pstate, unit) prog" where
  "update_genesis E d genesis =
     bindP (genesis_items E d (items genesis) 0) (\<lambda>_. update_wallets_state E d)"

section \<open>The worker on the level of rows\<close>

text \<open>
  A block row as \<open>add_block\<close> writes it: keyed by the decimal text of its number, with a time. A row
  is ready if it says what its transactions are.
\<close>

definition block_row :: "string \<Rightarrow> json \<Rightarrow> bool" where
  "block_row i r \<longleftrightarrow> has_index_value ''block-id'' r \<and> i = to_string (unat (index_value ''block-id'' r))
     \<and> id_string r = Some i"

definition block_rows :: "row_map \<Rightarrow> bool" where
  "block_rows t \<longleftrightarrow> (\<forall>i r. t i = Some r \<longrightarrow> block_row i r)"

definition timed :: "json \<Rightarrow> bool" where
  "timed r \<longleftrightarrow> (\<exists>t. field r ''timestamp'' = Some (JInt t))"

definition ready :: "json \<Rightarrow> bool" where
  "ready r \<longleftrightarrow> field r ''transactions'' \<noteq> None"

definition too_far :: "uint64 \<Rightarrow> uint64 \<Rightarrow> bool" where
  "too_far prev b \<longleftrightarrow> 0 < prev \<and> 1 < b - prev \<and> prev < b"

text \<open>
  What an item does to the blocks table \<open>t\<close> and the processing table \<open>p\<close>.
\<close>

definition spec_block :: "json \<Rightarrow> row_map \<times> row_map \<Rightarrow> bool \<times> (row_map \<times> row_map)" where
  "spec_block x = (\<lambda>(t, p).
     let b = index_value ''block-id'' x; i = to_string (unat b) in
     if too_far (max_index ''block-id'' t) b \<or> \<not> ready x then (False, (t, p))
     else (True, (if t i = None then t(i \<mapsto> x) else t, p(i := None))))"

fun spec_blocks :: "json list \<Rightarrow> row_map \<times> row_map \<Rightarrow> row_map \<times> row_map" where
  "spec_blocks [] tp = tp"
| "spec_blocks (x # xs) tp = (case spec_block x tp of (True, tp') \<Rightarrow> spec_blocks xs tp' | (False, tp') \<Rightarrow> tp')"

lemma b_names_distinct [simp]:
  "t_blocks \<noteq> t_blocks_processing" "t_blocks_processing \<noteq> t_blocks"
  "t_blocks \<noteq> t_transactions_processing" "t_blocks_processing \<noteq> t_transactions_processing"
  by (simp_all add: table_names)

definition block_tables :: "tables \<Rightarrow> row_map \<times> row_map" where
  "block_tables T = (T t_blocks, T t_blocks_processing)"

context explorer_env
begin

lemma get_prev_bid_value:
  assumes "db_name d = dbn"
  shows "get_prev_bid E d w = (Inr (max_index ''block-id'' (rows w t_blocks)), w)"
  using get_number_max [OF assms, of False t_blocks w]
  by (simp add: get_prev_bid_def bindP_def)

lemma dec_ucast: "UInt256ToDecString E (ucast (b :: uint64)) = to_string (unat b)"
  by (simp add: dec256)

lemma marker_row_value:
  "\<exists>m. marker_row E (to_string (unat (b :: uint64))) t = Inr (JObj m) \<and> has_string_id (JObj m)"
  by (simp add: marker_row_def stoull_to_string [OF unat_less_64] has_string_id_def id_string_def)

text \<open>Handing on the transactions changes neither of the two tables.\<close>

lemma block_changes_effect:
  assumes "db_name d = dbn" "field x ''transactions'' = Some v"
  shows "\<exists>s'. block_changes E d x (ucast (b :: uint64)) t s = (Inr (), s')
    \<and> block_tables (rows (ps_world s')) = block_tables (rows (ps_world s))"
proof (cases "is_array v")
  case True
  then show ?thesis
    using assms(2) by (simp add: block_changes_def catchP_def add_transactions_def push_task_def)
next
  case False
  obtain m where m: "marker_row E (to_string (unat b)) t = Inr (JObj m)" "has_string_id (JObj m)"
    using marker_row_value by blast
  obtain w' where w': "table_insert E (JObj m) (open_table d t_transactions_processing) (ps_world s) = (Inr (), w')"
    "rows w' = (rows (ps_world s))(t_transactions_processing :=
       insert_row (rows (ps_world s) t_transactions_processing) (JObj m))"
    using insert_row_effect [OF assms(1) m(2)] by blast
  have "block_changes E d x (ucast b) t s = (Inr (), s\<lparr>ps_world := w'\<rparr>)"
    using assms(2) False m(1) w'(1)
    by (simp add: block_changes_def catchP_def add_transactions_def dec_ucast on_db_def)
  with w'(2) show ?thesis by (simp add: block_tables_def)
qed

lemma block_changes_not_ready:
  assumes "is_object x" "field x ''transactions'' = None"
  shows "\<exists>e. block_changes E d x i t s = (Inl e, s)"
  using assms by (simp add: block_changes_def catchP_def)

lemma block_item_refines:
  assumes "db_name d = dbn" "block_row i x" "timed x"
    and spec: "spec_block x (block_tables (rows (ps_world s))) = (go_on, tp')"
  shows "(\<exists>s'. block_item E d x s = (Inr go_on, s') \<and> block_tables (rows (ps_world s')) = tp')
    \<or> (\<exists>e. block_item E d x s = (Inl e, s) \<and> \<not> go_on \<and> tp' = block_tables (rows (ps_world s)))"
proof -
  let ?T = "rows (ps_world s)" and ?b = "index_value ''block-id'' x"
  obtain m where x: "x = JObj m" using assms(2) by (cases x) (auto simp: block_row_def id_string_Some)
  have id: "id_string x = Some i" and i: "i = to_string (unat ?b)" using assms(2) by (simp_all add: block_row_def)
  have fb: "field x ''block-id'' = Some (JUint ?b)"
    using assms(2) by (auto simp: block_row_def has_index_value_field index_value_field)
  obtain t where ft: "field x ''timestamp'' = Some (JInt t)" using assms(3) by (auto simp: timed_def)
  let ?far = "too_far (max_index ''block-id'' (?T t_blocks)) ?b"
  let ?row = "case ?T t_blocks i of Some r \<Rightarrow> r | None \<Rightarrow> JArr []"
  have c: "0 < count_key ?row ''id'' \<longleftrightarrow> ?T t_blocks i \<noteq> None" by (rule fetched_has_id)
  have g: "on_db (get_data E (cursor_get i None (table_cursor True (open_table d t_blocks)))) s = (Inr ?row, s)"
    using get_data_row [OF assms(1), of i True t_blocks "ps_world s"] by (simp add: on_db_def)
  have p: "on_db (get_prev_bid E d) s = (Inr (max_index ''block-id'' (?T t_blocks)), s)"
    using get_prev_bid_value [OF assms(1)] by (simp add: on_db_def)
  have start: "block_item E d x s = (if ?far then (Inr False, s)
      else bindP (block_changes E d x (ucast ?b) t) (\<lambda>_.
           bindP (if ?T t_blocks i \<noteq> None then ret () else on_db (table_insert E x (open_table d t_blocks))) (\<lambda>_.
           bindP (on_db (cursor_remove_id E i (table_cursor True (open_table d t_blocks_processing)))) (\<lambda>_. ret True))) s)"
    unfolding block_item_def Let_def
    by (simp add: i [symmetric] fb ft p g c too_far_def bindP_def [of "on_db (get_prev_bid E d)"]
        bindP_def [of "on_db (get_data E (cursor_get i None (table_cursor True (open_table d t_blocks))))"]
        del: count_key_pos)
  have sp: "spec_block x (block_tables ?T) =
      (if ?far \<or> \<not> ready x then (False, block_tables ?T)
       else (True, (if ?T t_blocks i = None then (?T t_blocks)(i \<mapsto> x) else ?T t_blocks, (?T t_blocks_processing)(i := None))))"
    by (simp add: spec_block_def block_tables_def i Let_def)
  show ?thesis
  proof (cases "?far \<or> \<not> ready x")
    case True
    show ?thesis
    proof (cases ?far)
      case True
      with start sp spec show ?thesis by auto
    next
      case False
      with True have "field x ''transactions'' = None" by (simp add: ready_def)
      then obtain e where "block_changes E d x (ucast ?b) t s = (Inl e, s)"
        using block_changes_not_ready x by fastforce
      with False True start sp spec show ?thesis by (auto simp: bindP_def)
    qed
  next
    case False
    then obtain v where "field x ''transactions'' = Some v" by (auto simp: ready_def)
    from block_changes_effect [OF assms(1) this] obtain s1 where
      s1: "block_changes E d x (ucast ?b) t s = (Inr (), s1)" "block_tables (rows (ps_world s1)) = block_tables ?T"
      by blast
    obtain s2 where s2: "(if ?T t_blocks i \<noteq> None then ret () else on_db (table_insert E x (open_table d t_blocks))) s1 = (Inr (), s2)"
      "rows (ps_world s2) t_blocks = (if ?T t_blocks i = None then (?T t_blocks)(i \<mapsto> x) else ?T t_blocks)"
      "rows (ps_world s2) t_blocks_processing = ?T t_blocks_processing"
    proof (cases "?T t_blocks i")
      case None
      have "has_string_id (JObj m)" using id x by (simp add: has_string_id_def)
      from insert_row_effect [OF assms(1) this, of t_blocks "ps_world s1"] None id x s1(2) that show ?thesis
        by (auto simp: on_db_def insert_row_def block_tables_def)
    next
      case (Some r)
      with s1(2) that show ?thesis by (auto simp: block_tables_def)
    qed
    obtain cu w3 where "cursor_remove_id E i (table_cursor True (open_table d t_blocks_processing)) (ps_world s2) = (Inr cu, w3)"
      "rows w3 = (rows (ps_world s2))(t_blocks_processing := (rows (ps_world s2) t_blocks_processing)(i := None))"
      using remove_effect [OF assms(1)] by blast
    then show ?thesis
      using False start s1(1) s2 sp spec by (auto simp: bindP_def on_db_def block_tables_def)
  qed
qed

text \<open>A round of the worker is a round of the specification.\<close>

lemma block_items_refines:
  assumes "db_name d = dbn" "\<forall>x \<in> set xs. (\<exists>i. block_row i x) \<and> timed x"
  shows "block_tables (rows (ps_world (snd (block_items E d xs s))))
    = spec_blocks xs (block_tables (rows (ps_world s)))"
  using assms(2)
proof (induction xs arbitrary: s)
  case Nil
  then show ?case by simp
next
  case (Cons x xs)
  obtain i where i: "block_row i x" "timed x" using Cons.prems by auto
  obtain go tp where sp: "spec_block x (block_tables (rows (ps_world s))) = (go, tp)"
    by (cases "spec_block x (block_tables (rows (ps_world s)))")
  from block_item_refines [OF assms(1) i sp] Cons sp show ?case
    by (cases go) (auto simp: bindP_def)
qed

lemma blocks_pass_refines:
  assumes "db_name d = dbn" "block_rows (rows (ps_world s) t_blocks_processing)"
    and "\<forall>r \<in> ran (rows (ps_world s) t_blocks_processing). timed r"
  shows "\<exists>xs. distinct xs \<and> set xs = ran (rows (ps_world s) t_blocks_processing)
    \<and> sorted (map (index_value ''block-id'') xs)
    \<and> block_tables (rows (ps_world (snd (blocks_pass E d s)))) = spec_blocks xs (block_tables (rows (ps_world s)))"
proof -
  let ?p = "rows (ps_world s) t_blocks_processing"
  obtain xs where g: "get_data E (cursor_sort ''block-id'' (table_cursor True (open_table d t_blocks_processing))) (ps_world s)
      = (Inr (JArr xs), ps_world s)" and xs: "distinct xs" "set xs = {r \<in> ran ?p. has_index_value ''block-id'' r}"
    "sorted (map (index_value ''block-id'') xs)"
    using get_data_sorted [OF assms(1)] by blast
  have all: "{r \<in> ran ?p. has_index_value ''block-id'' r} = ran ?p"
    using assms(2) by (auto simp: ran_def block_rows_def block_row_def)
  have ok: "\<forall>x \<in> set xs. (\<exists>i. block_row i x) \<and> timed x"
    using assms(2,3) xs(2) by (auto simp: ran_def block_rows_def)
  have "snd (blocks_pass E d s) = snd (block_items E d xs s)"
    unfolding blocks_pass_def by (simp add: catchP_def bindP_def on_db_def g split: prod.split sum.split)
  with block_items_refines [OF assms(1) ok] xs all show ?thesis by auto
qed

end

section \<open>What a round keeps\<close>

lemma max_index_upd:
  assumes "finite (dom t)" "t i = None" "has_index_value f x"
  shows "max_index f (t(i \<mapsto> x)) = max (max_index f t) (index_value f x)"
proof -
  let ?s = "{r \<in> ran t. has_index_value f r}"
  have fin: "finite ?s" using finite_ran [OF assms(1)] by simp
  have "{r \<in> ran (t(i \<mapsto> x)). has_index_value f r} = insert x ?s"
    using assms(2,3) by (auto simp: ran_map_upd)
  then have m: "max_index f (t(i \<mapsto> x)) = Max (insert (index_value f x) (index_value f ` ?s))"
    by (simp add: max_index_def Let_def)
  show ?thesis
  proof (cases "?s = {}")
    case True
    with m show ?thesis by (simp only: max_index_def Let_def image_empty Max_singleton if_True) simp
  next
    case False
    then have "Max (insert (index_value f x) (index_value f ` ?s)) = max (index_value f x) (Max (index_value f ` ?s))"
      using fin by (intro Max_insert) simp_all
    with m False show ?thesis by (simp only: max_index_def Let_def if_False max.commute)
  qed
qed

lemma max_index_mono:
  assumes "finite (dom t)" "t i = Some r" "has_index_value f r"
  shows "index_value f r \<le> max_index f t"
proof -
  have m: "r \<in> {r \<in> ran t. has_index_value f r}" using assms(2,3) by (auto simp: ran_def)
  then have "{r \<in> ran t. has_index_value f r} \<noteq> {}" by blast
  with m show ?thesis
    using finite_ran [OF assms(1)] unfolding max_index_def Let_def by (simp del: Collect_empty_eq)
qed

definition has_block :: "row_map \<Rightarrow> nat \<Rightarrow> bool" where
  "has_block t n \<longleftrightarrow> t (to_string n) \<noteq> None"

text \<open>Every number from \<open>n\<close> up to the largest block number is there.\<close>

definition dense_from :: "nat \<Rightarrow> row_map \<Rightarrow> bool" where
  "dense_from n t \<longleftrightarrow> (\<forall>k. n \<le> k \<longrightarrow> k \<le> unat (max_index ''block-id'' t) \<longrightarrow> has_block t k)"

lemma not_too_far:
  assumes "0 < prev" "\<not> too_far prev b"
  shows "unat b \<le> unat prev + 1"
proof (cases "prev < b")
  case True
  with assms have "b - prev \<le> 1" by (auto simp: too_far_def)
  then have "unat (b - prev) \<le> unat (1 :: uint64)" by (simp only: word_le_nat_alt)
  then have "unat (b - prev) \<le> 1" by simp
  moreover have "unat (b - prev) = unat b - unat prev" using True by (intro unat_sub) simp
  ultimately show ?thesis by simp
next
  case False
  then have "unat b \<le> unat prev" by (simp add: not_less word_le_nat_alt)
  then show ?thesis by simp
qed

lemma spec_block_dense:
  assumes "spec_block x (t, p) = (go, (t', p'))" "finite (dom t)" "has_index_value ''block-id'' x"
    and "0 < max_index ''block-id'' t" "dense_from n t"
  shows "dense_from n t' \<and> finite (dom t') \<and> max_index ''block-id'' t \<le> max_index ''block-id'' t' \<and> t \<subseteq>\<^sub>m t'"
proof -
  let ?b = "index_value ''block-id'' x"
  show ?thesis
  proof (cases "go \<and> t (to_string (unat ?b)) = None")
    case False
    then have "t' = t" using assms(1) by (auto simp: spec_block_def Let_def split: if_splits)
    then show ?thesis using assms by simp
  next
    case True
    then have t': "t' = t(to_string (unat ?b) \<mapsto> x)" and far: "\<not> too_far (max_index ''block-id'' t) ?b"
      using assms(1) by (auto simp: spec_block_def Let_def split: if_splits)
    have mx: "max_index ''block-id'' t' = max (max_index ''block-id'' t) ?b"
      unfolding t' using max_index_upd [OF assms(2) _ assms(3)] True by blast
    have b: "unat ?b \<le> unat (max_index ''block-id'' t) + 1" by (rule not_too_far [OF assms(4) far])
    have "dense_from n t'"
      unfolding dense_from_def
    proof (intro allI impI)
      fix k assume k: "n \<le> k" "k \<le> unat (max_index ''block-id'' t')"
      then have "k \<le> unat (max_index ''block-id'' t) \<or> k = unat ?b"
        using b mx by (auto simp: max_def split: if_splits)
      then show "has_block t' k"
        using assms(5) k(1) by (auto simp: dense_from_def has_block_def t')
    qed
    moreover have "t \<subseteq>\<^sub>m t'" using True unfolding t' by (auto simp: map_le_def)
    ultimately show ?thesis using mx assms(2) t' by simp
  qed
qed

lemma spec_blocks_dense:
  assumes "\<forall>x \<in> set xs. has_index_value ''block-id'' x" "finite (dom t)"
    and "0 < max_index ''block-id'' t" "dense_from n t" "spec_blocks xs (t, p) = (t', p')"
  shows "dense_from n t' \<and> t \<subseteq>\<^sub>m t'"
  using assms
proof (induction xs arbitrary: t p)
  case (Cons x xs)
  obtain go t1 p1 where sp: "spec_block x (t, p) = (go, (t1, p1))" by (metis surj_pair)
  from spec_block_dense [OF sp Cons.prems(2) _ Cons.prems(3,4)] Cons.prems(1)
  have d: "dense_from n t1" "finite (dom t1)" "max_index ''block-id'' t \<le> max_index ''block-id'' t1" "t \<subseteq>\<^sub>m t1"
    by auto
  show ?case
  proof (cases go)
    case True
    with sp Cons.prems(5) have "spec_blocks xs (t1, p1) = (t', p')" by simp
    moreover have "0 < max_index ''block-id'' t1" using d(3) Cons.prems(3) by (rule less_le_trans [rotated])
    ultimately show ?thesis using Cons.IH [OF _ d(2) _ d(1)] Cons.prems(1) d(4) by (auto intro: map_le_trans)
  next
    case False
    with sp Cons.prems(5) d show ?thesis by auto
  qed
qed auto

text \<open>A block is still waiting or it is stored.\<close>

definition blocks_accounted :: "row_map \<Rightarrow> row_map \<times> row_map \<Rightarrow> bool" where
  "blocks_accounted p0 = (\<lambda>(t, p). \<forall>i r. p0 i = Some r \<longrightarrow> p i = Some r \<or> t i \<noteq> None)"

lemma spec_blocks_accounted:
  assumes "\<forall>x \<in> set xs. \<exists>i. block_row i x" "blocks_accounted p0 tp"
  shows "blocks_accounted p0 (spec_blocks xs tp)"
  using assms
proof (induction xs arbitrary: tp)
  case (Cons x xs)
  obtain t p where tp: "tp = (t, p)" by (cases tp)
  obtain go tp1 where sp: "spec_block x tp = (go, tp1)" by (cases "spec_block x tp")
  have "blocks_accounted p0 tp1"
    using sp Cons.prems(2)
    by (fastforce simp: tp spec_block_def blocks_accounted_def Let_def split: if_splits)
  with Cons sp show ?case by (cases go) auto
qed simp

text \<open>Numbers that follow the largest stored one without a gap.\<close>

fun follows :: "uint64 \<Rightarrow> json list \<Rightarrow> bool" where
  "follows m [] = True"
| "follows m (x # xs) =
     (ready x \<and> \<not> too_far m (index_value ''block-id'' x) \<and> follows (max m (index_value ''block-id'' x)) xs)"

lemma spec_blocks_drain:
  assumes "\<forall>x \<in> set xs. has_index_value ''block-id'' x" "finite (dom t)" "block_rows t"
    and "follows (max_index ''block-id'' t) xs" "spec_blocks xs (t, p) = (t', p')"
    and "\<forall>x \<in> set xs. \<exists>i. block_row i x"
  shows "\<forall>x \<in> set xs. p' (to_string (unat (index_value ''block-id'' x))) = None
    \<and> has_block t' (unat (index_value ''block-id'' x))"
    and "p' \<subseteq>\<^sub>m p" and "t \<subseteq>\<^sub>m t'"
proof -
  have "(\<forall>x \<in> set xs. p' (to_string (unat (index_value ''block-id'' x))) = None
    \<and> has_block t' (unat (index_value ''block-id'' x))) \<and> p' \<subseteq>\<^sub>m p \<and> t \<subseteq>\<^sub>m t'"
    using assms
  proof (induction xs arbitrary: t p)
    case (Cons x xs)
    let ?b = "index_value ''block-id'' x" and ?i = "to_string (unat (index_value ''block-id'' x))"
    let ?t = "if t ?i = None then t(?i \<mapsto> x) else t"
    have sp: "spec_block x (t, p) = (True, (?t, p(?i := None)))"
      using Cons.prems(4) by (simp add: spec_block_def Let_def)
    have row: "block_row ?i x" using Cons.prems(6) by (auto simp: block_row_def)
    have mx: "max_index ''block-id'' ?t = max (max_index ''block-id'' t) ?b"
    proof (cases "t ?i")
      case None
      then show ?thesis using max_index_upd [OF Cons.prems(2) None] Cons.prems(1) by simp
    next
      case (Some r)
      then have "block_row ?i r" using Cons.prems(3) by (simp add: block_rows_def)
      then have r: "has_index_value ''block-id'' r" "index_value ''block-id'' r = ?b"
        by (auto simp: block_row_def word_unat_eq_iff)
      have "?b \<le> max_index ''block-id'' t"
        using max_index_mono [OF Cons.prems(2) Some r(1)] r(2) by simp
      with Some show ?thesis by (simp add: max.absorb1)
    qed
    have br: "block_rows ?t" using Cons.prems(3) row by (auto simp: block_rows_def)
    have fi: "finite (dom ?t)" using Cons.prems(2) by simp
    have fo: "follows (max_index ''block-id'' ?t) xs" using Cons.prems(4) mx by simp
    have sb: "spec_blocks xs (?t, p(?i := None)) = (t', p')" using Cons.prems(5) sp by simp
    have ok: "\<forall>y \<in> set xs. has_index_value ''block-id'' y" "\<forall>y \<in> set xs. \<exists>i. block_row i y"
      using Cons.prems(1,6) by simp_all
    note ih = conjunct1 [OF Cons.IH [OF ok(1) fi br fo sb ok(2)]]
      conjunct1 [OF conjunct2 [OF Cons.IH [OF ok(1) fi br fo sb ok(2)]]]
      conjunct2 [OF conjunct2 [OF Cons.IH [OF ok(1) fi br fo sb ok(2)]]]
    have "p' ?i = None" using ih(2) by (force simp: map_le_def dom_def)
    moreover have "has_block t' (unat ?b)"
      using ih(3) by (force simp: map_le_def has_block_def dom_def split: if_splits)
    moreover have "p' \<subseteq>\<^sub>m p" by (rule map_le_trans [OF ih(2) upd_None_map_le])
    moreover have "t \<subseteq>\<^sub>m t'" using ih(3) by (force simp: map_le_def dom_def split: if_splits)
    ultimately show ?case using ih(1) by simp
  qed auto
  then show "\<forall>x \<in> set xs. p' (to_string (unat (index_value ''block-id'' x))) = None
    \<and> has_block t' (unat (index_value ''block-id'' x))" and "p' \<subseteq>\<^sub>m p" and "t \<subseteq>\<^sub>m t'" by blast+
qed

section \<open>Properties of the block worker\<close>

text \<open>
  The tables as \<open>add_block\<close> and the worker keep them: blocks keyed by their numbers, with a time.
\<close>

definition blocks_inv :: "tables \<Rightarrow> bool" where
  "blocks_inv T \<longleftrightarrow> block_rows (T t_blocks) \<and> block_rows (T t_blocks_processing)
     \<and> (\<forall>r \<in> ran (T t_blocks_processing). timed r)"

lemma blocks_pass_spec:
  assumes "explorer_env E (db_name d) rows" "blocks_inv (rows (ps_world s))"
  obtains xs t' p' where "set xs = ran (rows (ps_world s) t_blocks_processing)"
    "sorted (map (index_value ''block-id'') xs)" "distinct xs"
    "\<forall>x \<in> set xs. \<exists>i. block_row i x" "\<forall>x \<in> set xs. has_index_value ''block-id'' x"
    "spec_blocks xs (rows (ps_world s) t_blocks, rows (ps_world s) t_blocks_processing) = (t', p')"
    "rows (ps_world (snd (blocks_pass E d s))) t_blocks = t'"
    "rows (ps_world (snd (blocks_pass E d s))) t_blocks_processing = p'"
proof -
  have i: "block_rows (rows (ps_world s) t_blocks_processing)"
    "\<forall>r \<in> ran (rows (ps_world s) t_blocks_processing). timed r"
    using assms(2) by (simp_all add: blocks_inv_def)
  from explorer_env.blocks_pass_refines [OF assms(1) refl i] obtain xs where xs: "distinct xs"
    "set xs = ran (rows (ps_world s) t_blocks_processing)" "sorted (map (index_value ''block-id'') xs)"
    "block_tables (rows (ps_world (snd (blocks_pass E d s)))) = spec_blocks xs (block_tables (rows (ps_world s)))"
    by blast
  have ok: "\<forall>x \<in> set xs. \<exists>i. block_row i x" using i(1) xs(2) by (auto simp: ran_def block_rows_def)
  then have ok2: "\<forall>x \<in> set xs. has_index_value ''block-id'' x" by (auto simp: block_row_def)
  show thesis
    by (rule that [OF xs(2,3,1) ok ok2 xs(4) [symmetric, unfolded block_tables_def] refl refl])
qed

text \<open>A stored block 7 and a waiting block 8, for concrete runs.\<close>

definition sample_blk :: "string \<Rightarrow> uint64 \<Rightarrow> json" where
  "sample_blk i n = obj [(''id'', JStr i), (''block-id'', JUint n), (''timestamp'', JInt 0), (''transactions'', JArr [])]"

definition sample_bstate :: "refdb pstate" where
  "sample_bstate = \<lparr>ps_world = (\<lambda>_. [])(t_blocks := [sample_blk ''7'' 7], t_blocks_processing := [sample_blk ''8'' 8]),
     ps_tasks = [], ps_wallets = [], ps_prev_bid = 0\<rparr>"

lemma sample_blk_fields:
  "id_string (sample_blk i n) = Some i" "has_index_value ''block-id'' (sample_blk i n)"
  "index_value ''block-id'' (sample_blk i n) = n" "timed (sample_blk i n)" "ready (sample_blk i n)"
  by (simp_all add: sample_blk_def obj_def id_string_def has_index_value_def uint_field_def index_value_def
      timed_def ready_def)

lemma sample_block_rows:
  "ref_rows (ps_world sample_bstate) t_blocks = [''7'' \<mapsto> sample_blk ''7'' 7]"
  "ref_rows (ps_world sample_bstate) t_blocks_processing = [''8'' \<mapsto> sample_blk ''8'' 8]"
  by (auto simp: fun_eq_iff ref_rows_def sample_bstate_def has_id_def sample_blk_fields)

lemma sample_waiting: "ref_rows (ps_world sample_bstate) t_blocks_processing ''8'' = Some (sample_blk ''8'' 8)"
  by (simp add: sample_block_rows)

lemma sample_blocks_inv: "blocks_inv (ref_rows (ps_world sample_bstate))"
proof -
  have "block_row ''7'' (sample_blk ''7'' 7)" "block_row ''8'' (sample_blk ''8'' 8)"
    by (simp_all add: block_row_def sample_blk_fields to_string_7 to_string_8)
  then show ?thesis
    by (auto simp: blocks_inv_def block_rows_def sample_block_rows sample_blk_fields split: if_splits)
qed

lemma sample_max: "max_index ''block-id'' (ref_rows (ps_world sample_bstate) t_blocks) = 7"
  using max_index_upd [of Map.empty "''7''" "''block-id''" "sample_blk ''7'' 7"]
  by (simp add: sample_block_rows sample_blk_fields) (simp add: max_index_def)

lemma sample_max_7: "max_index ''block-id'' [''7'' \<mapsto> sample_blk ''7'' 7] = 7"
  using sample_max by (simp only: sample_block_rows)

text \<open>The largest stored number is the number of a stored block, so there is no gap above it.\<close>

lemma max_block_dense:
  assumes "finite (dom t)" "block_rows t" "0 < max_index ''block-id'' t"
  shows "dense_from (unat (max_index ''block-id'' t)) t"
proof -
  let ?s = "{r \<in> ran t. has_index_value ''block-id'' r}"
  have "?s \<noteq> {}" using assms(3) by (auto simp: max_index_def Let_def split: if_splits)
  then have "max_index ''block-id'' t \<in> index_value ''block-id'' ` ?s"
    using finite_ran [OF assms(1)] unfolding max_index_def Let_def by (simp only: if_False) (intro Max_in; simp)
  then obtain i r where r: "t i = Some r" "index_value ''block-id'' r = max_index ''block-id'' t"
    by (auto simp: ran_def)
  then have "block_row i r" using assms(2) by (simp add: block_rows_def)
  then have "i = to_string (unat (index_value ''block-id'' r))" by (simp add: block_row_def)
  with r have "has_block t (unat (max_index ''block-id'' t))" by (simp add: has_block_def)
  then show ?thesis unfolding dense_from_def using le_antisym by blast
qed

text \<open>
  No block is lost: after a round every waiting block is still waiting, unchanged, or a block
  with its number is stored.
\<close>

lemma blocks_pass_accounted:
  assumes "explorer_env E (db_name d) rows" and "blocks_inv (rows (ps_world s))"
    and "rows (ps_world s) t_blocks_processing i = Some r"
  shows "rows (ps_world (snd (blocks_pass E d s))) t_blocks_processing i = Some r
    \<or> rows (ps_world (snd (blocks_pass E d s))) t_blocks i \<noteq> None"
proof -
  let ?tp = "(rows (ps_world s) t_blocks, rows (ps_world s) t_blocks_processing)"
  have "blocks_accounted (rows (ps_world s) t_blocks_processing) ?tp" by (simp add: blocks_accounted_def)
  note acc = spec_blocks_accounted [OF _ this]
  show ?thesis
  proof (rule blocks_pass_spec [OF assms(1,2)])
    fix xs t' p'
    assume ok: "\<forall>x \<in> set xs. \<exists>i. block_row i x" and sp: "spec_blocks xs ?tp = (t', p')"
      and r': "rows (ps_world (snd (blocks_pass E d s))) t_blocks = t'"
      "rows (ps_world (snd (blocks_pass E d s))) t_blocks_processing = p'"
    from acc [OF ok] assms(3) show ?thesis unfolding r' sp by (auto simp: blocks_accounted_def)
  qed
qed

text \<open>
  (C7) Progress: if every waiting block says what its transactions are and their numbers, in
  order, follow the stored ones without a gap, then one round stores them all and empties the
  waiting table.
\<close>

theorem blocks_pass_drains:
  assumes "explorer_env E (db_name d) rows" and "blocks_inv (rows (ps_world s))"
    and "\<And>xs. set xs = ran (rows (ps_world s) t_blocks_processing) \<Longrightarrow>
      sorted (map (index_value ''block-id'') xs) \<Longrightarrow> distinct xs \<Longrightarrow>
      follows (max_index ''block-id'' (rows (ps_world s) t_blocks)) xs"
  shows "rows (ps_world (snd (blocks_pass E d s))) t_blocks_processing = Map.empty
    \<and> dom (rows (ps_world s) t_blocks_processing) \<subseteq> dom (rows (ps_world (snd (blocks_pass E d s))) t_blocks)"
proof (rule blocks_pass_spec [OF assms(1,2)])
  fix xs t' p'
  assume xs: "set xs = ran (rows (ps_world s) t_blocks_processing)"
    "sorted (map (index_value ''block-id'') xs)" "distinct xs"
    and ok: "\<forall>x \<in> set xs. \<exists>i. block_row i x" "\<forall>x \<in> set xs. has_index_value ''block-id'' x"
    and sp: "spec_blocks xs (rows (ps_world s) t_blocks, rows (ps_world s) t_blocks_processing) = (t', p')"
    and r: "rows (ps_world (snd (blocks_pass E d s))) t_blocks = t'"
    "rows (ps_world (snd (blocks_pass E d s))) t_blocks_processing = p'"
  have fin: "finite (dom (rows (ps_world s) t_blocks))"
    by (rule reql_server.rows_finite [OF explorer_env.axioms(2) [OF assms(1)]])
  have br: "block_rows (rows (ps_world s) t_blocks)" using assms(2) by (simp add: blocks_inv_def)
  note drain = spec_blocks_drain [OF ok(2) fin br assms(3) [OF xs] sp ok(1)]
  have key: "x \<in> set xs \<and> i = to_string (unat (index_value ''block-id'' x))"
    if "rows (ps_world s) t_blocks_processing i = Some x" for i x
    using that assms(2) xs(1) by (auto simp: blocks_inv_def block_rows_def block_row_def ran_def)
  have "p' i = None" for i
  proof (cases "rows (ps_world s) t_blocks_processing i")
    case None
    then show ?thesis using drain(2) by (metis domIff map_le_def)
  next
    case (Some x)
    with key drain(1) show ?thesis by blast
  qed
  moreover have "i \<in> dom t'" if "i \<in> dom (rows (ps_world s) t_blocks_processing)" for i
    using that key drain(1) by (fastforce simp: has_block_def)
  ultimately show ?thesis using r by auto
qed

theorem blocks_pass_drains_witness:
  "ref_rows (ps_world (snd (blocks_pass sample_env sample_db sample_bstate))) t_blocks_processing = Map.empty"
proof -
  have "follows 7 xs" if "set xs = ran [''8'' \<mapsto> sample_blk ''8'' 8]" "distinct xs" for xs
  proof -
    have "xs = [sample_blk ''8'' 8]" using that by (intro distinct_singleton_set) simp_all
    then show ?thesis by (simp add: sample_blk_fields too_far_def)
  qed
  then show ?thesis
    using blocks_pass_drains [where E = sample_env and d = sample_db and rows = ref_rows and s = sample_bstate, OF sample_explorer sample_blocks_inv]
    by (simp add: sample_max_7 sample_block_rows)
qed

lemma spec_blocks_rows:
  assumes "\<forall>x \<in> set xs. \<exists>i. block_row i x" "block_rows t" "spec_blocks xs (t, p) = (t', p')"
  shows "block_rows t' \<and> p' \<subseteq>\<^sub>m p"
  using assms
proof (induction xs arbitrary: t p)
  case (Cons x xs)
  obtain go t1 p1 where sp: "spec_block x (t, p) = (go, (t1, p1))" by (metis surj_pair)
  have row: "block_row (to_string (unat (index_value ''block-id'' x))) x"
    using Cons.prems(1) by (auto simp: block_row_def)
  have "block_rows t1 \<and> p1 \<subseteq>\<^sub>m p"
    using sp row Cons.prems(2) by (auto simp: spec_block_def Let_def block_rows_def split: if_splits)
  with Cons sp show ?case by (cases go) (auto intro: map_le_trans)
qed auto

text \<open>
  The tables of the block worker stay keyed by block numbers: a round keeps the invariant.
\<close>

lemma blocks_pass_inv:
  assumes "explorer_env E (db_name d) rows" and "blocks_inv (rows (ps_world s))"
  shows "blocks_inv (rows (ps_world (snd (blocks_pass E d s))))"
proof (rule blocks_pass_spec [OF assms])
  fix xs t' p'
  assume ok: "\<forall>x \<in> set xs. \<exists>i. block_row i x"
    and sp: "spec_blocks xs (rows (ps_world s) t_blocks, rows (ps_world s) t_blocks_processing) = (t', p')"
    and r: "rows (ps_world (snd (blocks_pass E d s))) t_blocks = t'"
    "rows (ps_world (snd (blocks_pass E d s))) t_blocks_processing = p'"
  have "block_rows (rows (ps_world s) t_blocks)" using assms(2) by (simp add: blocks_inv_def)
  from spec_blocks_rows [OF ok this sp] have "block_rows t'" and le: "p' \<subseteq>\<^sub>m rows (ps_world s) t_blocks_processing"
    by simp_all
  moreover have sub: "rows (ps_world s) t_blocks_processing i = Some x" if "p' i = Some x" for i x
    using le that by (metis domI map_le_def)
  ultimately show ?thesis
    using assms(2) unfolding blocks_inv_def r by (fastforce simp: block_rows_def ran_def)
qed

section \<open>Storing a fetched block\<close>

definition stored_block :: "(string \<Rightarrow> time_t) \<Rightarrow> time_t \<Rightarrow> uint256 \<Rightarrow> (string \<times> json) list \<Rightarrow> string \<Rightarrow> json" where
  "stored_block ind now b m ts =
     JObj (put ''index-timestamp'' (JInt now) (put ''timestamp'' (JInt (getEpochTime ind ts))
       (put ''block-id'' (JUint (ucast b)) m)))"

lemma stored_block_row:
  assumes "unat b < 2 ^ 64" "map_of m ''id'' = Some (JStr (to_string (unat b)))"
  shows "block_row (to_string (unat b)) (stored_block ind now b m ts)" "timed (stored_block ind now b m ts)"
proof -
  have n: "unat (ucast b :: uint64) = unat b" using assms(1) by (simp add: unsigned_ucast_eq take_bit_nat_eq_self)
  then show "block_row (to_string (unat b)) (stored_block ind now b m ts)"
    using assms(2)
    by (simp add: block_row_def stored_block_def index_value_def has_index_value_def uint_field_def id_string_def)
  show "timed (stored_block ind now b m ts)" by (simp add: timed_def stored_block_def)
qed

context explorer_env
begin

lemma add_block_value:
  assumes "db_name d = dbn" "unat b < 2 ^ 64" "map_of m ''id'' = Some (JStr (to_string (unat b)))"
    and "map_of m ''timestamp'' = Some (JStr ts)"
  shows "\<exists>w'. add_block E ind d (JObj m) b w = (Inr (), w') \<and> rows w' =
    (if rows w t_blocks_processing (to_string (unat b)) \<noteq> None then rows w
     else (rows w)(t_blocks_processing := (rows w t_blocks_processing)
       (to_string (unat b) \<mapsto> stored_block ind (clock E w) b m ts)))"
proof -
  let ?i = "to_string (unat b)"
  let ?row = "case rows w t_blocks_processing ?i of Some r \<Rightarrow> r | None \<Rightarrow> JArr []"
  have g: "get_data E (cursor_get ?i None (table_cursor True (open_table d t_blocks_processing))) w = (Inr ?row, w)"
    by (rule get_data_row [OF assms(1)])
  have c: "0 < count_key ?row ''id'' \<longleftrightarrow> rows w t_blocks_processing ?i \<noteq> None" by (rule fetched_has_id)
  show ?thesis
  proof (cases "rows w t_blocks_processing ?i")
    case (Some r)
    then show ?thesis
      using c by (simp add: add_block_def Let_def catch_logged_def catchP_def dec256 bindP_def g del: count_key_pos)
  next
    case None
    let ?m = "members (stored_block ind (clock E w) b m ts)"
    have k: "has_string_id (JObj ?m)" "id_string (JObj ?m) = Some ?i"
      using assms(3) by (simp_all add: has_string_id_def id_string_Some stored_block_def)
    obtain w' where w': "table_insert E (JObj ?m) (open_table d t_blocks_processing) w = (Inr (), w')"
      "rows w' = (rows w)(t_blocks_processing := (rows w t_blocks_processing)(?i \<mapsto> JObj ?m))"
      using insert_row_effect [OF assms(1) k(1), of t_blocks_processing w] k(2) None by (auto simp: insert_row_def)
    have "add_block E ind d (JObj m) b w = (Inr (), w')"
      using None assms(3,4) w'(1)
      by (simp add: add_block_def Let_def catch_logged_def catchP_def dec256 bindP_def [of "get_data E _"] g
          stoull_to_string [OF assms(2)] block_timestamp_def stored_block_def)
    with w'(2) None show ?thesis by (simp add: stored_block_def)
  qed
qed

end

text \<open>
  (C8) Storing a fetched block: it becomes the row of its number in the waiting table, with the number
  as an integer, the time read from its text and the time of indexing; a block that is already
  waiting is left as it is, so fetching a block twice stores it once.
\<close>

theorem add_block_stores:
  assumes "explorer_env E (db_name d) rows" and "unat b < 2 ^ 64"
    and "field block ''id'' = Some (JStr (to_string (unat b)))" and "field block ''timestamp'' = Some (JStr ts)"
  shows "\<exists>w' r. add_block E ind d block b w = (Inr (), w')
    \<and> rows w' = (if rows w t_blocks_processing (to_string (unat b)) \<noteq> None then rows w
        else (rows w)(t_blocks_processing := (rows w t_blocks_processing)(to_string (unat b) \<mapsto> r)))
    \<and> block_row (to_string (unat b)) r \<and> unat (index_value ''block-id'' r) = unat b
    \<and> field r ''timestamp'' = Some (JInt (getEpochTime ind ts))
    \<and> field r ''index-timestamp'' = Some (JInt (clock E w))
    \<and> (\<forall>k. k \<notin> {''block-id'', ''timestamp'', ''index-timestamp''} \<longrightarrow> field r k = field block k)"
proof -
  obtain m where m: "block = JObj m" using field_Some_object [OF assms(3)] by (cases block) auto
  let ?r = "stored_block ind (clock E w) b m ts"
  have n: "unat (ucast b :: uint64) = unat b" using assms(2) by (simp add: unsigned_ucast_eq take_bit_nat_eq_self)
  have v: "index_value ''block-id'' ?r = ucast b"
    by (simp add: stored_block_def index_value_def uint_field_def)
  have "block_row (to_string (unat b)) ?r"
    using stored_block_row(1) [OF assms(2)] assms(3) by (simp add: m)
  moreover have "field ?r ''timestamp'' = Some (JInt (getEpochTime ind ts))"
    "field ?r ''index-timestamp'' = Some (JInt (clock E w))"
    "\<forall>k. k \<notin> {''block-id'', ''timestamp'', ''index-timestamp''} \<longrightarrow> field ?r k = field block k"
    by (simp_all add: stored_block_def m)
  moreover obtain w' where "add_block E ind d block b w = (Inr (), w')"
    "rows w' = (if rows w t_blocks_processing (to_string (unat b)) \<noteq> None then rows w
        else (rows w)(t_blocks_processing := (rows w t_blocks_processing)(to_string (unat b) \<mapsto> ?r)))"
    using explorer_env.add_block_value [OF assms(1) refl assms(2), of m ts ind w] assms(3,4) unfolding m field_JObj
    by blast
  ultimately show ?thesis using v n by (intro exI [of _ w'] exI [of _ ?r]) simp
qed

theorem add_block_stores_witness:
  "\<exists>w'. add_block sample_env (\<lambda>_. 0) sample_db
      (obj [(''id'', JStr ''8''), (''timestamp'', JStr ''2018-Nov-13 07:01:20 GMT'')]) 8 (\<lambda>_. []) = (Inr (), w')
    \<and> ref_rows w' t_blocks_processing ''8'' \<noteq> None"
proof -
  let ?b = "obj [(''id'', JStr ''8''), (''timestamp'', JStr ''2018-Nov-13 07:01:20 GMT'')]"
  have f: "field ?b ''id'' = Some (JStr (to_string (unat (8 :: uint256))))"
    "field ?b ''timestamp'' = Some (JStr ''2018-Nov-13 07:01:20 GMT'')"
    by (simp_all add: obj_def to_string_8)
  have "unat (8 :: uint256) < 2 ^ 64" by simp
  from add_block_stores [OF sample_explorer this f, of "\<lambda>_. 0" "\<lambda>_. []"] obtain w' r where
    w': "add_block sample_env (\<lambda>_. 0) sample_db ?b 8 (\<lambda>_. []) = (Inr (), w')"
    and r: "ref_rows w' = (if ref_rows (\<lambda>_. []) t_blocks_processing (to_string (unat (8 :: uint256))) \<noteq> None
        then ref_rows (\<lambda>_. []) else (ref_rows (\<lambda>_. []))(t_blocks_processing :=
          (ref_rows (\<lambda>_. []) t_blocks_processing)(to_string (unat (8 :: uint256)) \<mapsto> r)))"
    by blast
  have "to_string (unat (8 :: uint256)) = ''8''" by (simp add: to_string_8)
  then have "ref_rows w' t_blocks_processing ''8'' \<noteq> None"
    unfolding r by (simp only: fun_upd_same option.distinct if_splits not_None_eq split: if_splits) auto
  with w' show ?thesis by blast
qed

end
