(* ===== verification/Node.thy ===== *)
theory Node
  imports Db
begin

text \<open>
  The calls to the nodes of the chain. The client of \<^verbatim>\<open>mile-csa-jsonrpc\<close> is outside the repository: a client is
  named by the URL it is connected to, and connecting and the five requests are fields of the environment
  that may raise and may change the world. Modelled are \<open>random\<close> and \<open>get_rpc\<close> of
  \<^verbatim>\<open>common/src/utils.cpp\<close>, with the static counter of \<open>get_rpc\<close> as a part of the state, and the task of
  \<^verbatim>\<open>common/src/db/blocks/wallets_state.cpp\<close> that fetches the state of a wallet.
\<close>

section \<open>The clients\<close>

record 'w node_env = "'w env" +
  rpc_connect :: "string \<Rightarrow> ('w, bool) prog" \<comment> \<open>\<^verbatim>\<open>rpc::Client::Connect\<close>: is there a client?\<close>
  rpc_get_current_block_id :: "string \<Rightarrow> ('w, uint256 option) prog"
  rpc_get_block :: "string \<Rightarrow> uint256 \<Rightarrow> ('w, json option) prog"
  rpc_get_blockchain_info :: "string \<Rightarrow> ('w, json option) prog"
  rpc_get_nodes :: "string \<Rightarrow> ('w, json option) prog"
  rpc_get_wallet_state :: "string \<Rightarrow> string \<Rightarrow> ('w, json option) prog"
  http_get :: "string \<Rightarrow> ('w, string option option) prog"
    \<comment> \<open>\<^verbatim>\<open>http::Client::Connect\<close> and \<^verbatim>\<open>get\<close>: no client, or the body if there is one\<close>

record 'w rstate =
  rp_world :: 'w
  rp_counter :: uint64 \<comment> \<open>\<^verbatim>\<open>counter\<close> of \<open>get_rpc\<close>\<close>

definition on_rpc :: "('w, 'a) prog \<Rightarrow> ('w rstate, 'a) prog" where
  "on_rpc m = (\<lambda>s. case m (rp_world s) of (r, w') \<Rightarrow> (r, s\<lparr>rp_world := w'\<rparr>))"

lemma on_rpc_apply: "m (rp_world s) = (r, w') \<Longrightarrow> on_rpc m s = (r, s\<lparr>rp_world := w'\<rparr>)"
  by (simp add: on_rpc_def)

text \<open>
  \<open>r\<close> is what \<^verbatim>\<open>rand\<close> returns, which is not negative; the remainder has the sign of the dividend.
\<close>

definition random :: "nat \<Rightarrow> int \<Rightarrow> int \<Rightarrow> int" where
  "random r mn mx = mn + int r mod \<bar>(mx + 1) - mn\<bar>"

lemma random_range: "mn \<le> mx \<Longrightarrow> mn \<le> random r mn mx \<and> random r mn mx \<le> mx"
proof -
  assume "mn \<le> mx"
  then have "0 < mx + 1 - mn" by simp
  from pos_mod_bound [OF this, of "int r"] pos_mod_sign [OF this, of "int r"] this show ?thesis
    unfolding random_def by linarith
qed

text \<open>
  The remainder by the size of an empty list is undefined: there the outcome is the exception nothing
  is known about.
\<close>

definition get_rpc :: "('w, 'e) node_env_scheme \<Rightarrow> string list \<Rightarrow> ('w rstate, string option) prog" where
  "get_rpc E urls =
     bindP (getP rp_counter) (\<lambda>counter.
     bindP (modifyP (\<lambda>s. s\<lparr>rp_counter := counter + 1\<rparr>)) (\<lambda>_.
     if urls = [] then raise Unknown_exn
     else
       let url = urls ! (unat counter mod length urls) in
       bindP (on_rpc (rpc_connect E url)) (\<lambda>connected. ret (if connected then Some url else None))))"

lemma get_rpc_apply:
  assumes "urls \<noteq> []"
  shows "get_rpc E urls s = (case rpc_connect E (urls ! (unat (rp_counter s) mod length urls)) (rp_world s) of
      (Inl e, w') \<Rightarrow> (Inl e, \<lparr>rp_world = w', rp_counter = rp_counter s + 1\<rparr>)
    | (Inr b, w') \<Rightarrow> (Inr (if b then Some (urls ! (unat (rp_counter s) mod length urls)) else None),
        \<lparr>rp_world = w', rp_counter = rp_counter s + 1\<rparr>))"
  using assms by (simp add: get_rpc_def Let_def bindP_def on_rpc_def split: prod.split sum.split)

section \<open>The state of a wallet\<close>

definition wallet_state_row :: "'e json_lib_scheme \<Rightarrow> time_t \<Rightarrow> string \<Rightarrow> json \<Rightarrow> json result" where
  "wallet_state_row L now public_key state =
     bindE (jl_set L state ''timestamp'' (JInt now)) (\<lambda>state.
     bindE (jl_erase L state ''preferred-transaction-id'') (\<lambda>state.
     jl_set L state ''id'' (JStr public_key)))"

text \<open>One round of the loop: it ends with \<open>Some\<close> where the code breaks.\<close>

definition wallet_state_attempt ::
  "('w, 'e) node_env_scheme \<Rightarrow> db \<Rightarrow> string list \<Rightarrow> string \<Rightarrow> ('w rstate, unit option) prog" where
  "wallet_state_attempt E d urls public_key =
     bindP (get_rpc E urls) (\<lambda>client.
     case client of None \<Rightarrow> ret None
     | Some url \<Rightarrow>
         bindP (on_rpc (rpc_get_wallet_state E url public_key)) (\<lambda>state.
         case state of None \<Rightarrow> ret None
         | Some st \<Rightarrow>
             catchP
               (bindP (on_rpc (getP (clock E))) (\<lambda>now.
                bindP (lift (wallet_state_row E now public_key st)) (\<lambda>row.
                bindP (on_rpc (table_update E row (open_table d t_wallets_state))) (\<lambda>_.
                ret (Some ())))))
               (\<lambda>e. if is_reql_error e \<or> is_std_exception e then ret None else raise e)))"

definition wallet_state_task ::
  "('w, 'e) node_env_scheme \<Rightarrow> db \<Rightarrow> string list \<Rightarrow> nat \<Rightarrow> string \<Rightarrow> ('w rstate, unit option) prog" where
  "wallet_state_task E d urls n public_key =
     catchP (retryP n (wallet_state_attempt E d urls public_key)) (\<lambda>_. ret (Some ()))"

text \<open>
  (C19) Every node gets its turn: from any value of the counter that does not wrap around on the way, each
  of the configured URLs is the one connected to by one of the next calls of \<open>get_rpc\<close>, as many as
  there are URLs; and every call advances the counter, whatever the connection does.
\<close>

theorem get_rpc_rotates:
  assumes "u \<in> set urls" and "unat c + length urls \<le> 2 ^ 64"
  shows "\<exists>k < length urls. \<forall>w. get_rpc E urls \<lparr>rp_world = w, rp_counter = c + of_nat k\<rparr> =
    (case rpc_connect E u w of
       (Inl e, w') \<Rightarrow> (Inl e, \<lparr>rp_world = w', rp_counter = c + of_nat k + 1\<rparr>)
     | (Inr b, w') \<Rightarrow> (Inr (if b then Some u else None), \<lparr>rp_world = w', rp_counter = c + of_nat k + 1\<rparr>))"
proof -
  let ?n = "length urls"
  obtain j where j: "j < ?n" "urls ! j = u" using assms(1) by (metis in_set_conv_nth)
  then have ne: "urls \<noteq> []" by auto
  define k where "k = (j + (?n - unat c mod ?n)) mod ?n"
  have k: "k < ?n" unfolding k_def using j(1) by (intro mod_less_divisor) linarith
  have "unat c + k < 2 ^ 64" using k assms(2) by linarith
  then have u: "unat (c + of_nat k) = unat c + k"
    by (simp add: unat_word_ariths take_bit_nat_eq_self unsigned_of_nat)
  have "(unat c + k) mod ?n = j"
  proof -
    have le: "unat c mod ?n \<le> ?n" using j(1) by (intro less_imp_le mod_less_divisor) linarith
    have "(unat c + k) mod ?n = (unat c mod ?n + (j + (?n - unat c mod ?n))) mod ?n"
      by (simp add: k_def mod_add_left_eq mod_add_right_eq)
    also have "\<dots> = (j + ?n) mod ?n" using le by (simp add: add.left_commute)
    also have "\<dots> = j" using j(1) by simp
    finally show ?thesis .
  qed
  then show ?thesis using k j(2) by (intro exI [of _ k]) (simp add: get_rpc_apply [OF ne] u split: prod.split sum.split)
qed

section \<open>What the task stores\<close>

definition wallet_key_ok :: "string \<Rightarrow> (string \<times> json) list \<Rightarrow> bool" where
  "wallet_key_ok pk m \<longleftrightarrow> pk \<notin> {''timestamp'', ''id''} \<and> map_of m pk = None"

text \<open>The row of a wallet whose state the node sent as \<open>m\<close>.\<close>

definition wallet_state_of :: "string \<Rightarrow> time_t \<Rightarrow> (string \<times> json) list \<Rightarrow> json \<Rightarrow> bool" where
  "wallet_state_of pk now m r \<longleftrightarrow> field r ''id'' = Some (JStr pk) \<and> field r ''timestamp'' = Some (JInt now)
    \<and> (\<forall>k v. k \<notin> {''id'', ''timestamp'', ''preferred-transaction-id''} \<longrightarrow> map_of m k = Some v \<longrightarrow> field r k = Some v)"

context explorer_env
begin

lemma wallet_row_stored:
  assumes "db_name d = dbn" "wallet_key_ok pk m" "rows w t_wallets_state index_id_text = None"
  shows "\<exists>row w' r. wallet_state_row E now pk (JObj m) = Inr row
    \<and> table_update E row (open_table d t_wallets_state) w = (Inr (), w')
    \<and> rows w' = (rows w)(t_wallets_state := (rows w t_wallets_state)(pk \<mapsto> r))
    \<and> wallet_state_of pk now m r"
proof -
  define q where "q = put ''id'' (JStr pk) (del ''preferred-transaction-id'' (put ''timestamp'' (JInt now) m))"
  have q: "wallet_state_row E now pk (JObj m) = Inr (JObj q)" by (simp add: wallet_state_row_def q_def)
  have mq: "map_of q = (map_of m)(''timestamp'' \<mapsto> JInt now, ''preferred-transaction-id'' := None, ''id'' \<mapsto> JStr pk)"
    by (simp add: q_def)
  have "id_string (JObj q) = Some pk" "map_of q pk = None"
    using assms(2) by (auto simp: id_string_def mq wallet_key_ok_def)
  from update_effect [OF assms(1) this(1) assms(3) this(2)] obtain w' where
    w': "table_update E (JObj q) (open_table d t_wallets_state) w = (Inr (), w')"
    "rows w' = (rows w)(t_wallets_state := (rows w t_wallets_state)(pk \<mapsto>
        (case rows w t_wallets_state pk of None \<Rightarrow> JObj q | Some r \<Rightarrow> JObj (merge_members (members r) q))))"
    by blast
  have f: "field (case rows w t_wallets_state pk of None \<Rightarrow> JObj q | Some r \<Rightarrow> JObj (merge_members (members r) q)) k
      = Some v" if "map_of q k = Some v" for k v
    using that by (auto simp: merge_members_map split: option.split)
  show ?thesis using w' q f
    by (intro exI [of _ "JObj q"] exI [of _ w'] exI [of _ "case rows w t_wallets_state pk of None \<Rightarrow> JObj q
        | Some r \<Rightarrow> JObj (merge_members (members r) q)"] conjI) (auto simp: mq wallet_state_of_def)
qed

end

lemma wallet_attempt_stores:
  assumes "explorer_env E (db_name d) rows" "urls \<noteq> []" "url = urls ! (unat (rp_counter s) mod length urls)"
    and "rpc_connect E url (rp_world s) = (Inr True, w1)"
    and "rpc_get_wallet_state E url pk w1 = (Inr (Some (JObj m)), w2)" "wallet_key_ok pk m"
    and "rows w2 t_wallets_state index_id_text = None"
  shows "\<exists>s' r. wallet_state_attempt E d urls pk s = (Inr (Some ()), s')
    \<and> rows (rp_world s') = (rows w2)(t_wallets_state := (rows w2 t_wallets_state)(pk \<mapsto> r))
    \<and> wallet_state_of pk (clock E w2) m r"
proof -
  from explorer_env.wallet_row_stored [OF assms(1) refl assms(6,7), of "clock E w2"] obtain row w' r where
    r: "wallet_state_row E (clock E w2) pk (JObj m) = Inr row"
      "table_update E row (open_table d t_wallets_state) w2 = (Inr (), w')"
      "rows w' = (rows w2)(t_wallets_state := (rows w2 t_wallets_state)(pk \<mapsto> r))"
      "wallet_state_of pk (clock E w2) m r"
    by blast
  have "get_rpc E urls s = (Inr (Some url), \<lparr>rp_world = w1, rp_counter = rp_counter s + 1\<rparr>)"
    using assms(3,4) by (simp add: get_rpc_apply [OF assms(2)])
  then have "wallet_state_attempt E d urls pk s = (Inr (Some ()), \<lparr>rp_world = w', rp_counter = rp_counter s + 1\<rparr>)"
    using assms(5) r(1,2) by (simp add: wallet_state_attempt_def bindP_def on_rpc_def catchP_def)
  with r(3,4) show ?thesis
    by (intro exI [of _ "\<lparr>rp_world = w', rp_counter = rp_counter s + 1\<rparr>"] exI [of _ r] conjI) simp_all
qed

text \<open>
  (C16) The task of a wallet ends and stores its state: if after \<open>k\<close> rounds without a result a node answers with
  an object, then the task ends in the next round, however many more it may take, with the row
  of the wallet holding what the node sent, the key and the time; no other row is touched.
\<close>

theorem wallet_state_task_stores:
  assumes "explorer_env E (db_name d) rows" and "urls \<noteq> []"
    and "fails (wallet_state_attempt E d urls pk) k s0 s" and "k < n"
    and "rpc_connect E (urls ! (unat (rp_counter s) mod length urls)) (rp_world s) = (Inr True, w1)"
    and "rpc_get_wallet_state E (urls ! (unat (rp_counter s) mod length urls)) pk w1 = (Inr (Some (JObj m)), w2)"
    and "wallet_key_ok pk m" and "rows w2 t_wallets_state index_id_text = None"
  shows "\<exists>s' r. wallet_state_task E d urls n pk s0 = (Inr (Some ()), s')
    \<and> rows (rp_world s') = (rows w2)(t_wallets_state := (rows w2 t_wallets_state)(pk \<mapsto> r))
    \<and> wallet_state_of pk (clock E w2) m r"
proof -
  from wallet_attempt_stores [OF assms(1,2) refl assms(5-8)] obtain s' r where
    a: "wallet_state_attempt E d urls pk s = (Inr (Some ()), s')"
    and r: "rows (rp_world s') = (rows w2)(t_wallets_state := (rows w2 t_wallets_state)(pk \<mapsto> r))"
      "wallet_state_of pk (clock E w2) m r"
    by blast
  have "wallet_state_task E d urls n pk s0 = (Inr (Some ()), s')"
    using retryP_enough [OF assms(3) a assms(4)] by (simp add: wallet_state_task_def catchP_def)
  with r show ?thesis by blast
qed

section \<open>A node that answers\<close>

text \<open>The laws of the environment do not depend on the functions of the clients.\<close>

lemma env_extend_fields [simp]:
  "jl_what (env.extend E m) = jl_what E" "jl_at (env.extend E m) = jl_at E" "jl_index (env.extend E m) = jl_index E"
  "jl_set (env.extend E m) = jl_set E" "jl_erase (env.extend E m) = jl_erase E"
  "jl_push_back (env.extend E m) = jl_push_back E" "jl_get_string (env.extend E m) = jl_get_string E"
  "jl_get_u64 (env.extend E m) = jl_get_u64 E" "jl_get_time (env.extend E m) = jl_get_time E"
  "jl_parse (env.extend E m) = jl_parse E" "jl_dump (env.extend E m) = jl_dump E"
  "UInt256ToDecString (env.extend E m) = UInt256ToDecString E"
  "reql_run (env.extend E m) = reql_run E" "clock (env.extend E m) = clock E"
  by (simp_all add: env.defs)

lemma explorer_env_extend: "explorer_env E dbn rows \<Longrightarrow> explorer_env (env.extend E m) dbn rows"
  unfolding explorer_env_def nlohmann_json_def reql_server_def explorer_env_axioms_def by simp

text \<open>
  A node at block 1 that knows every block, each without transactions, and the empty state of every wallet; and a
  server with a genesis file of two lines, a comment and a transfer.
\<close>

definition sample_genesis :: string where
  "sample_genesis = ''genesis'' @ [CHR 0x0A] @ ''Transfer key XDR 12''"

definition sample_answer :: "uint256 \<Rightarrow> json" where
  "sample_answer b = obj [(''block-data'', obj [(''id'', JStr (to_string (unat b))),
     (''timestamp'', JStr ''2018-Nov-13 07:01:20 GMT''), (''transactions'', JArr [])])]"

definition sample_node_env :: "refdb node_env" where
  "sample_node_env = env.extend sample_env
     (node_env.fields (\<lambda>_. ret True) (\<lambda>_. ret (Some 1)) (\<lambda>_ b. ret (Some (sample_answer b)))
       (\<lambda>_. ret None) (\<lambda>_. ret None) (\<lambda>_ _. ret (Some (JObj [(''balance'', JArr [])]))) (\<lambda>_. ret (Some (Some sample_genesis))))"

lemma sample_node_explorer: "explorer_env sample_node_env (db_name sample_db) ref_rows"
  unfolding sample_node_env_def by (rule explorer_env_extend [OF sample_explorer])

lemma sample_node_env_simps [simp]:
  "rpc_connect sample_node_env u = ret True" "rpc_get_current_block_id sample_node_env u = ret (Some 1)"
  "rpc_get_block sample_node_env u b = ret (Some (sample_answer b))"
  "rpc_get_blockchain_info sample_node_env u = ret None" "rpc_get_nodes sample_node_env u = ret None"
  "rpc_get_wallet_state sample_node_env u p = ret (Some (JObj [(''balance'', JArr [])]))"
  "http_get sample_node_env u = ret (Some (Some sample_genesis))"
  by (simp_all add: sample_node_env_def env.defs node_env.defs)

definition sample_rstate :: "refdb rstate" where
  "sample_rstate = \<lparr>rp_world = (\<lambda>_. []), rp_counter = 0\<rparr>"

theorem get_rpc_rotates_witness:
  "\<exists>k < 2. get_rpc sample_node_env [''a'', ''b''] \<lparr>rp_world = (\<lambda>_. []), rp_counter = of_nat k\<rparr>
     = (Inr (Some ''b''), \<lparr>rp_world = (\<lambda>_. []), rp_counter = of_nat k + 1\<rparr>)"
proof -
  obtain k where "k < length [''a'', ''b'']" "\<forall>w. get_rpc sample_node_env [''a'', ''b''] \<lparr>rp_world = w, rp_counter = 0 + of_nat k\<rparr> =
      (Inr (Some ''b''), \<lparr>rp_world = w, rp_counter = 0 + of_nat k + 1\<rparr>)"
    using get_rpc_rotates [of "''b''" "[''a'', ''b'']" 0 sample_node_env] by auto
  then show ?thesis by (intro exI [of _ k]) simp
qed

theorem wallet_state_task_stores_witness:
  "\<exists>s' r. wallet_state_task sample_node_env sample_db [''a''] 1 ''key'' sample_rstate = (Inr (Some ()), s')
    \<and> ref_rows (rp_world s') t_wallets_state ''key'' = Some r \<and> field r ''balance'' = Some (JArr [])"
proof -
  have "wallet_key_ok ''key'' [(''balance'', JArr [])]" "ref_rows (\<lambda>_. []) t_wallets_state index_id_text = None"
    by (simp_all add: wallet_key_ok_def ref_rows_def)
  from wallet_state_task_stores [where E = sample_node_env and d = sample_db and rows = ref_rows and urls = "[''a'']"
      and k = 0 and n = 1 and ?s0.0 = sample_rstate and s = sample_rstate, OF sample_node_explorer _ fails_0 _ _ _ this]
  obtain s' r where "wallet_state_task sample_node_env sample_db [''a''] 1 ''key'' sample_rstate = (Inr (Some ()), s')"
    "ref_rows (rp_world s') = (ref_rows (\<lambda>_. []))(t_wallets_state := (ref_rows (\<lambda>_. []) t_wallets_state)(''key'' \<mapsto> r))"
    "wallet_state_of ''key'' (clock sample_node_env (\<lambda>_. [])) [(''balance'', JArr [])] r"
    by (auto simp: sample_rstate_def)
  then show ?thesis by (intro exI [of _ s'] exI [of _ r]) (simp add: wallet_state_of_def)
qed

end
