(* ===== verification/Network.thy ===== *)
theory Network
  imports Db
begin

text \<open>
  The state of the network, \<^verbatim>\<open>common/src/db/network.cpp\<close>: the description of the chain with the names of its
  assets, and the nodes that were active at a block.
\<close>

section \<open>The description of the chain\<close>

definition add_ticker :: "'e json_lib_scheme \<Rightarrow> json \<Rightarrow> json result" where
  "add_ticker L asset =
     (if count_key asset ''code'' = 0 then Inr asset
      else bindE (bindE (jl_index L asset ''code'') (jl_get_string L)) (\<lambda>code.
        if code = ''0'' then jl_set L asset ''ticker-name'' (JStr ''XDR'')
        else if code = ''1'' then jl_set L asset ''ticker-name'' (JStr ''MILE'')
        else Inr asset))"

fun add_tickers :: "'e json_lib_scheme \<Rightarrow> json list \<Rightarrow> json list result" where
  "add_tickers L [] = Inr []"
| "add_tickers L (a # as) = bindE (add_ticker L a) (\<lambda>a'. bindE (add_tickers L as) (\<lambda>as'. Inr (a' # as')))"

definition named_assets :: "'e json_lib_scheme \<Rightarrow> json \<Rightarrow> json result" where
  "named_assets L blockchain_info =
     bindE (jl_at L blockchain_info ''supported-assets'') (\<lambda>assets.
     if is_array assets
     then bindE (add_tickers L (items assets)) (\<lambda>as. jl_set L blockchain_info ''supported-assets'' (JArr as))
     else Inr blockchain_info)"

definition update_info :: "('w, 'e) env_scheme \<Rightarrow> db \<Rightarrow> json \<Rightarrow> ('w, unit) prog" where
  "update_info E d info =
     bindP (lift (named_assets E info)) (\<lambda>blockchain_info.
     bindP (lift (jl_index E blockchain_info ''version'')) (\<lambda>version.
     table_update E (obj [(''info'', blockchain_info), (''id'', version)]) (open_table d t_blockchain_info)))"

section \<open>The nodes at a block\<close>

definition node_row :: "'e json_lib_scheme \<Rightarrow> time_t \<Rightarrow> string \<Rightarrow> json \<Rightarrow> json result" where
  "node_row L now i item =
     bindE (bindE (const_index L item ''public-key'') (jl_get_string L)) (\<lambda>pid.
     bindE (const_index L item ''address'') (\<lambda>address.
     bindE (const_index L item ''node-id'') (\<lambda>node_id.
     Inr (obj [(''address'', address), (''node-id'', node_id), (''timestamp'', JInt now),
               (''block-id'', JStr i), (''id'', JStr pid)]))))"

definition store_node :: "('w, 'e) env_scheme \<Rightarrow> db \<Rightarrow> string \<Rightarrow> json \<Rightarrow> ('w, unit) prog" where
  "store_node E d i item =
     bindP (getP (clock E)) (\<lambda>now.
     bindP (lift (node_row E now i item)) (\<lambda>node.
     table_update E node (open_table d t_node_wallets)))"

definition add_node_states :: "('w, 'e) env_scheme \<Rightarrow> db \<Rightarrow> json \<Rightarrow> uint256 \<Rightarrow> ('w, unit) prog" where
  "add_node_states E d nodes_state block_id =
     (let i = UInt256ToDecString E block_id in
      bindP (table_insert E (obj [(''nodes'', nodes_state), (''id'', JStr i)]) (open_table d t_node_states)) (\<lambda>_.
      forP (items nodes_state) (store_node E d i)))"

section \<open>What they store\<close>

text \<open>An asset is named when its code is one of the two the program knows.\<close>

definition ticker :: "json \<Rightarrow> json option" where
  "ticker asset =
     (if field asset ''code'' = Some (JStr ''0'') then Some (JStr ''XDR'')
      else if field asset ''code'' = Some (JStr ''1'') then Some (JStr ''MILE'')
      else field asset ''ticker-name'')"

definition codes_are_text :: "json \<Rightarrow> bool" where
  "codes_are_text asset \<longleftrightarrow> (case field asset ''code'' of Some c \<Rightarrow> is_string c | None \<Rightarrow> True)"

context nlohmann_json
begin

lemma add_ticker_value:
  assumes "codes_are_text a"
  shows "\<exists>a'. add_ticker L a = Inr a' \<and> field a' ''ticker-name'' = ticker a
    \<and> (\<forall>k. k \<noteq> ''ticker-name'' \<longrightarrow> field a' k = field a k)"
proof (cases "field a ''code''")
  case None
  then show ?thesis by (simp add: add_ticker_def ticker_def)
next
  case (Some c)
  then obtain s where c: "c = JStr s" using assms by (cases c) (auto simp: codes_are_text_def)
  obtain m where m: "a = JObj m" using field_Some_object [OF Some] by (cases a) auto
  show ?thesis using Some c m by (auto simp: add_ticker_def ticker_def)
qed

lemma add_tickers_value:
  assumes "list_all codes_are_text as"
  shows "\<exists>as'. add_tickers L as = Inr as' \<and> list_all2 (\<lambda>a a'. field a' ''ticker-name'' = ticker a
    \<and> (\<forall>k. k \<noteq> ''ticker-name'' \<longrightarrow> field a' k = field a k)) as as'"
  using assms
proof (induction as)
  case Nil
  then show ?case by simp
next
  case (Cons a as)
  with add_ticker_value [of a] show ?case by (auto 4 3)
qed

lemma named_assets_value:
  assumes "field info ''supported-assets'' = Some (JArr as)" "list_all codes_are_text as"
  shows "\<exists>m as'. named_assets L info = Inr (JObj m) \<and> map_of m ''supported-assets'' = Some (JArr as')
    \<and> (\<forall>k. k \<noteq> ''supported-assets'' \<longrightarrow> map_of m k = field info k)
    \<and> list_all2 (\<lambda>a a'. field a' ''ticker-name'' = ticker a
        \<and> (\<forall>k. k \<noteq> ''ticker-name'' \<longrightarrow> field a' k = field a k)) as as'"
proof -
  obtain mi where mi: "info = JObj mi" using field_Some_object [OF assms(1)] by (cases info) auto
  from add_tickers_value [OF assms(2)] obtain as' where as': "add_tickers L as = Inr as'"
    "list_all2 (\<lambda>a a'. field a' ''ticker-name'' = ticker a
        \<and> (\<forall>k. k \<noteq> ''ticker-name'' \<longrightarrow> field a' k = field a k)) as as'" by blast
  have "named_assets L info = Inr (JObj (put ''supported-assets'' (JArr as') mi))"
    using assms(1) as'(1) mi by (simp add: named_assets_def)
  with as'(2) mi show ?thesis by (intro exI [of _ "put ''supported-assets'' (JArr as') mi"] exI [of _ as']) simp
qed

end

text \<open>The row of a node: its public key is neither the stray key of \<open>update\<close> nor the name of a column.\<close>

definition node_key :: "json \<Rightarrow> string" where
  "node_key item = (case field item ''public-key'' of Some (JStr k) \<Rightarrow> k | _ \<Rightarrow> [])"

definition node_ok :: "json \<Rightarrow> bool" where
  "node_ok item \<longleftrightarrow> field item ''public-key'' = Some (JStr (node_key item))
     \<and> field item ''address'' \<noteq> None \<and> field item ''node-id'' \<noteq> None
     \<and> node_key item \<notin> {''address'', ''node-id'', ''timestamp'', ''block-id'', ''id'', index_id_text}"

context explorer_env
begin

lemma update_info_value:
  assumes "db_name d = dbn" "field info ''supported-assets'' = Some (JArr as)" "list_all codes_are_text as"
    and "field info ''version'' = Some (JStr v)" "v \<notin> {''info'', ''id''}"
    and "rows w t_blockchain_info index_id_text = None"
  shows "\<exists>w' r info' as'. update_info E d info w = (Inr (), w')
    \<and> rows w' = (rows w)(t_blockchain_info := (rows w t_blockchain_info)(v \<mapsto> r))
    \<and> field r ''info'' = Some info' \<and> field info' ''supported-assets'' = Some (JArr as')
    \<and> (\<forall>k. k \<noteq> ''supported-assets'' \<longrightarrow> field info' k = field info k)
    \<and> list_all2 (\<lambda>a a'. field a' ''ticker-name'' = ticker a
        \<and> (\<forall>k. k \<noteq> ''ticker-name'' \<longrightarrow> field a' k = field a k)) as as'"
proof -
  from named_assets_value [OF assms(2,3)] obtain m as' where
    m: "named_assets E info = Inr (JObj m)" "map_of m ''supported-assets'' = Some (JArr as')"
      "\<forall>k. k \<noteq> ''supported-assets'' \<longrightarrow> map_of m k = field info k"
    and as': "list_all2 (\<lambda>a a'. field a' ''ticker-name'' = ticker a
        \<and> (\<forall>k. k \<noteq> ''ticker-name'' \<longrightarrow> field a' k = field a k)) as as'" by blast
  define q where "q = members (obj [(''info'', JObj m), (''id'', JStr v)])"
  have q: "obj [(''info'', JObj m), (''id'', JStr v)] = JObj q" "map_of q = [''info'' \<mapsto> JObj m, ''id'' \<mapsto> JStr v]"
    by (simp_all add: q_def obj_def)
  have "id_string (JObj q) = Some v" "map_of q v = None" using q(2) assms(5) by (simp_all add: id_string_def)
  from update_effect [OF assms(1) this(1) assms(6) this(2)] obtain w' where
    w': "table_update E (JObj q) (open_table d t_blockchain_info) w = (Inr (), w')"
    "rows w' = (rows w)(t_blockchain_info := (rows w t_blockchain_info)(v \<mapsto>
        (case rows w t_blockchain_info v of None \<Rightarrow> JObj q | Some r \<Rightarrow> JObj (merge_members (members r) q))))"
    by blast
  have "field (case rows w t_blockchain_info v of None \<Rightarrow> JObj q | Some r \<Rightarrow> JObj (merge_members (members r) q))
      ''info'' = Some (JObj m)"
    using q(2) by (auto simp: merge_members_map split: option.split)
  moreover have "update_info E d info w = (Inr (), w')"
    using m(1,3) assms(4) w'(1) by (simp add: update_info_def q(1))
  ultimately show ?thesis using w'(2) m(2,3) as'
    by (intro exI [of _ w'] exI [of _ "case rows w t_blockchain_info v of None \<Rightarrow> JObj q
        | Some r \<Rightarrow> JObj (merge_members (members r) q)"] exI [of _ "JObj m"] exI [of _ as'] conjI) simp_all
qed

text \<open>One node: the row of its key is written or brought up to date.\<close>

lemma node_step:
  assumes "db_name d = dbn" "node_ok x" "rows w t_node_wallets index_id_text = None"
  shows "\<exists>w' r. store_node E d i x w = (Inr (), w')
    \<and> rows w' = (rows w)(t_node_wallets := (rows w t_node_wallets)(node_key x \<mapsto> r))
    \<and> field r ''block-id'' = Some (JStr i) \<and> field r ''address'' = field x ''address''
    \<and> field r ''node-id'' = field x ''node-id''"
proof -
  obtain a n where f: "field x ''public-key'' = Some (JStr (node_key x))" "field x ''address'' = Some a"
    "field x ''node-id'' = Some n" using assms(2) by (auto simp: node_ok_def)
  define q where "q = members (obj [(''address'', a), (''node-id'', n), (''timestamp'', JInt (clock E w)), (''block-id'', JStr i),
    (''id'', JStr (node_key x))])"
  have q: "node_row E (clock E w) i x = Inr (JObj q)" using f by (simp add: node_row_def const_index_member q_def obj_def)
  have mq: "map_of q = [''address'' \<mapsto> a, ''node-id'' \<mapsto> n, ''timestamp'' \<mapsto> JInt (clock E w), ''block-id'' \<mapsto> JStr i,
    ''id'' \<mapsto> JStr (node_key x)]" by (auto simp: q_def obj_def fun_eq_iff)
  have "id_string (JObj q) = Some (node_key x)" "map_of q (node_key x) = None"
    using assms(2) by (simp_all add: id_string_def mq node_ok_def)
  from update_effect [OF assms(1) this(1) assms(3) this(2)] obtain w' where
    w': "table_update E (JObj q) (open_table d t_node_wallets) w = (Inr (), w')"
    "rows w' = (rows w)(t_node_wallets := (rows w t_node_wallets)(node_key x \<mapsto>
        (case rows w t_node_wallets (node_key x) of None \<Rightarrow> JObj q | Some r \<Rightarrow> JObj (merge_members (members r) q))))"
    by blast
  have "field (case rows w t_node_wallets (node_key x) of None \<Rightarrow> JObj q | Some r \<Rightarrow> JObj (merge_members (members r) q)) k
      = map_of q k" if "map_of q k \<noteq> None" for k
    using that by (auto simp: merge_members_map split: option.split)
  with w' f mq q show ?thesis unfolding store_node_def
    by (intro exI [of _ w'] exI [of _ "case rows w t_node_wallets (node_key x) of None \<Rightarrow> JObj q
        | Some r \<Rightarrow> JObj (merge_members (members r) q)"] conjI) simp_all
qed

lemma node_loop:
  assumes "db_name d = dbn" "list_all node_ok xs" "rows w t_node_wallets index_id_text = None"
  shows "\<exists>w'. forP xs (store_node E d i) w = (Inr (), w')
    \<and> (\<forall>t. t \<noteq> t_node_wallets \<longrightarrow> rows w' t = rows w t)
    \<and> (\<forall>k. k \<notin> node_key ` set xs \<longrightarrow> rows w' t_node_wallets k = rows w t_node_wallets k)
    \<and> (\<forall>k \<in> node_key ` set xs. \<exists>r. rows w' t_node_wallets k = Some r \<and> field r ''block-id'' = Some (JStr i))"
  using assms(2,3)
proof (induction xs arbitrary: w)
  case Nil
  then show ?case by simp
next
  case (Cons x xs)
  then have x: "node_ok x" by simp
  from node_step [OF assms(1) x Cons.prems(2), of i] obtain w1 r where
    w1: "store_node E d i x w = (Inr (), w1)"
    and r: "rows w1 = (rows w)(t_node_wallets := (rows w t_node_wallets)(node_key x \<mapsto> r))"
      "field r ''block-id'' = Some (JStr i)" by blast
  have "rows w1 t_node_wallets index_id_text = None" using r(1) x Cons.prems(2) by (auto simp: node_ok_def)
  moreover have "list_all node_ok xs" using Cons.prems(1) by simp
  ultimately obtain w' where w':
    "forP xs (store_node E d i) w1 = (Inr (), w')"
    "\<forall>t. t \<noteq> t_node_wallets \<longrightarrow> rows w' t = rows w1 t"
    "\<forall>k. k \<notin> node_key ` set xs \<longrightarrow> rows w' t_node_wallets k = rows w1 t_node_wallets k"
    "\<forall>k \<in> node_key ` set xs. \<exists>r. rows w' t_node_wallets k = Some r \<and> field r ''block-id'' = Some (JStr i)"
    using Cons.IH by blast
  have "\<exists>r. rows w' t_node_wallets k = Some r \<and> field r ''block-id'' = Some (JStr i)"
    if "k \<in> node_key ` set (x # xs)" for k
    using that w'(3,4) r by (cases "k \<in> node_key ` set xs") auto
  moreover have "forP (x # xs) (store_node E d i) w = (Inr (), w')"
    using w1 w'(1) by (simp add: bindP_def)
  ultimately show ?case using w'(2,3) r(1) by (intro exI [of _ w']) auto
qed

lemma add_node_states_value:
  assumes "db_name d = dbn" "list_all node_ok xs" "rows w t_node_wallets index_id_text = None"
  shows "\<exists>w'. add_node_states E d (JArr xs) b w = (Inr (), w')
    \<and> rows w' t_node_states = (if rows w t_node_states (to_string (unat b)) = None
        then (rows w t_node_states)(to_string (unat b) \<mapsto> obj [(''nodes'', JArr xs), (''id'', JStr (to_string (unat b)))])
        else rows w t_node_states)
    \<and> (\<forall>t. t \<noteq> t_node_states \<longrightarrow> t \<noteq> t_node_wallets \<longrightarrow> rows w' t = rows w t)
    \<and> (\<forall>k. k \<notin> node_key ` set xs \<longrightarrow> rows w' t_node_wallets k = rows w t_node_wallets k)
    \<and> (\<forall>k \<in> node_key ` set xs. \<exists>r. rows w' t_node_wallets k = Some r
         \<and> field r ''block-id'' = Some (JStr (to_string (unat b))))"
proof -
  let ?i = "to_string (unat b)"
  define q where "q = members (obj [(''nodes'', JArr xs), (''id'', JStr ?i)])"
  have q: "obj [(''nodes'', JArr xs), (''id'', JStr ?i)] = JObj q" "id_string (JObj q) = Some ?i"
    by (simp_all add: q_def obj_def id_string_def)
  have t: "t_node_states \<noteq> t_node_wallets" by (simp add: t_node_states_def t_node_wallets_def)
  from insert_row_effect [OF assms(1), of q t_node_states w] obtain w1 where
    w1: "table_insert E (JObj q) (open_table d t_node_states) w = (Inr (), w1)"
    "rows w1 = (rows w)(t_node_states := insert_row (rows w t_node_states) (JObj q))"
    using q(2) by (auto simp: has_string_id_def)
  have "rows w1 t_node_wallets index_id_text = None" using w1(2) t assms(3) by simp
  from node_loop [OF assms(1,2) this, of ?i] obtain w' where
    w': "forP xs (store_node E d ?i) w1 = (Inr (), w')"
    "\<forall>t. t \<noteq> t_node_wallets \<longrightarrow> rows w' t = rows w1 t"
    "\<forall>k. k \<notin> node_key ` set xs \<longrightarrow> rows w' t_node_wallets k = rows w1 t_node_wallets k"
    "\<forall>k \<in> node_key ` set xs. \<exists>r. rows w' t_node_wallets k = Some r \<and> field r ''block-id'' = Some (JStr ?i)"
    by blast
  have "add_node_states E d (JArr xs) b w = (Inr (), w')"
    using w1(1) w'(1) by (simp add: add_node_states_def dec256 q(1) bindP_def [of "table_insert E _ _"])
  moreover have "rows w' t_node_states = (if rows w t_node_states ?i = None
        then (rows w t_node_states)(?i \<mapsto> JObj q) else rows w t_node_states)"
    using w'(2) w1(2) q(2) t by (simp add: insert_row_def)
  moreover have "\<forall>t. t \<noteq> t_node_states \<longrightarrow> t \<noteq> t_node_wallets \<longrightarrow> rows w' t = rows w t"
    "\<forall>k. k \<notin> node_key ` set xs \<longrightarrow> rows w' t_node_wallets k = rows w t_node_wallets k"
    using w'(2,3) w1(2) t by auto
  ultimately show ?thesis using w'(4) unfolding q(1) by (intro exI [of _ w'] conjI)
qed

end

text \<open>
  (C18) The description of the chain is stored under its version: every member as the node sent it,
  and every asset with the name of its code. Other tables and versions are left alone.
\<close>

theorem update_info_stores:
  assumes "explorer_env E (db_name d) rows"
    and "field info ''supported-assets'' = Some (JArr as)" and "list_all codes_are_text as"
    and "field info ''version'' = Some (JStr v)" and "v \<notin> {''info'', ''id''}"
    and "rows w t_blockchain_info index_id_text = None"
  shows "\<exists>w' r info' as'. update_info E d info w = (Inr (), w')
    \<and> rows w' = (rows w)(t_blockchain_info := (rows w t_blockchain_info)(v \<mapsto> r))
    \<and> field r ''info'' = Some info' \<and> field info' ''supported-assets'' = Some (JArr as')
    \<and> (\<forall>k. k \<noteq> ''supported-assets'' \<longrightarrow> field info' k = field info k)
    \<and> list_all2 (\<lambda>a a'. field a' ''ticker-name'' = ticker a
        \<and> (\<forall>k. k \<noteq> ''ticker-name'' \<longrightarrow> field a' k = field a k)) as as'"
  by (rule explorer_env.update_info_value [OF assms(1) refl assms(2-6)])

definition sample_info :: json where
  "sample_info = obj [(''version'', JStr ''1''), (''supported-assets'', JArr [obj [(''code'', JStr ''1'')]])]"

theorem update_info_stores_witness:
  "\<exists>w'. update_info sample_env sample_db sample_info (\<lambda>_. []) = (Inr (), w')
    \<and> (\<exists>r. ref_rows w' t_blockchain_info ''1'' = Some r)"
proof -
  have "field sample_info ''supported-assets'' = Some (JArr [obj [(''code'', JStr ''1'')]])"
    "field sample_info ''version'' = Some (JStr ''1'')" "list_all codes_are_text [obj [(''code'', JStr ''1'')]]"
    by (simp_all add: sample_info_def obj_def codes_are_text_def)
  from update_info_stores [OF sample_explorer this(1,3,2), of "\<lambda>_. []"] obtain w' r where
    "update_info sample_env sample_db sample_info (\<lambda>_. []) = (Inr (), w')"
    "ref_rows w' = (ref_rows (\<lambda>_. []))(t_blockchain_info := (ref_rows (\<lambda>_. []) t_blockchain_info)(''1'' \<mapsto> r))"
    by (auto simp: ref_rows_def)
  then show ?thesis by simp
qed

text \<open>
  (C17) The nodes at a block: the list is stored under the decimal text of the block number, unless that
  block is there already; the row of every listed node then names this block; the rows of other
  nodes and all other tables are as before.
\<close>

theorem add_node_states_stores:
  assumes "explorer_env E (db_name d) rows" and "list_all node_ok xs"
    and "rows w t_node_wallets index_id_text = None"
  shows "\<exists>w'. add_node_states E d (JArr xs) b w = (Inr (), w')
    \<and> rows w' t_node_states = (if rows w t_node_states (to_string (unat b)) = None
        then (rows w t_node_states)(to_string (unat b) \<mapsto> obj [(''nodes'', JArr xs), (''id'', JStr (to_string (unat b)))])
        else rows w t_node_states)
    \<and> (\<forall>t. t \<noteq> t_node_states \<longrightarrow> t \<noteq> t_node_wallets \<longrightarrow> rows w' t = rows w t)
    \<and> (\<forall>k. k \<notin> node_key ` set xs \<longrightarrow> rows w' t_node_wallets k = rows w t_node_wallets k)
    \<and> (\<forall>k \<in> node_key ` set xs. \<exists>r. rows w' t_node_wallets k = Some r
         \<and> field r ''block-id'' = Some (JStr (to_string (unat b))))"
  by (rule explorer_env.add_node_states_value [OF assms(1) refl assms(2,3)])

definition sample_node :: json where
  "sample_node = obj [(''public-key'', JStr ''key''), (''address'', JStr ''10.0.0.1''), (''node-id'', JStr ''1'')]"

theorem add_node_states_stores_witness:
  "\<exists>w' r. add_node_states sample_env sample_db (JArr [sample_node]) 7 (\<lambda>_. []) = (Inr (), w')
    \<and> ref_rows w' t_node_wallets ''key'' = Some r \<and> field r ''block-id'' = Some (JStr (to_string 7))"
proof -
  have k: "node_key sample_node = ''key''" by (simp add: node_key_def sample_node_def obj_def)
  then have "list_all node_ok [sample_node]"
    by (simp add: node_ok_def sample_node_def obj_def index_id_text_def)
  from add_node_states_stores [OF sample_explorer this, of "\<lambda>_. []" 7] k show ?thesis
    by (auto simp: ref_rows_def)
qed

end
