(* ===== verification/Fetcher.thy ===== *)
theory Fetcher
  imports Blocks Node Network
begin

text \<open>
  The fetcher, \<^verbatim>\<open>common/src/fetcher.cpp\<close>: it asks a node for the current block number again and again, hands the
  range of new numbers to a task that requests the blocks one by one, and stores what comes back. The
  rounds of the main loop and the tasks of the queues run concurrently; they are the steps of a
  relation on the state of the fetcher, in any order. The flag \<^verbatim>\<open>is_active_\<close> of the range task
  is set when such a task starts and cleared when one ends, as \<^verbatim>\<open>Task::async\<close> does. Waiting is no step.
\<close>

section \<open>State\<close>

record fetcher =
  fc_urls :: "string list"
  fc_update_timeout :: int
  fc_db :: db

record 'w fstate =
  fs_rpc :: "'w rstate"
  fs_first :: uint256 \<comment> \<open>\<^verbatim>\<open>first\<close> of the main loop, shared with the range tasks\<close>
  fs_ranges :: "uint256 list" \<comment> \<open>queued range tasks, by \<^verbatim>\<open>last\<close>\<close>
  fs_active :: bool \<comment> \<open>\<^verbatim>\<open>is_active_\<close> of the range task\<close>
  fs_running :: "(uint256 \<times> uint256) list" \<comment> \<open>running \<open>fetch_blocks\<close>: the next number and \<^verbatim>\<open>to\<close>\<close>
  fs_requests :: "uint256 list" \<comment> \<open>\<^verbatim>\<open>rpc_fetching_block_task_\<close>: blocks to fetch\<close>
  fs_store :: "(json \<times> uint256) list" \<comment> \<open>\<^verbatim>\<open>block_processing_task_\<close>: blocks to store\<close>

definition on_node :: "('w rstate, 'a) prog \<Rightarrow> ('w fstate, 'a) prog" where
  "on_node m = (\<lambda>s. case m (fs_rpc s) of (r, p) \<Rightarrow> (r, s\<lparr>fs_rpc := p\<rparr>))"

section \<open>Connecting\<close>

fun count_clients :: "('w, 'e) node_env_scheme \<Rightarrow> string list \<Rightarrow> ('w, nat) prog" where
  "count_clients E [] = ret 0"
| "count_clients E (u # urls) =
     bindP (rpc_connect E u) (\<lambda>client.
     bindP (count_clients E urls) (\<lambda>n. ret (if client then Suc n else n)))"

definition fetcher_connect ::
  "('w, 'e) node_env_scheme \<Rightarrow> string list \<Rightarrow> int \<Rightarrow> db \<Rightarrow> ('w, fetcher option) prog" where
  "fetcher_connect E urls timeout d =
     bindP (count_clients E urls) (\<lambda>n.
     ret (if n = 0 then None
          else Some \<lparr>fc_urls = urls, fc_update_timeout = timeout, fc_db = d\<rparr>))"

section \<open>Blocks\<close>

text \<open>One round of the main loop.\<close>

definition main_round :: "('w, 'e) node_env_scheme \<Rightarrow> fetcher \<Rightarrow> ('w fstate, unit) prog" where
  "main_round E f =
     catchP
       (bindP (on_node (get_rpc E (fc_urls f))) (\<lambda>client.
        case client of None \<Rightarrow> ret ()
        | Some url \<Rightarrow>
            bindP (on_node (on_rpc (rpc_get_current_block_id E url))) (\<lambda>next_block_id.
            case next_block_id of None \<Rightarrow> ret ()
            | Some latest \<Rightarrow>
                modifyP (\<lambda>s. if \<not> fs_active s \<and> fs_first s < latest
                  then s\<lparr>fs_ranges := fs_ranges s @ [latest]\<rparr> else s))))
       (\<lambda>_. ret ())"

text \<open>One round of the loop that fetches a block: the block, or \<open>None\<close> where it tries again.\<close>

definition block_attempt :: "('w, 'e) node_env_scheme \<Rightarrow> string list \<Rightarrow> uint256 \<Rightarrow> ('w rstate, json option) prog" where
  "block_attempt E urls i =
     catchP
       (bindP (get_rpc E urls) (\<lambda>client.
        case client of None \<Rightarrow> ret None
        | Some url \<Rightarrow>
            bindP (on_rpc (rpc_get_block E url i)) (\<lambda>response.
            case response of None \<Rightarrow> ret None
            | Some j \<Rightarrow>
                if count_key j ''block-data'' = 0 then ret None
                else bindP (lift (jl_at E j ''block-data'')) (\<lambda>block. ret (Some block)))))
       (\<lambda>_. ret None)"

text \<open>\<open>add_block\<close> of the storing task, with the time of an unreadable date as a parameter.\<close>

definition store_block ::
  "('w, 'e) node_env_scheme \<Rightarrow> (string \<Rightarrow> time_t) \<Rightarrow> fetcher \<Rightarrow> json \<Rightarrow> uint256 \<Rightarrow> ('w fstate, unit) prog" where
  "store_block E ind f block i =
     catchP (on_node (on_rpc (add_block E ind (fc_db f) block i)))
       (\<lambda>e. if is_reql_error e then ret () else raise e)"

datatype fevent =
    Main_round
  | Start_range uint256
  | Request uint256
  | End_range uint256
  | Retry uint256
  | Fetched json uint256
  | Stored json uint256

inductive fetch_step ::
  "('w, 'e) node_env_scheme \<Rightarrow> (string \<Rightarrow> time_t) \<Rightarrow> fetcher \<Rightarrow> 'w fstate \<Rightarrow> fevent \<Rightarrow> 'w fstate \<Rightarrow> bool"
  for E ind f where
  main: "main_round E f s = (r, s') \<Longrightarrow> fetch_step E ind f s Main_round s'"
| start_range: "fs_ranges s = xs @ latest # ys \<Longrightarrow>
    fetch_step E ind f s (Start_range latest)
      (s\<lparr>fs_ranges := xs @ ys, fs_active := True, fs_running := (fs_first s, latest) # fs_running s\<rparr>)"
| request: "fs_running s = xs @ (i, to) # ys \<Longrightarrow> i \<le> to \<Longrightarrow>
    fetch_step E ind f s (Request i)
      (s\<lparr>fs_running := xs @ (i + 1, to) # ys, fs_requests := fs_requests s @ [i]\<rparr>)"
| end_range: "fs_running s = xs @ (i, to) # ys \<Longrightarrow> \<not> i \<le> to \<Longrightarrow>
    fetch_step E ind f s (End_range to)
      (s\<lparr>fs_running := xs @ ys, fs_first := to, fs_active := False\<rparr>)"
| retry: "i \<in> set (fs_requests s) \<Longrightarrow> block_attempt E (fc_urls f) i (fs_rpc s) = (Inr None, p) \<Longrightarrow>
    fetch_step E ind f s (Retry i) (s\<lparr>fs_rpc := p\<rparr>)"
| fetched: "fs_requests s = xs @ i # ys \<Longrightarrow>
    block_attempt E (fc_urls f) i (fs_rpc s) = (Inr (Some block), p) \<Longrightarrow>
    fetch_step E ind f s (Fetched block i)
      (s\<lparr>fs_rpc := p, fs_requests := xs @ ys, fs_store := fs_store s @ [(block, i)]\<rparr>)"
| stored: "fs_store s = xs @ (block, i) # ys \<Longrightarrow>
    store_block E ind f block i (s\<lparr>fs_store := xs @ ys\<rparr>) = (r, s') \<Longrightarrow>
    fetch_step E ind f s (Stored block i) s'"

inductive fetch_run ::
  "('w, 'e) node_env_scheme \<Rightarrow> (string \<Rightarrow> time_t) \<Rightarrow> fetcher \<Rightarrow> 'w fstate \<Rightarrow> fevent list \<Rightarrow> 'w fstate \<Rightarrow> bool"
  for E ind f s0 where
  run_start: "fetch_run E ind f s0 [] s0"
| run_step: "fetch_run E ind f s0 es s \<Longrightarrow> fetch_step E ind f s e s' \<Longrightarrow> fetch_run E ind f s0 (es @ [e]) s'"

inductive_cases fetch_stepE: "fetch_step E ind f s e s'"

text \<open>\<open>run(block_id)\<close>: the loop starts at \<open>block_id\<close> with empty queues.\<close>

definition fetcher_start :: "'w rstate \<Rightarrow> uint256 \<Rightarrow> 'w fstate" where
  "fetcher_start p block_id =
     \<lparr>fs_rpc = p, fs_first = block_id, fs_ranges = [], fs_active = False, fs_running = [],
      fs_requests = [], fs_store = []\<rparr>"

section \<open>The states of the network\<close>

record 'w sstate =
  ss_rpc :: "'w rstate"
  ss_block :: uint256 \<comment> \<open>\<^verbatim>\<open>block_id\<close>\<close>
  ss_info :: bool \<comment> \<open>\<^verbatim>\<open>bch_info_got\<close>\<close>

definition on_ss :: "('w, 'a) prog \<Rightarrow> ('w sstate, 'a) prog" where
  "on_ss m = (\<lambda>s. case m (rp_world (ss_rpc s)) of (r, w') \<Rightarrow> (r, s\<lparr>ss_rpc := (ss_rpc s)\<lparr>rp_world := w'\<rparr>\<rparr>))"

definition ss_get_rpc :: "('w, 'e) node_env_scheme \<Rightarrow> string list \<Rightarrow> ('w sstate, string option) prog" where
  "ss_get_rpc E urls = (\<lambda>s. case get_rpc E urls (ss_rpc s) of (r, p) \<Rightarrow> (r, s\<lparr>ss_rpc := p\<rparr>))"

definition info_part :: "('w, 'e) node_env_scheme \<Rightarrow> fetcher \<Rightarrow> string \<Rightarrow> ('w sstate, unit) prog" where
  "info_part E f url =
     bindP (getP ss_info) (\<lambda>got.
     if got then ret ()
     else bindP (on_ss (rpc_get_blockchain_info E url)) (\<lambda>info.
       case info of None \<Rightarrow> ret ()
       | Some j \<Rightarrow> bindP (on_ss (update_info E (fc_db f) j)) (\<lambda>_. modifyP (\<lambda>s. s\<lparr>ss_info := True\<rparr>))))"

definition nodes_part :: "('w, 'e) node_env_scheme \<Rightarrow> fetcher \<Rightarrow> uint256 \<Rightarrow> json option \<Rightarrow> ('w sstate, unit) prog" where
  "nodes_part E f b nodes =
     bindP (getP ss_block) (\<lambda>block_id.
     case nodes of None \<Rightarrow> ret ()
     | Some ns \<Rightarrow>
         if b \<le> block_id then ret ()
         else bindP (modifyP (\<lambda>s. s\<lparr>ss_block := b\<rparr>)) (\<lambda>_.
           if items ns = [] then ret () else on_ss (add_node_states E (fc_db f) ns b)))"

definition states_round :: "('w, 'e) node_env_scheme \<Rightarrow> fetcher \<Rightarrow> ('w sstate, unit) prog" where
  "states_round E f =
     catchP
       (bindP (ss_get_rpc E (fc_urls f)) (\<lambda>client.
        case client of None \<Rightarrow> ret ()
        | Some url \<Rightarrow>
            bindP (info_part E f url) (\<lambda>_.
            bindP (on_ss (rpc_get_current_block_id E url)) (\<lambda>next_block_id.
            case next_block_id of None \<Rightarrow> ret ()
            | Some b \<Rightarrow> bindP (on_ss (rpc_get_nodes E url)) (nodes_part E f b)))))
       (\<lambda>_. ret ())"

section \<open>No block is skipped\<close>

text \<open>
  A number is taken care of when it waits to be fetched, waits to be stored, or was handed to
  \<open>add_block\<close>. The invariant: this holds for all numbers from the start up to \<^verbatim>\<open>first\<close>, and up to the
  position of every running range task.
\<close>

definition taken_care :: "fevent list \<Rightarrow> 'w fstate \<Rightarrow> uint256 \<Rightarrow> bool" where
  "taken_care es s i \<longleftrightarrow>
     i \<in> set (fs_requests s) \<or> i \<in> snd ` set (fs_store s) \<or> (\<exists>b. Stored b i \<in> set es)"

definition reached :: "uint256 \<Rightarrow> (uint256 \<Rightarrow> bool) \<Rightarrow> 'w fstate \<Rightarrow> bool" where
  "reached start P s \<longleftrightarrow>
     (\<forall>n \<in> insert (fs_first s) (fst ` set (fs_running s)). \<forall>i. start \<le> i \<and> i < n \<longrightarrow> P i)"

definition fetch_inv :: "uint256 \<Rightarrow> fevent list \<Rightarrow> 'w fstate \<Rightarrow> bool" where
  "fetch_inv start es s \<longleftrightarrow> reached start (taken_care es s) s"

lemma main_round_frame:
  assumes "main_round E f s = (r, s')"
  shows "fs_first s' = fs_first s" "fs_running s' = fs_running s" "fs_requests s' = fs_requests s" "fs_store s' = fs_store s"
  using assms
  by (auto simp: main_round_def catchP_def bindP_def on_node_def split: prod.splits sum.splits option.splits if_splits)

lemma store_block_frame:
  assumes "store_block E ind f b i s = (r, s')"
  shows "fs_first s' = fs_first s" "fs_running s' = fs_running s" "fs_requests s' = fs_requests s" "fs_store s' = fs_store s"
  using assms by (auto simp: store_block_def catchP_def on_node_def split: prod.splits sum.splits if_splits)

lemma step_taken_care:
  assumes "fetch_step E ind f s e s'" "taken_care es s i"
  shows "taken_care (es @ [e]) s' i"
  using assms
proof (cases rule: fetch_step.cases)
  case (main r)
  then show ?thesis using assms(2) main_round_frame [of E f s r s'] by (auto simp: taken_care_def)
next
  case (stored xs block j ys r)
  with assms(2) show ?thesis
    using store_block_frame(3,4) [of E ind f block j "s\<lparr>fs_store := xs @ ys\<rparr>" r s'] by (auto simp: taken_care_def)
qed (use assms(2) in \<open>auto simp: taken_care_def image_iff\<close>)

lemma word_less_Suc: "i < n + 1 \<Longrightarrow> i < n \<or> i = (n :: 'a::len word)"
  using inc_le [of n i] by fastforce

text \<open>A step extends what is reached by numbers it requests.\<close>

lemma step_reached:
  assumes "fetch_step E ind f s e s'" "reached start P s"
    and mono: "\<And>i. P i \<Longrightarrow> P' i" and new: "\<And>i. i \<in> set (fs_requests s') \<Longrightarrow> P' i"
  shows "reached start P' s'"
proof -
  have old: "P' i" if "n \<in> insert (fs_first s) (fst ` set (fs_running s))" "start \<le> i" "i < n" for n i
    using assms(2) that mono unfolding reached_def by blast
  from assms(1) show ?thesis
  proof (cases rule: fetch_step.cases)
    case (main r)
    then show ?thesis using old main_round_frame [of E f s r s'] unfolding reached_def by metis
  next
    case (start_range xs latest ys)
    then show ?thesis using old unfolding reached_def by auto
  next
    case (request xs i to ys)
    have "P' j" if "start \<le> j" "j < i + 1" for j
      using word_less_Suc [OF that(2)] old [of i j] that(1) request new [of i] by auto
    then show ?thesis using old request unfolding reached_def by auto
  next
    case (end_range xs i to ys)
    have "P' j" if "start \<le> j" "j < to" for j
      using old [of i j] that end_range by auto
    then show ?thesis using old end_range unfolding reached_def by auto
  next
    case (retry i p)
    then show ?thesis using old unfolding reached_def by auto
  next
    case (fetched xs i ys block p)
    then show ?thesis using old unfolding reached_def by auto
  next
    case (stored xs block i ys r)
    then show ?thesis
      using old store_block_frame(1,2) [of E ind f block i "s\<lparr>fs_store := xs @ ys\<rparr>" r s'] unfolding reached_def by auto
  qed
qed

lemma step_fetch_inv:
  assumes "fetch_step E ind f s e s'" "fetch_inv start es s"
  shows "fetch_inv start (es @ [e]) s'"
  unfolding fetch_inv_def
proof (rule step_reached [OF assms(1) assms(2) [unfolded fetch_inv_def]])
  show "taken_care (es @ [e]) s' i" if "taken_care es s i" for i by (rule step_taken_care [OF assms(1) that])
  show "taken_care (es @ [e]) s' i" if "i \<in> set (fs_requests s')" for i using that by (simp add: taken_care_def)
qed

lemma run_fetch_inv:
  assumes "fetch_run E ind f (fetcher_start p start) es s"
  shows "fetch_inv start es s"
  using assms
proof (induction rule: fetch_run.induct)
  case run_start
  then show ?case by (auto simp: fetch_inv_def reached_def fetcher_start_def)
next
  case (run_step es s e s')
  then show ?case using step_fetch_inv by blast
qed

text \<open>
  No block is skipped: in any order of the rounds and tasks, every number from the one the fetcher was
  started with up to (not including) the one its main loop has reached waits to be fetched, waits to
  be stored, or was given to \<open>add_block\<close>.
\<close>

lemma fetcher_no_skip:
  assumes "fetch_run E ind f (fetcher_start p start) es s" and "start \<le> i" and "i < fs_first s"
  shows "i \<in> set (fs_requests s) \<or> i \<in> snd ` set (fs_store s) \<or> (\<exists>b. Stored b i \<in> set es)"
  using run_fetch_inv [OF assms(1)] assms(2,3) by (auto simp: fetch_inv_def reached_def taken_care_def)

section \<open>A block is fetched and stored\<close>

lemma block_attempt_value:
  assumes "nlohmann_json E" "urls \<noteq> []" "url = urls ! (unat (rp_counter p) mod length urls)"
    and "rpc_connect E url (rp_world p) = (Inr True, w1)" "rpc_get_block E url i w1 = (Inr (Some j), w2)"
    and "field j ''block-data'' = Some block"
  shows "block_attempt E urls i p = (Inr (Some block), \<lparr>rp_world = w2, rp_counter = rp_counter p + 1\<rparr>)"
proof -
  have "get_rpc E urls p = (Inr (Some url), \<lparr>rp_world = w1, rp_counter = rp_counter p + 1\<rparr>)"
    using assms(3,4) by (simp add: get_rpc_apply [OF assms(2)])
  then show ?thesis
    using assms(5,6) nlohmann_json.at_member [OF assms(1,6)]
    by (simp add: block_attempt_def bindP_def catchP_def on_rpc_def)
qed

section \<open>A run\<close>

definition sample_fetcher :: fetcher where
  "sample_fetcher = \<lparr>fc_urls = [''a''], fc_update_timeout = 3, fc_db = sample_db\<rparr>"

definition sample_fstate :: "refdb \<Rightarrow> uint256 \<Rightarrow> uint256 list \<Rightarrow> bool \<Rightarrow> (uint256 \<times> uint256) list \<Rightarrow> uint256 list \<Rightarrow> refdb fstate" where
  "sample_fstate w first ranges active running requests =
     \<lparr>fs_rpc = \<lparr>rp_world = w, rp_counter = 1\<rparr>, fs_first = first, fs_ranges = ranges, fs_active = active,
      fs_running = running, fs_requests = requests, fs_store = []\<rparr>"

text \<open>A node at block 1: both blocks are requested.\<close>

lemma sample_fetch_run:
  assumes "fc_urls f = [''a'']" "\<And>u. rpc_connect E u = ret True" "\<And>u. rpc_get_current_block_id E u = ret (Some 1)"
  shows "fetch_run E ind f (fetcher_start \<lparr>rp_world = w, rp_counter = 0\<rparr> 0)
     [Main_round, Start_range 1, Request 0, Request 1, End_range 1] (sample_fstate w 1 [] False [] [0, 1])"
proof -
  let ?step = "fetch_step E ind f" and ?s0 = "fetcher_start \<lparr>rp_world = w, rp_counter = 0\<rparr> 0"
  have "main_round E f ?s0 = (Inr (), sample_fstate w 0 [1] False [] [])"
    using assms by (simp add: main_round_def fetcher_start_def on_node_def get_rpc_apply on_rpc_def bindP_def catchP_def sample_fstate_def)
  then have 1: "?step ?s0 Main_round (sample_fstate w 0 [1] False [] [])" by (rule main)
  have 2: "?step (sample_fstate w 0 [1] False [] []) (Start_range 1) (sample_fstate w 0 [] True [(0, 1)] [])"
    using start_range [of "sample_fstate w 0 [1] False [] []" "[]" 1 "[]"] by (simp add: sample_fstate_def)
  have 3: "?step (sample_fstate w 0 [] True [(0, 1)] []) (Request 0) (sample_fstate w 0 [] True [(1, 1)] [0])"
    using request [of "sample_fstate w 0 [] True [(0, 1)] []" "[]" 0 1 "[]"] by (simp add: sample_fstate_def)
  have 4: "?step (sample_fstate w 0 [] True [(1, 1)] [0]) (Request 1) (sample_fstate w 0 [] True [(2, 1)] [0, 1])"
    using request [of "sample_fstate w 0 [] True [(1, 1)] [0]" "[]" 1 1 "[]"] by (simp add: sample_fstate_def)
  have "\<not> (2 :: uint256) \<le> 1" by (simp add: word_le_nat_alt)
  then have 5: "?step (sample_fstate w 0 [] True [(2, 1)] [0, 1]) (End_range 1) (sample_fstate w 1 [] False [] [0, 1])"
    using end_range [of "sample_fstate w 0 [] True [(2, 1)] [0, 1]" "[]" 2 1 "[]"] by (simp add: sample_fstate_def)
  from run_step [OF run_step [OF run_step [OF run_step [OF run_step [OF run_start 1] 2] 3] 4] 5] show ?thesis by simp
qed

end
