(* ===== verification/Float_Text.thy ===== *)
theory Float_Text
  imports Prelude "HOL-Library.Log_Nat"
begin

text \<open>
  \<^verbatim>\<open>std::stof\<close> as the genesis parser uses it and \<^verbatim>\<open>std::stold\<close> as the statistics do: the syntax of \<^verbatim>\<open>strtof\<close> and the
  rounding of the number read to the format of the result, ties to even. Where \<^verbatim>\<open>strtof\<close> converts
  nothing, \<^verbatim>\<open>invalid_argument\<close> is raised; where it reports \<^verbatim>\<open>ERANGE\<close>, \<^verbatim>\<open>out_of_range\<close>.
\<close>

section \<open>Floating point numbers\<close>

text \<open>A finite number is its sign and its magnitude.\<close>

datatype float_value = FNum bool rat | FInf bool | FNan

definition pow2 :: "int \<Rightarrow> rat" where
  "pow2 e = (if 0 \<le> e then 2 ^ nat e else 1 / 2 ^ nat (- e))"

text \<open>The exponent \<open>k\<close> with \<open>2 ^ k \<le> r < 2 ^ (k + 1)\<close>, for \<open>0 < r\<close>.\<close>

definition floor_log2 :: "rat \<Rightarrow> int" where
  "floor_log2 r =
     (let k = int (floorlog 2 (nat (fst (quotient_of r)))) - int (floorlog 2 (nat (snd (quotient_of r))))
      in if pow2 k \<le> r then k else k - 1)"

definition round_even :: "rat \<Rightarrow> int" where
  "round_even r =
     (let f = \<lfloor>r\<rfloor>; d = r - of_int f
      in if d < 1 / 2 then f else if 1 / 2 < d then f + 1 else if even f then f else f + 1)"

text \<open>
  A format has \<open>p\<close> bits of precision, no unit below \<open>2 ^ emin\<close> and no number from \<open>2 ^ emax\<close> on. The long double is
  the 80-bit one of the x86 processors.
\<close>

record float_format =
  ff_precision :: int
  ff_emin :: int
  ff_emax :: nat

definition single_format :: float_format where
  "single_format = \<lparr>ff_precision = 24, ff_emin = -149, ff_emax = 128\<rparr>"

definition double_format :: float_format where
  "double_format = \<lparr>ff_precision = 53, ff_emin = -1074, ff_emax = 1024\<rparr>"

definition extended_format :: float_format where
  "extended_format = \<lparr>ff_precision = 64, ff_emin = -16445, ff_emax = 16384\<rparr>"

lemmas format_defs = single_format_def double_format_def extended_format_def

definition ulp_exponent :: "float_format \<Rightarrow> rat \<Rightarrow> int" where
  "ulp_exponent F r = max (floor_log2 r - (ff_precision F - 1)) (ff_emin F)"

definition round_float :: "float_format \<Rightarrow> rat \<Rightarrow> rat" where
  "round_float F r =
     (if r = 0 then 0 else of_int (round_even (r / pow2 (ulp_exponent F r))) * pow2 (ulp_exponent F r))"

text \<open>Conversion to a format, and addition in it.\<close>

definition to_format :: "float_format \<Rightarrow> float_value \<Rightarrow> float_value" where
  "to_format F v =
     (case v of FNum s r \<Rightarrow> (if 2 ^ ff_emax F \<le> round_float F r then FInf s else FNum s (round_float F r))
      | _ \<Rightarrow> v)"

definition signed_value :: "bool \<Rightarrow> rat \<Rightarrow> rat" where
  "signed_value s r = (if s then - r else r)"

fun float_add :: "float_format \<Rightarrow> float_value \<Rightarrow> float_value \<Rightarrow> float_value" where
  "float_add F (FNum s r) (FNum s' r') =
     (let v = signed_value s r + signed_value s' r' in
      to_format F (FNum (v < 0 \<or> (v = 0 \<and> s \<and> s')) \<bar>v\<bar>))"
| "float_add F (FInf s) (FInf s') = (if s = s' then FInf s else FNan)"
| "float_add F (FInf s) (FNum _ _) = FInf s"
| "float_add F (FNum _ _) (FInf s) = FInf s"
| "float_add F _ _ = FNan"

section \<open>The syntax\<close>

definition lower_char :: "char \<Rightarrow> char" where
  "lower_char c = (let n = (of_char c :: nat) in if 65 \<le> n \<and> n \<le> 90 then char_of (n + 32) else c)"

definition is_hex_char :: "char \<Rightarrow> bool" where
  "is_hex_char c \<longleftrightarrow> is_digit_char c \<or> lower_char c \<in> set ''abcdef''"

definition hex_digit_value :: "char \<Rightarrow> nat" where
  "hex_digit_value c = (if is_digit_char c then digit_value c else of_char (lower_char c) - 87)"

definition based_value :: "nat \<Rightarrow> (char \<Rightarrow> nat) \<Rightarrow> string \<Rightarrow> nat" where
  "based_value b val s = foldl (\<lambda>a c. b * a + val c) 0 s"

text \<open>The sign in front of a number or an exponent, and the rest.\<close>

fun take_sign :: "string \<Rightarrow> bool \<times> string" where
  "take_sign [] = (False, [])"
| "take_sign (c # s) = (if c = CHR ''-'' then (True, s) else if c = CHR ''+'' then (False, s) else (False, c # s))"

text \<open>Digits with an optional point: the digits before and after it and the rest, if there is a digit.\<close>

definition take_mantissa :: "(char \<Rightarrow> bool) \<Rightarrow> string \<Rightarrow> (string \<times> string \<times> string) option" where
  "take_mantissa dig s =
     (let a = takeWhile dig s; u = dropWhile dig s;
          b = (if u \<noteq> [] \<and> hd u = CHR ''.'' then takeWhile dig (tl u) else []);
          v = (if u \<noteq> [] \<and> hd u = CHR ''.'' then dropWhile dig (tl u) else u)
      in if a = [] \<and> b = [] then None else Some (a, b, v))"

text \<open>The exponent after the letter \<open>x\<close>, 0 where there is none.\<close>

definition take_exponent :: "char \<Rightarrow> string \<Rightarrow> int" where
  "take_exponent x s =
     (if s \<noteq> [] \<and> lower_char (hd s) = x
      then let (neg, u) = take_sign (tl s); ds = takeWhile is_digit_char u in
           if neg then - int (decimal_value ds) else int (decimal_value ds)
      else 0)"

definition power_of :: "rat \<Rightarrow> int \<Rightarrow> rat" where
  "power_of b e = (if 0 \<le> e then b ^ nat e else 1 / b ^ nat (- e))"

definition decimal_number :: "string \<Rightarrow> rat option" where
  "decimal_number s =
     (case take_mantissa is_digit_char s of None \<Rightarrow> None
      | Some (a, b, v) \<Rightarrow>
          Some (of_nat (decimal_value (a @ b)) * power_of 10 (take_exponent CHR ''e'' v - int (length b))))"

definition hex_number :: "string \<Rightarrow> rat option" where
  "hex_number s =
     (case take_mantissa is_hex_char s of None \<Rightarrow> None
      | Some (a, b, v) \<Rightarrow>
          Some (of_nat (based_value 16 hex_digit_value (a @ b)) * power_of 2 (take_exponent CHR ''p'' v - 4 * int (length b))))"

definition magnitude :: "string \<Rightarrow> rat option" where
  "magnitude s =
     (if map lower_char (take 2 s) = ''0x'' \<and> hex_number (drop 2 s) \<noteq> None
      then hex_number (drop 2 s) else decimal_number s)"

text \<open>
  The conversion functions differ in the format: \<^verbatim>\<open>ERANGE\<close> is reported for a result that is too large, or below the
  normal numbers and inexact.
\<close>

definition string_to_float :: "float_format \<Rightarrow> string \<Rightarrow> float_value result" where
  "string_to_float F s =
     (let (neg, u) = take_sign (dropWhile is_space_char s); word = map lower_char (take 3 u) in
      if word = ''inf'' then Inr (FInf neg)
      else if word = ''nan'' then Inr FNan
      else case magnitude u of None \<Rightarrow> Inl (Std_exception ''invalid_argument'')
      | Some r \<Rightarrow>
          let v = round_float F r in
          if 2 ^ ff_emax F \<le> v \<or> (v < pow2 (ff_emin F + ff_precision F - 1) \<and> v \<noteq> r)
          then Inl (Std_exception ''out_of_range'')
          else Inr (FNum neg v))"

definition stof :: "string \<Rightarrow> float_value result" where
  "stof = string_to_float single_format"

definition stold :: "string \<Rightarrow> float_value result" where
  "stold = string_to_float extended_format"

section \<open>Whole numbers\<close>

lemma pow2_pos: "0 < pow2 e"
  by (simp add: pow2_def)

lemma round_even_int [simp]: "round_even (of_int n) = n"
  by (simp add: round_even_def)

text \<open>A number whose quotient by its unit is whole is kept.\<close>

lemma round_float_exact:
  assumes "r / pow2 (ulp_exponent F r) = of_int m"
  shows "round_float F r = r"
proof -
  have "of_int m * pow2 (ulp_exponent F r) = r" using assms pow2_pos [of "ulp_exponent F r"] by (simp add: field_simps)
  then show ?thesis by (simp add: round_float_def assms)
qed

lemma floor_log2_nat: "n < 2 ^ k \<Longrightarrow> 0 < k \<Longrightarrow> floor_log2 (of_nat n) \<le> int k - 1"
proof -
  assume n: "n < 2 ^ k" "0 < k"
  have "quotient_of (of_nat n) = (int n, 1)" using quotient_of_int [of "int n"] by simp
  moreover have "floorlog 2 n \<le> k" using n(1) by (simp add: floorlog_leI)
  moreover have "floorlog 2 (Suc 0) = 1" by (simp add: floorlog_def)
  ultimately show ?thesis by (simp add: floor_log2_def Let_def)
qed

lemma round_float_nat:
  assumes "n < 2 ^ k" "0 < k" "int k \<le> ff_precision F" "ff_emin F \<le> 0"
  shows "round_float F (of_nat n) = of_nat n"
proof -
  let ?e = "ulp_exponent F (of_nat n)"
  have "?e \<le> 0" using floor_log2_nat [OF assms(1,2)] assms(3,4) by (simp add: ulp_exponent_def)
  then have "of_nat n / pow2 ?e = of_int (int n * 2 ^ nat (- ?e))" by (cases "?e = 0") (simp_all add: pow2_def)
  then show ?thesis by (rule round_float_exact)
qed

text \<open>Adding whole numbers is exact as long as the sum fits the precision.\<close>

lemma float_add_nat:
  assumes "m + n < 2 ^ k" "0 < k" "int k \<le> ff_precision F" "ff_emin F \<le> 0" "k \<le> ff_emax F"
  shows "float_add F (FNum False (of_nat m)) (FNum False (of_nat n)) = FNum False (of_nat (m + n))"
proof -
  have r: "round_float F (of_nat (m + n)) = of_nat (m + n)" by (rule round_float_nat [OF assms(1-4)])
  have "(of_nat (m + n) :: rat) < of_nat (2 ^ k)" using assms(1) of_nat_less_iff by blast
  also have "\<dots> = 2 ^ k" by simp
  also have "\<dots> \<le> 2 ^ ff_emax F" using assms(5) by (intro power_increasing) simp_all
  finally have "\<not> 2 ^ ff_emax F \<le> (of_nat (m + n) :: rat)" by simp
  then show ?thesis using r by (simp add: signed_value_def to_format_def Let_def flip: of_nat_add)
qed

lemma dropWhile_digits: "dropWhile is_digit_char (to_string n) = []" "takeWhile is_digit_char (to_string n) = to_string n"
  by (simp_all add: to_string_digits takeWhile_eq_all_conv)

lemma to_string_decimal: "decimal_number (to_string n) = Some (of_nat n)"
  by (simp add: decimal_number_def take_mantissa_def dropWhile_digits to_string_not_Nil take_exponent_def power_of_def
      decimal_value_to_string)

lemma digit_lower: "is_digit_char c \<Longrightarrow> lower_char c = c"
  by (auto simp: is_digit_char_def lower_char_def Let_def)

lemma map_lower_digits: "(\<And>c. c \<in> set s \<Longrightarrow> is_digit_char c) \<Longrightarrow> map lower_char s = s"
  by (simp add: map_idI digit_lower)

lemma take_to_string: "c \<in> set (take k (to_string n)) \<Longrightarrow> is_digit_char c"
  using in_set_takeD to_string_digits by fast

lemma to_string_magnitude: "magnitude (to_string n) = Some (of_nat n)"
proof -
  have "map lower_char (take 2 (to_string n)) = take 2 (to_string n)"
    by (rule map_lower_digits) (rule take_to_string)
  moreover have "take 2 (to_string n) \<noteq> ''0x''"
    using take_to_string [of "CHR ''x''" 2 n] by (auto simp: is_digit_char_def)
  ultimately show ?thesis by (simp add: magnitude_def to_string_decimal)
qed

text \<open>The first whole number that is not a single precision number.\<close>

lemma floor_log2_example: "floor_log2 16777217 = 24"
proof -
  have "quotient_of 16777217 = (16777217, 1)" using quotient_of_int [of 16777217] by simp
  moreover have "floorlog 2 16777217 = 25" "floorlog 2 1 = 1"
    using floorlog_leI [of 16777217 2 25] floorlog_ge_SucI [of 2 24 16777217] by (simp_all add: floorlog_def)
  ultimately show ?thesis by (simp add: floor_log2_def pow2_def)
qed

lemma round_float_example: "round_float single_format 16777217 = 16777216"
proof -
  have "\<lfloor>16777217 / 2 :: rat\<rfloor> = 8388608" by (simp add: floor_eq_iff)
  then have "round_even (16777217 / 2) = 8388608" by (simp add: round_even_def)
  then show ?thesis by (simp add: round_float_def ulp_exponent_def floor_log2_example pow2_def format_defs)
qed

lemma floor_log2_limit: "floor_log2 16777216 = 24"
proof -
  have "quotient_of 16777216 = (16777216, 1)" using quotient_of_int [of 16777216] by simp
  moreover have "floorlog 2 16777216 = 25" "floorlog 2 1 = 1"
    using floorlog_leI [of 16777216 2 25] floorlog_ge_SucI [of 2 24 16777216] by (simp_all add: floorlog_def)
  ultimately show ?thesis by (simp add: floor_log2_def pow2_def)
qed

lemma round_float_limit: "round_float single_format 16777216 = 16777216"
  by (rule round_float_exact [where m = 8388608]) (simp add: ulp_exponent_def floor_log2_limit pow2_def format_defs)

text \<open>The conversion of a text of digits and points.\<close>

definition plain_char :: "char \<Rightarrow> bool" where
  "plain_char c \<longleftrightarrow> is_digit_char c \<or> c = CHR ''.''"

lemma plain_char_lower: "plain_char c \<Longrightarrow> lower_char c = c"
  unfolding plain_char_def using digit_lower [of c] by (auto simp: lower_char_def)

lemma string_to_float_plain:
  assumes "\<And>c. c \<in> set s \<Longrightarrow> plain_char c" and "s \<noteq> []" and "decimal_number s = Some q"
  shows "string_to_float F s =
    (let v = round_float F q in
     if 2 ^ ff_emax F \<le> v \<or> (v < pow2 (ff_emin F + ff_precision F - 1) \<and> v \<noteq> q)
     then Inl (Std_exception ''out_of_range'') else Inr (FNum False v))"
proof -
  obtain x u where s: "s = x # u" "plain_char x" using assms(1,2) by (cases s) auto
  then have "\<not> is_space_char x" "x \<noteq> CHR ''-''" "x \<noteq> CHR ''+''"
    using digit_not_space [of x] digit_not_sign [of x] by (auto simp: plain_char_def is_space_char_def)
  then have sp: "dropWhile is_space_char s = s" and sg: "take_sign s = (False, s)" by (simp_all add: s)
  have t: "plain_char c" if "c \<in> set (take k s)" for c k using that assms(1) in_set_takeD by fast
  have w: "map lower_char (take k s) = take k s" for k
    by (intro map_idI plain_char_lower) (rule t)
  have "take 3 s \<noteq> ''inf''" "take 3 s \<noteq> ''nan''" "take 2 s \<noteq> ''0x''"
    using t [of "CHR ''n''" 3] t [of "CHR ''x''" 2] by (auto simp: plain_char_def is_digit_char_def)
  then show ?thesis using assms(3) by (simp add: string_to_float_def magnitude_def sp sg w)
qed

lemma string_to_float_decimal:
  "string_to_float F (to_string n) =
    (let v = round_float F (of_nat n) in
     if 2 ^ ff_emax F \<le> v \<or> (v < pow2 (ff_emin F + ff_precision F - 1) \<and> v \<noteq> of_nat n)
     then Inl (Std_exception ''out_of_range'') else Inr (FNum False v))"
  by (rule string_to_float_plain) (simp_all add: plain_char_def to_string_digits to_string_not_Nil to_string_decimal)

lemma stof_example: "stof (to_string 16777217) = Inr (FNum False 16777216)" "stof (to_string 16777216) = Inr (FNum False 16777216)"
  by (simp_all add: stof_def string_to_float_decimal round_float_example round_float_limit) (simp_all add: single_format_def pow2_def)

text \<open>Whole numbers within the precision are read exactly.\<close>

lemma string_to_float_nat:
  assumes "n < 2 ^ k" "0 < k" "int k \<le> ff_precision F" "ff_emin F \<le> 0" "k \<le> ff_emax F"
  shows "string_to_float F (to_string n) = Inr (FNum False (of_nat n))"
proof -
  have "(of_nat n :: rat) < of_nat (2 ^ k)" using assms(1) of_nat_less_iff by blast
  also have "\<dots> = 2 ^ k" by simp
  also have "\<dots> \<le> 2 ^ ff_emax F" using assms(5) by (intro power_increasing) simp_all
  finally show ?thesis by (simp add: string_to_float_decimal round_float_nat [OF assms(1-4)])
qed

lemma stof_whole_number: "n < 2 ^ 24 \<Longrightarrow> stof (to_string n) = Inr (FNum False (of_nat n))"
  unfolding stof_def by (rule string_to_float_nat [where k = 24]) (simp_all add: single_format_def)

lemma stold_whole_number: "n < 2 ^ 64 \<Longrightarrow> stold (to_string n) = Inr (FNum False (of_nat n))"
  unfolding stold_def by (rule string_to_float_nat [where k = 64]) (simp_all add: extended_format_def)

text \<open>Amounts are also written with two decimals.\<close>

lemma decimal_number_hundredths: "decimal_number (to_string n @ ''.00'') = Some (of_nat n)"
proof -
  have c: "\<not> is_digit_char CHR ''.''" "is_digit_char CHR ''0''" by (simp_all add: is_digit_char_def)
  have "takeWhile is_digit_char (to_string n @ ''.00'') = to_string n" "dropWhile is_digit_char (to_string n @ ''.00'') = ''.00''"
    using takeWhile_append2 [of "to_string n" is_digit_char "''.00''"] dropWhile_append2 [of "to_string n" is_digit_char "''.00''"] c
    by (simp_all add: to_string_digits)
  then have m: "take_mantissa is_digit_char (to_string n @ ''.00'') = Some (to_string n, ''00'', [])"
    using c by (simp add: take_mantissa_def)
  have "decimal_value (to_string n @ ''00'') = 100 * n"
    using decimal_value_to_string [of n] by (simp add: decimal_value_def digit_value_def)
  then show ?thesis by (simp add: decimal_number_def m take_exponent_def power_of_def)
qed

lemma stold_hundredths:
  assumes "n < 2 ^ 64"
  shows "stold (to_string n @ ''.00'') = Inr (FNum False (of_nat n))"
proof -
  have "string_to_float extended_format (to_string n @ ''.00'') = string_to_float extended_format (to_string n)"
    unfolding string_to_float_decimal
    by (rule string_to_float_plain) (use to_string_digits [of _ n] in \<open>auto simp: plain_char_def decimal_number_hundredths is_digit_char_def\<close>)
  then show ?thesis using stold_whole_number [OF assms] by (simp add: stold_def)
qed

end
