(* ===== verification/Genesis.thy ===== *)
theory Genesis
  imports Blocks Node Float_Text
begin

text \<open>
  The parser of the genesis file, \<^verbatim>\<open>common/src/genesis.cpp\<close>. Outside the repository are the tokens and keys of the
  MILE library and the text functions of Boost: a token is named by its code, \<open>tokenizer\<close> gives the
  parts of a text between the occurrences of a separator, \<open>to_lower_copy\<close> is what it says. An exception
  anywhere makes the whole file unreadable.
\<close>

section \<open>Parsing\<close>

record 'w genesis_env = "'w node_env" +
  asset_code_NILL :: "16 word"
  value_to_string :: "16 word \<Rightarrow> float_value \<Rightarrow> string" \<comment> \<open>of the token with the given code\<close>
  ValidatePublicKey :: "string \<Rightarrow> bool"
  tokenizer :: "char \<Rightarrow> string \<Rightarrow> string list"
  to_lower_copy :: "string \<Rightarrow> string"

record genesis_line =
  gl_type :: string
  gl_asset :: "16 word"
  gl_pk :: string
  gl_amount :: string
  gl_address :: string
  gl_i :: nat

definition register_type :: string where
  "register_type = ''RegisterNodeTransactionWithAmount''"

definition transfer_type :: string where
  "transfer_type = ''TransferAssetsTransaction''"

definition new_line :: "('w, 'e) genesis_env_scheme \<Rightarrow> genesis_line" where
  "new_line E = \<lparr>gl_type = [], gl_asset = asset_code_NILL E, gl_pk = [], gl_amount = [], gl_address = [], gl_i = 0\<rparr>"

text \<open>The chain of tests on a word.\<close>

definition classify :: "('w, 'e) genesis_env_scheme \<Rightarrow> string \<Rightarrow> genesis_line \<Rightarrow> genesis_line" where
  "classify E t l =
     (let word = to_lower_copy E t in
      if word = ''transfer'' then l\<lparr>gl_type := transfer_type\<rparr>
      else if word = ''amount-register-node'' then l\<lparr>gl_type := register_type\<rparr>
      else if word = ''xdr'' then l\<lparr>gl_asset := asset_code_XDR E\<rparr>
      else if word = ''mile'' then l\<lparr>gl_asset := asset_code_MILE E\<rparr>
      else if ValidatePublicKey E t then l\<lparr>gl_pk := t\<rparr>
      else l)"

definition genesis_word :: "('w, 'e) genesis_env_scheme \<Rightarrow> string \<Rightarrow> genesis_line \<Rightarrow> genesis_line result" where
  "genesis_word E t l =
     (let l1 = classify E t l;
          l2 = (if gl_type l1 = register_type \<and> gl_i l1 = 2 then l1\<lparr>gl_address := t\<rparr> else l1)
      in bindE (if gl_i l2 = 3
                then bindE (stof t) (\<lambda>f. Inr (l2\<lparr>gl_amount := value_to_string E (gl_asset l2) f\<rparr>))
                else Inr l2)
           (\<lambda>l3. Inr (l3\<lparr>gl_i := gl_i l3 + 1\<rparr>)))"

fun genesis_words :: "('w, 'e) genesis_env_scheme \<Rightarrow> string list \<Rightarrow> genesis_line \<Rightarrow> genesis_line result" where
  "genesis_words E [] l = Inr l"
| "genesis_words E (t # ts) l = bindE (genesis_word E t l) (genesis_words E ts)"

definition genesis_trx :: "('w, 'e) genesis_env_scheme \<Rightarrow> genesis_line \<Rightarrow> uint64 \<Rightarrow> json result" where
  "genesis_trx E l trx_id =
     (if gl_type l = register_type
      then bindE (stof (gl_amount l)) (\<lambda>f. Inr (obj
        [(''address'', JStr (gl_address l)),
         (''amount'', JStr (value_to_string E (asset_code_XDR E) f)),
         (''digest'', JStr []), (''public-key'', JStr (gl_pk l)), (''signature'', JStr []),
         (''transaction-id'', JStr (to_string (unat trx_id))), (''transaction-type'', JStr (gl_type l))]))
      else if gl_type l = transfer_type
      then bindE (stof (gl_amount l)) (\<lambda>f. Inr (obj
        [(''asset'', obj [(''amount'', JStr (value_to_string E (gl_asset l) f)),
                          (''code'', JStr (to_string (unat (gl_asset l))))]),
         (''description'', JStr []), (''digest'', JStr (gl_pk l)),
         (''fee'', JStr (value_to_string E (gl_asset l) (FNum False 0))), (''public-key'', JStr (gl_pk l)),
         (''signature'', JStr []), (''transaction-id'', JStr (to_string (unat trx_id))),
         (''transaction-type'', JStr (gl_type l))]))
      else Inr JNull)"

fun genesis_lines :: "('w, 'e) genesis_env_scheme \<Rightarrow> string list \<Rightarrow> uint64 \<Rightarrow> json \<Rightarrow> json result" where
  "genesis_lines E [] trx_id g = Inr g"
| "genesis_lines E (line # lines) trx_id g =
     bindE (genesis_words E (tokenizer E CHR '' '' line) (new_line E)) (\<lambda>l.
     bindE (genesis_trx E l trx_id) (\<lambda>trx.
     bindE (jl_push_back E g trx) (\<lambda>g'.
     genesis_lines E lines (trx_id + 1) g')))"

definition genesis_parser :: "('w, 'e) genesis_env_scheme \<Rightarrow> string \<Rightarrow> json option" where
  "genesis_parser E buffer =
     (case genesis_lines E (tokenizer E (CHR 0x0A) buffer) 0 JNull of Inl e \<Rightarrow> None | Inr g \<Rightarrow> Some g)"

section \<open>What a line says\<close>

text \<open>
  The meaning of a line, read off its words without the loop of the parser: the last word that names a type, the last that
  names an asset, the last public key. The fourth word is the amount, printed for the asset named up to there.
\<close>

definition last_word :: "(string \<Rightarrow> bool) \<Rightarrow> string list \<Rightarrow> string option" where
  "last_word P ws = (case rev (filter P ws) of [] \<Rightarrow> None | t # _ \<Rightarrow> Some t)"

definition type_word :: "('w, 'e) genesis_env_scheme \<Rightarrow> string \<Rightarrow> bool" where
  "type_word E t \<longleftrightarrow> to_lower_copy E t \<in> {''transfer'', ''amount-register-node''}"

definition asset_word :: "('w, 'e) genesis_env_scheme \<Rightarrow> string \<Rightarrow> bool" where
  "asset_word E t \<longleftrightarrow> to_lower_copy E t \<in> {''xdr'', ''mile''}"

definition key_word :: "('w, 'e) genesis_env_scheme \<Rightarrow> string \<Rightarrow> bool" where
  "key_word E t \<longleftrightarrow> \<not> type_word E t \<and> \<not> asset_word E t \<and> ValidatePublicKey E t"

definition line_type :: "('w, 'e) genesis_env_scheme \<Rightarrow> string list \<Rightarrow> string option" where
  "line_type E ws =
     map_option (\<lambda>t. if to_lower_copy E t = ''transfer'' then transfer_type else register_type) (last_word (type_word E) ws)"

definition line_asset :: "('w, 'e) genesis_env_scheme \<Rightarrow> string list \<Rightarrow> 16 word" where
  "line_asset E ws =
     (case last_word (asset_word E) ws of None \<Rightarrow> asset_code_NILL E
      | Some t \<Rightarrow> if to_lower_copy E t = ''xdr'' then asset_code_XDR E else asset_code_MILE E)"

definition line_key :: "('w, 'e) genesis_env_scheme \<Rightarrow> string list \<Rightarrow> string" where
  "line_key E ws = (case last_word (key_word E) ws of None \<Rightarrow> [] | Some t \<Rightarrow> t)"

definition line_address :: "('w, 'e) genesis_env_scheme \<Rightarrow> string list \<Rightarrow> string" where
  "line_address E ws = (if 3 \<le> length ws \<and> line_type E (take 3 ws) = Some register_type then ws ! 2 else [])"

definition line_amount :: "('w, 'e) genesis_env_scheme \<Rightarrow> string list \<Rightarrow> string" where
  "line_amount E ws =
     (if length ws < 4 then [] else
      case stof (ws ! 3) of Inr f \<Rightarrow> value_to_string E (line_asset E (take 4 ws)) f | Inl _ \<Rightarrow> [])"

definition line_of :: "('w, 'e) genesis_env_scheme \<Rightarrow> string list \<Rightarrow> genesis_line" where
  "line_of E ws = \<lparr>gl_type = (case line_type E ws of None \<Rightarrow> [] | Some ty \<Rightarrow> ty), gl_asset = line_asset E ws,
     gl_pk = line_key E ws, gl_amount = line_amount E ws, gl_address = line_address E ws, gl_i = length ws\<rparr>"

lemma last_word_snoc: "last_word P (ws @ [t]) = (if P t then Some t else last_word P ws)"
  by (simp add: last_word_def)

lemma last_word_Nil [simp]: "last_word P [] = None"
  by (simp add: last_word_def)

lemma genesis_words_snoc: "genesis_words E (ws @ [t]) l = bindE (genesis_words E ws l) (genesis_word E t)"
  by (induction ws arbitrary: l) (simp_all add: bindE_def split: sum.split)

lemma classify_line_of:
  "classify E t (line_of E ws) = (line_of E ws)\<lparr>gl_type := (case line_type E (ws @ [t]) of None \<Rightarrow> [] | Some ty \<Rightarrow> ty),
     gl_asset := line_asset E (ws @ [t]), gl_pk := line_key E (ws @ [t])\<rparr>"
  by (auto simp: classify_def line_of_def line_type_def line_asset_def line_key_def last_word_snoc type_word_def asset_word_def
      key_word_def Let_def)

lemma type_name_register: "(case ty of None \<Rightarrow> [] | Some x \<Rightarrow> x) = register_type \<longleftrightarrow> ty = Some register_type"
  by (cases ty) (auto simp: register_type_def)

lemma line_address_snoc:
  "line_address E (ws @ [t]) =
     (if line_type E (ws @ [t]) = Some register_type \<and> length ws = 2 then t else line_address E ws)"
proof (cases "length ws" "2 :: nat" rule: linorder_cases)
  case equal
  then show ?thesis by (simp add: line_address_def nth_append)
qed (simp_all add: line_address_def nth_append)

lemma line_amount_snoc:
  "line_amount E (ws @ [t]) =
     (if length ws = 3 then (case stof t of Inr f \<Rightarrow> value_to_string E (line_asset E (ws @ [t])) f | Inl _ \<Rightarrow> []) else line_amount E ws)"
proof (cases "length ws" "3 :: nat" rule: linorder_cases)
  case equal
  then have t: "take 4 (ws @ [t]) = ws @ [t]" by simp
  show ?thesis by (simp only: line_amount_def t) (simp add: equal nth_append)
next
  case greater
  then have t: "take 4 (ws @ [t]) = take 4 ws" by simp
  show ?thesis unfolding line_amount_def t using greater by (simp add: nth_append)
qed (simp add: line_amount_def)

lemma genesis_word_line:
  "genesis_word E t (line_of E ws) =
     (if length ws = 3 then bindE (stof t) (\<lambda>_. Inr (line_of E (ws @ [t]))) else Inr (line_of E (ws @ [t])))"
proof -
  let ?l = "\<lparr>gl_type = (case line_type E (ws @ [t]) of None \<Rightarrow> [] | Some ty \<Rightarrow> ty), gl_asset = line_asset E (ws @ [t]),
      gl_pk = line_key E (ws @ [t]), gl_amount = line_amount E ws, gl_address = line_address E (ws @ [t]), gl_i = length ws\<rparr>"
  have "(let l1 = classify E t (line_of E ws) in if gl_type l1 = register_type \<and> gl_i l1 = 2 then l1\<lparr>gl_address := t\<rparr> else l1) = ?l"
    unfolding classify_line_of Let_def by (auto simp: line_of_def line_address_snoc type_name_register)
  then have "genesis_word E t (line_of E ws) =
      bindE (if length ws = 3 then bindE (stof t) (\<lambda>f. Inr (?l\<lparr>gl_amount := value_to_string E (line_asset E (ws @ [t])) f\<rparr>)) else Inr ?l)
        (\<lambda>l3. Inr (l3\<lparr>gl_i := gl_i l3 + 1\<rparr>))"
    unfolding genesis_word_def Let_def by simp
  then show ?thesis by (cases "stof t") (simp_all add: line_of_def line_amount_snoc)
qed

text \<open>The loop over the words raises exactly if the fourth word is no number, and otherwise reads the line as it is meant.\<close>

lemma genesis_words_value:
  "genesis_words E ws (new_line E) =
     (case (if length ws < 4 then Inr FNan else stof (ws ! 3)) of Inl e \<Rightarrow> Inl e | Inr _ \<Rightarrow> Inr (line_of E ws))"
proof (induction ws rule: rev_induct)
  case Nil
  show ?case
    by (simp add: line_of_def new_line_def line_type_def line_asset_def line_key_def line_amount_def line_address_def)
next
  case (snoc t ws)
  show ?case
  proof (cases "length ws < 4")
    case True
    then have "genesis_words E (ws @ [t]) (new_line E) = genesis_word E t (line_of E ws)"
      by (simp add: genesis_words_snoc snoc.IH)
    with True show ?thesis by (cases "stof t") (auto simp: genesis_word_line nth_append)
  next
    case False
    then show ?thesis
      by (cases "stof (ws ! 3)") (simp_all add: genesis_words_snoc snoc.IH nth_append genesis_word_line)
  qed
qed

text \<open>Readable lines, and the entry of the line \<open>k\<close>.\<close>

definition readable_line :: "('w, 'e) genesis_env_scheme \<Rightarrow> string list \<Rightarrow> bool" where
  "readable_line E ws \<longleftrightarrow> (4 \<le> length ws \<longrightarrow> (\<exists>f. stof (ws ! 3) = Inr f))
     \<and> (line_type E ws \<noteq> None \<longrightarrow> (\<exists>f. stof (line_amount E ws) = Inr f))"

definition line_entry :: "('w, 'e) genesis_env_scheme \<Rightarrow> nat \<Rightarrow> string list \<Rightarrow> json \<Rightarrow> bool" where
  "line_entry E k ws trx \<longleftrightarrow>
     (case line_type E ws of None \<Rightarrow> trx = JNull
      | Some ty \<Rightarrow> (\<exists>f. stof (line_amount E ws) = Inr f
          \<and> field trx ''transaction-id'' = Some (JStr (to_string k)) \<and> field trx ''transaction-type'' = Some (JStr ty)
          \<and> field trx ''public-key'' = Some (JStr (line_key E ws))
          \<and> (if ty = transfer_type
             then field trx ''asset'' = Some (obj [(''amount'', JStr (value_to_string E (line_asset E ws) f)),
                                                   (''code'', JStr (to_string (unat (line_asset E ws))))])
             else field trx ''amount'' = Some (JStr (value_to_string E (asset_code_XDR E) f))
               \<and> field trx ''address'' = Some (JStr (line_address E ws)))))"

lemma line_type_cases: "line_type E ws \<in> {None, Some transfer_type, Some register_type}"
  by (auto simp: line_type_def)

lemma genesis_trx_value:
  "case genesis_trx E (line_of E ws) n of
     Inl e \<Rightarrow> line_type E ws \<noteq> None \<and> (\<exists>e. stof (line_amount E ws) = Inl e)
   | Inr trx \<Rightarrow> (line_type E ws \<noteq> None \<longrightarrow> (\<exists>f. stof (line_amount E ws) = Inr f)) \<and> line_entry E (unat n) ws trx"
proof -
  have d: "register_type \<noteq> transfer_type" "[] \<noteq> register_type" "[] \<noteq> transfer_type"
    by (simp_all add: register_type_def transfer_type_def)
  from line_type_cases [of E ws] d show ?thesis
    by (cases "stof (line_amount E ws)")
      (auto simp: genesis_trx_def line_of_def line_entry_def obj_def)
qed

lemma line_result:
  "case bindE (genesis_words E ws (new_line E)) (\<lambda>l. genesis_trx E l n) of
     Inl e \<Rightarrow> \<not> readable_line E ws | Inr trx \<Rightarrow> readable_line E ws \<and> line_entry E (unat n) ws trx"
  using genesis_trx_value [of E ws n]
  by (cases "length ws < 4"; cases "stof (ws ! 3)"; cases "genesis_trx E (line_of E ws) n")
    (auto simp: genesis_words_value readable_line_def)

section \<open>Numbering\<close>

abbreviation genesis_split :: "('w, 'e) genesis_env_scheme \<Rightarrow> string \<Rightarrow> string list" where
  "genesis_split E line \<equiv> tokenizer E CHR '' '' line"

lemma genesis_lines_value:
  assumes "nlohmann_json E" "g = JNull \<and> xs = [] \<or> g = JArr xs" "n + length ls < 2 ^ 64"
  shows "case genesis_lines E ls (of_nat n) g of
      Inl e \<Rightarrow> \<exists>line \<in> set ls. \<not> readable_line E (genesis_split E line)
    | Inr g' \<Rightarrow> (\<forall>line \<in> set ls. readable_line E (genesis_split E line))
        \<and> (\<exists>ys. items g' = xs @ ys \<and> length ys = length ls \<and> (\<forall>k < length ls. line_entry E (n + k) (genesis_split E (ls ! k)) (ys ! k)))"
  using assms(2,3)
proof (induction ls arbitrary: n g xs)
  case Nil
  then show ?case by auto
next
  case (Cons line ls)
  have n: "unat (of_nat n :: uint64) = n" "(of_nat n + 1 :: uint64) = of_nat (Suc n)"
    using Cons.prems(2) by (simp_all add: unsigned_of_nat take_bit_nat_eq_self)
  let ?line = "bindE (genesis_words E (genesis_split E line) (new_line E)) (\<lambda>l. genesis_trx E l (of_nat n))"
  have run: "genesis_lines E (line # ls) (of_nat n) g =
      bindE ?line (\<lambda>trx. bindE (jl_push_back E g trx) (\<lambda>g'. genesis_lines E ls (of_nat (Suc n)) g'))"
    unfolding n(2) [symmetric] by (simp add: bindE_def split: sum.split)
  note res = line_result [of E "genesis_split E line" "of_nat n", unfolded n(1)]
  show ?case
  proof (cases ?line)
    case (Inl e)
    with run res show ?thesis by simp
  next
    case (Inr trx)
    have p: "jl_push_back E g trx = Inr (JArr (xs @ [trx]))"
      using Cons.prems(1) nlohmann_json.push_back_array [OF assms(1)] nlohmann_json.push_back_null [OF assms(1)] by auto
    have "Suc n + length ls < 2 ^ 64" using Cons.prems(2) by simp
    note IH = Cons.IH [of "JArr (xs @ [trx])" "xs @ [trx]" "Suc n", OF _ this]
    have e: "genesis_lines E (line # ls) (of_nat n) g = genesis_lines E ls (of_nat (Suc n)) (JArr (xs @ [trx]))"
      unfolding run Inr using p by simp
    have r: "readable_line E (genesis_split E line)" "line_entry E n (genesis_split E line) trx" using res Inr by simp_all
    show ?thesis
    proof (cases "genesis_lines E ls (of_nat (Suc n)) (JArr (xs @ [trx]))")
      case (Inl x)
      with IH e show ?thesis by auto
    next
      case (Inr g')
      with IH obtain ys where ys: "\<forall>line \<in> set ls. readable_line E (genesis_split E line)" "items g' = xs @ trx # ys"
        "length ys = length ls" "\<forall>k < length ls. line_entry E (Suc n + k) (genesis_split E (ls ! k)) (ys ! k)" by auto
      have "line_entry E (n + k) (genesis_split E ((line # ls) ! k)) ((trx # ys) ! k)" if "k < length (line # ls)" for k
        using that ys(4) r(2) by (cases k) auto
      with ys r(1) e Inr show ?thesis by (auto intro!: exI [of _ "trx # ys"])
    qed
  qed
qed

lemma genesis_parser_value:
  assumes "nlohmann_json E" and "length (tokenizer E (CHR 0x0A) buffer) < 2 ^ 64" and "ls = tokenizer E (CHR 0x0A) buffer"
  shows "case genesis_parser E buffer of
      None \<Rightarrow> \<exists>line \<in> set ls. \<not> readable_line E (genesis_split E line)
    | Some g \<Rightarrow> (\<forall>line \<in> set ls. readable_line E (genesis_split E line)) \<and> length (items g) = length ls
        \<and> (\<forall>k < length ls. line_entry E k (genesis_split E (ls ! k)) (items g ! k))"
  using genesis_lines_value [OF assms(1), of JNull "[]" 0 ls] assms(2,3)
  by (cases "genesis_lines E ls 0 JNull") (auto simp: genesis_parser_def)

text \<open>
  (C15) The parser reads a genesis file exactly if every line is readable: its fourth word, if it has one, is a number, and if it
  names a type, the amount printed for that word is one too. The result then has one entry per line, in the order of the lines. A line
  without a word that names a type leaves a null. The entry of any other line \<open>k\<close> carries the number \<open>k\<close>, the type named last, the
  last public key of the line, and its amount with, for a transfer, the code of the asset named last, for a registration, the address.
\<close>

theorem genesis_parser_numbers:
  assumes "nlohmann_json E" and "ls = tokenizer E (CHR 0x0A) buffer" and "length ls < 2 ^ 64"
  shows "case genesis_parser E buffer of
      None \<Rightarrow> \<exists>line \<in> set ls. \<not> readable_line E (genesis_split E line)
    | Some g \<Rightarrow> (\<forall>line \<in> set ls. readable_line E (genesis_split E line)) \<and> length (items g) = length ls
        \<and> (\<forall>k < length ls. line_entry E k (genesis_split E (ls ! k)) (items g ! k))"
  using genesis_parser_value [OF assms(1) _ assms(2)] assms(2,3) by simp

section \<open>Amounts\<close>

text \<open>A token prints a whole number of a size that fits a single precision number as a text that denotes it.\<close>

definition prints_whole :: "('w, 'e) genesis_env_scheme \<Rightarrow> 16 word \<Rightarrow> bool" where
  "prints_whole E c \<longleftrightarrow> (\<forall>n \<le> 2 ^ 24. stof (value_to_string E c (FNum False (of_nat n))) = Inr (FNum False (of_nat n)))"

text \<open>
  (C23) The amount of a transfer in a genesis file goes twice through a single precision number. On a line whose asset is named no later than its amount, a whole amount
  below \<open>2 ^ 24\<close> is the amount of the transaction in the result, as the token prints it, and \<open>16777217\<close> becomes \<open>16777216\<close> there. Provided the
  token prints whole numbers as texts that denote them.
\<close>

theorem genesis_amount_precision:
  assumes "nlohmann_json E" and "ls = tokenizer E (CHR 0x0A) buffer" and "length ls < 2 ^ 64"
    and "genesis_parser E buffer = Some g" and "k < length ls" and "ws = genesis_split E (ls ! k)"
    and "line_type E ws = Some transfer_type" and "4 \<le> length ws" and "ws ! 3 = to_string n" and "n < 2 ^ 24 \<or> n = 16777217"
    and "c = line_asset E ws" and "line_asset E (take 4 ws) = c" and "prints_whole E c"
  shows "\<exists>asset. field (items g ! k) ''asset'' = Some asset
    \<and> field asset ''amount'' = Some (JStr (value_to_string E c (FNum False (if n = 16777217 then 16777216 else of_nat n))))"
proof -
  let ?m = "if n = 16777217 then 16777216 else n"
  have s: "stof (to_string n) = Inr (FNum False (of_nat ?m))" using assms(10) stof_whole_number [of n] stof_example(1) by auto
  then have a: "line_amount E ws = value_to_string E c (FNum False (of_nat ?m))"
    using assms(8,9,12) by (simp add: line_amount_def)
  have "?m \<le> 2 ^ 24" using assms(10) by auto
  then have f: "stof (line_amount E ws) = Inr (FNum False (of_nat ?m))" using assms(13) a by (simp only: prints_whole_def)
  have "line_entry E k ws (items g ! k)"
    using genesis_parser_value [OF assms(1) _ assms(2)] assms(2-6) by simp
  with assms(7,11) f have "field (items g ! k) ''asset'' = Some (obj [(''amount'', JStr (value_to_string E c (FNum False (of_nat ?m)))),
      (''code'', JStr (to_string (unat c)))])"
    by (simp add: line_entry_def)
  then show ?thesis by (auto simp: obj_def)
qed

section \<open>A genesis file\<close>

text \<open>Boost's functions on texts without a separator at the ends.\<close>

fun split_on :: "char \<Rightarrow> string \<Rightarrow> string \<Rightarrow> string list" where
  "split_on c acc [] = (if acc = [] then [] else [rev acc])"
| "split_on c acc (x # s) =
     (if x = c then (if acc = [] then [] else [rev acc]) @ split_on c [] s else split_on c (x # acc) s)"

definition sample_genesis_env :: "refdb genesis_env" where
  "sample_genesis_env = node_env.extend sample_node_env
     (genesis_env.fields 65535 (\<lambda>c f. case f of FNum s r \<Rightarrow> to_string (nat \<lfloor>r\<rfloor>) | _ \<Rightarrow> [])
       (\<lambda>s. s = ''key'') (\<lambda>c. split_on c []) (map lower_char))"

lemma node_env_extend_fields [simp]:
  "jl_what (node_env.extend E m) = jl_what E" "jl_at (node_env.extend E m) = jl_at E"
  "jl_index (node_env.extend E m) = jl_index E" "jl_set (node_env.extend E m) = jl_set E"
  "jl_erase (node_env.extend E m) = jl_erase E" "jl_push_back (node_env.extend E m) = jl_push_back E"
  "jl_get_string (node_env.extend E m) = jl_get_string E" "jl_get_u64 (node_env.extend E m) = jl_get_u64 E"
  "jl_get_time (node_env.extend E m) = jl_get_time E" "jl_parse (node_env.extend E m) = jl_parse E"
  "jl_dump (node_env.extend E m) = jl_dump E" "UInt256ToDecString (node_env.extend E m) = UInt256ToDecString E"
  "reql_run (node_env.extend E m) = reql_run E" "clock (node_env.extend E m) = clock E"
  by (simp_all add: node_env.defs)

lemma explorer_node_env_extend: "explorer_env E dbn rows \<Longrightarrow> explorer_env (node_env.extend E m) dbn rows"
  unfolding explorer_env_def nlohmann_json_def reql_server_def explorer_env_axioms_def by simp

lemma sample_genesis_explorer: "explorer_env sample_genesis_env (db_name sample_db) ref_rows"
  unfolding sample_genesis_env_def by (rule explorer_node_env_extend [OF sample_node_explorer])

lemma sample_genesis_json: "nlohmann_json sample_genesis_env"
  by (rule explorer_env.axioms(1) [OF sample_genesis_explorer])

lemma sample_genesis_env_simps [simp]:
  "asset_code_NILL sample_genesis_env = 65535" "ValidatePublicKey sample_genesis_env s \<longleftrightarrow> s = ''key''"
  "value_to_string sample_genesis_env c f = (case f of FNum s r \<Rightarrow> to_string (nat \<lfloor>r\<rfloor>) | _ \<Rightarrow> [])"
  "tokenizer sample_genesis_env x s = split_on x [] s" "to_lower_copy sample_genesis_env s = map lower_char s"
  by (simp_all add: sample_genesis_env_def node_env.defs genesis_env.defs)

lemma sample_genesis_tokens: "tokenizer sample_genesis_env (CHR 0x0A) sample_genesis = [''genesis'', ''Transfer key XDR 12'']"
  by (simp add: sample_genesis_def)

lemma sample_genesis_lines:
  "genesis_split sample_genesis_env ''genesis'' = [''genesis'']"
  "genesis_split sample_genesis_env ''Transfer key XDR 12'' = [''Transfer'', ''key'', ''XDR'', ''12'']"
  by simp_all

lemma sample_prints: "prints_whole sample_genesis_env c"
proof -
  have "stof (to_string n) = Inr (FNum False (of_nat n))" if "n \<le> 2 ^ 24" for n
  proof (cases "n = 16777216")
    case True
    then show ?thesis using stof_example(2) by simp
  next
    case False
    then show ?thesis using that by (intro stof_whole_number) simp
  qed
  then show ?thesis by (simp add: prints_whole_def)
qed

lemma sample_genesis_types:
  "line_type sample_genesis_env [''genesis''] = None"
  "line_type sample_genesis_env [''Transfer'', ''key'', ''XDR'', ''12''] = Some transfer_type"
  "line_asset sample_genesis_env [''Transfer'', ''key'', ''XDR'', ''12''] = asset_code_XDR sample_genesis_env"
  by (simp_all add: line_type_def line_asset_def last_word_def type_word_def asset_word_def lower_char_def char_of_def bit_Suc_0_iff)

lemma sample_genesis_readable: "\<forall>line \<in> set [''genesis'', ''Transfer key XDR 12'']. readable_line sample_genesis_env (genesis_split sample_genesis_env line)"
proof -
  let ?ws = "[''Transfer'', ''key'', ''XDR'', ''12'']"
  have n: "''12'' = to_string 12" by code_simp
  have f: "stof ''12'' = Inr (FNum False 12)" unfolding n using stof_whole_number [of 12] by simp
  have "\<lfloor>12 :: rat\<rfloor> = 12" by simp
  then have "line_amount sample_genesis_env ?ws = ''12''" using f n by (simp add: line_amount_def)
  with f sample_genesis_types show ?thesis
    unfolding sample_genesis_lines by (simp add: sample_genesis_lines readable_line_def)
qed

lemma sample_genesis_parsed:
  "\<exists>g. genesis_parser sample_genesis_env sample_genesis = Some g \<and> length (items g) = 2"
  using genesis_parser_value [OF sample_genesis_json, of sample_genesis] sample_genesis_readable
  unfolding sample_genesis_tokens by (auto split: option.splits)

theorem genesis_parser_numbers_witness:
  "\<exists>g. genesis_parser sample_genesis_env sample_genesis = Some g \<and> items g ! 0 = JNull
    \<and> field (items g ! 1) ''transaction-id'' = Some (JStr (to_string 1))"
proof -
  obtain g where g: "genesis_parser sample_genesis_env sample_genesis = Some g" using sample_genesis_parsed by blast
  let ?ls = "[''genesis'', ''Transfer key XDR 12'']"
  have e: "line_entry sample_genesis_env k (genesis_split sample_genesis_env (?ls ! k)) (items g ! k)" if "k < 2" for k
    using genesis_parser_numbers [OF sample_genesis_json sample_genesis_tokens [symmetric]] g that by (simp only: option.case) simp
  from e [of 0] e [of 1] g show ?thesis
    by (auto simp: line_entry_def sample_genesis_types)
qed

theorem genesis_amount_precision_witness:
  "\<exists>g asset. genesis_parser sample_genesis_env sample_genesis = Some g \<and> field (items g ! 1) ''asset'' = Some asset
    \<and> field asset ''amount'' = Some (JStr (to_string 12))"
proof -
  let ?ws = "[''Transfer'', ''key'', ''XDR'', ''12'']"
  obtain g where g: "genesis_parser sample_genesis_env sample_genesis = Some g" using sample_genesis_parsed by blast
  have n: "?ws ! 3 = to_string 12" by code_simp
  have t: "length [''genesis'', ''Transfer key XDR 12''] < 2 ^ 64" "1 < length [''genesis'', ''Transfer key XDR 12'']"
    "?ws = genesis_split sample_genesis_env ([''genesis'', ''Transfer key XDR 12''] ! 1)" "4 \<le> length ?ws"
    "(12 :: nat) < 2 ^ 24 \<or> (12 :: nat) = 16777217" "line_asset sample_genesis_env (take 4 ?ws) = line_asset sample_genesis_env ?ws"
    by simp_all
  have "\<lfloor>12 :: rat\<rfloor> = 12" by simp
  with genesis_amount_precision [OF sample_genesis_json sample_genesis_tokens [symmetric] t(1) g t(2,3) sample_genesis_types(2) t(4) n t(5) refl t(6)
      sample_prints] g
  show ?thesis by auto
qed

section \<open>Fetching the genesis file\<close>

text \<open>
  One round of \<open>fetch_genesis\<close>, \<^verbatim>\<open>common/src/fetcher.cpp\<close>. Without a client the round starts again, an
  exception too; a missing body ends the loop without an update. An unreadable file leaves the
  optional unset, and the code reads the transactions of it all the same: \<open>unset\<close> is what that read
  gives, about which nothing is known.
\<close>

definition genesis_attempt ::
  "('w, 'e) genesis_env_scheme \<Rightarrow> ('w pstate, json) prog \<Rightarrow> db \<Rightarrow> string \<Rightarrow> ('w pstate, unit option) prog" where
  "genesis_attempt E unset d url =
     catchP
       (bindP (on_db (http_get E url)) (\<lambda>client.
        case client of None \<Rightarrow> ret None
        | Some None \<Rightarrow> ret (Some ())
        | Some (Some body) \<Rightarrow>
            bindP (case genesis_parser E body of Some g \<Rightarrow> ret g | None \<Rightarrow> unset) (\<lambda>transactions.
            bindP (update_genesis E d transactions) (\<lambda>_. ret (Some ())))))
       (\<lambda>_. ret None)"

definition fetch_genesis ::
  "('w, 'e) genesis_env_scheme \<Rightarrow> ('w pstate, json) prog \<Rightarrow> db \<Rightarrow> string \<Rightarrow> nat \<Rightarrow> ('w pstate, unit option) prog" where
  "fetch_genesis E unset d url n = retryP n (genesis_attempt E unset d url)"

lemma genesis_items_null:
  assumes "nlohmann_json E" "JNull \<in> set xs"
  shows "raises (genesis_items E d xs n)"
  using assms(2)
proof (induction xs arbitrary: n)
  case Nil
  then show ?case by simp
next
  case (Cons x xs)
  show ?case
  proof (cases "x = JNull")
    case True
    have "jl_index E JNull ''public-key'' = Inr JNull"
      using nlohmann_json.index_missing [OF assms(1)] by simp
    then have n: "bindE (jl_index E x ''public-key'') (jl_get_string E) = Inl (Json_type_error (jl_what E 302 ''string''))"
      using nlohmann_json.get_string_other [OF assms(1), of JNull] by (simp add: True)
    show ?thesis
      unfolding genesis_items.simps n by (rule raises_bindP, rule raises_bindP_first, rule raises_lift)
  next
    case False
    with Cons have "raises (genesis_items E d xs (n + 1))" by simp
    then show ?thesis by (simp add: raises_bindP)
  qed
qed

text \<open>
  (C24) The genesis task never ends while the server keeps sending a file of readable lines one of which names no transaction type, for example a
  comment of up to three words: the parser leaves a null for such a line, \<open>update_genesis\<close> raises on it, and the round starts
  again, for any number of rounds. (With a line that is not readable the parser fails instead.)
\<close>

theorem fetch_genesis_stuck:
  assumes "nlohmann_json E" and "ls = tokenizer E (CHR 0x0A) body" and "length ls < 2 ^ 64"
    and "\<forall>line \<in> set ls. readable_line E (genesis_split E line)"
    and "\<exists>line \<in> set ls. line_type E (genesis_split E line) = None"
    and "\<And>w. \<exists>w'. http_get E url w = (Inr (Some (Some body)), w')"
  shows "\<exists>s'. fetch_genesis E unset d url n s = (Inr None, s')"
proof -
  obtain g where g: "genesis_parser E body = Some g" "length (items g) = length ls"
    "\<forall>k < length ls. line_entry E k (genesis_split E (ls ! k)) (items g ! k)"
    using genesis_parser_value [OF assms(1) _ assms(2)] assms(2-4) by (cases "genesis_parser E body") auto
  from assms(5) obtain k where "k < length ls" "line_type E (genesis_split E (ls ! k)) = None" by (auto simp: in_set_conv_nth)
  with g(2,3) have null: "JNull \<in> set (items g)" by (force simp: line_entry_def in_set_conv_nth)
  have r: "raises (update_genesis E d g)"
    unfolding update_genesis_def by (intro raises_bindP_first genesis_items_null assms(1) null)
  have a: "\<exists>s'. genesis_attempt E unset d url s = (Inr None, s')" for s
  proof -
    obtain w' where "http_get E url (ps_world s) = (Inr (Some (Some body)), w')" using assms(6) by blast
    moreover obtain e s' where "update_genesis E d g (s\<lparr>ps_world := w'\<rparr>) = (Inl e, s')"
      using r unfolding raises_def by blast
    ultimately show ?thesis by (simp add: genesis_attempt_def on_db_def bindP_def catchP_def g(1))
  qed
  show ?thesis
    unfolding fetch_genesis_def
  proof (induction n arbitrary: s)
    case 0
    then show ?case by simp
  next
    case (Suc n)
    from a [of s] obtain s1 where "genesis_attempt E unset d url s = (Inr None, s1)" by blast
    with Suc.IH [of s1] show ?case by (simp add: bindP_def)
  qed
qed

theorem fetch_genesis_stuck_witness:
  "\<exists>s'. fetch_genesis sample_genesis_env (ret JNull) sample_db ''url'' 5 sample_bstate = (Inr None, s')"
proof -
  have "\<exists>w'. http_get sample_genesis_env ''url'' w = (Inr (Some (Some sample_genesis)), w')" for w
    by (simp add: sample_genesis_env_def node_env.defs)
  moreover have "\<exists>line \<in> set [''genesis'', ''Transfer key XDR 12'']. line_type sample_genesis_env (genesis_split sample_genesis_env line) = None"
    using sample_genesis_types(1) by simp
  ultimately show ?thesis
    using fetch_genesis_stuck [OF sample_genesis_json sample_genesis_tokens [symmetric] _ sample_genesis_readable] by simp
qed

end
