(* ===== verification/Programs.thy ===== *)
theory Programs
  imports Server Fetcher Genesis
begin

text \<open>
  The two programs up to the point where their loops run: \<^verbatim>\<open>backend/main.cpp\<close> and \<^verbatim>\<open>indexer/main.cpp\<close>. The
  option parser, the YAML reader and the file test are libraries: a loaded file is a value of a type
  \<open>'y\<close>, and reading a key of it with a type is a function that may raise. The level of the
  logger and the debug flag of the client are read and dropped.
\<close>

section \<open>Starting\<close>

record 'y cmd_lib =
  cl_parse :: "string list \<Rightarrow> (bool \<times> string) result" \<comment> \<open>is \<^verbatim>\<open>help\<close> there, and the \<^verbatim>\<open>config\<close> option, empty if it is not\<close>
  cl_readable :: "string \<Rightarrow> bool" \<comment> \<open>\<^verbatim>\<open>access(file, R_OK) == 0\<close>\<close>
  y_load :: "string \<Rightarrow> 'y result"
  y_string :: "'y \<Rightarrow> string \<Rightarrow> string result"
  y_u16 :: "'y \<Rightarrow> string \<Rightarrow> 16 word result"
  y_int :: "'y \<Rightarrow> string \<Rightarrow> int result"
  y_time :: "'y \<Rightarrow> string \<Rightarrow> time_t result"
  y_bool :: "'y \<Rightarrow> string \<Rightarrow> bool result"
  y_size :: "'y \<Rightarrow> string \<Rightarrow> nat result" \<comment> \<open>of a sequence\<close>
  y_item :: "'y \<Rightarrow> string \<Rightarrow> nat \<Rightarrow> string result"

text \<open>How a program leaves \<^verbatim>\<open>main\<close> early: it returns, calls \<^verbatim>\<open>exit\<close>, or does something undefined.\<close>

datatype stop = Returned int | Exited int | Undefined

text \<open>
  The common part of the two \<^verbatim>\<open>parse_cmdline\<close>: \<open>read\<close> stands for the assignments to the configuration. What was
  assigned before an exception stays.
\<close>

definition parse_cmdline ::
  "'y cmd_lib \<Rightarrow> ('y \<Rightarrow> (config, unit) prog) \<Rightarrow> string list \<Rightarrow> config \<Rightarrow> stop + bool \<times> config" where
  "parse_cmdline C read av cfg =
     (case cl_parse C av of Inl e \<Rightarrow> Inr (False, cfg)
      | Inr (help, file) \<Rightarrow>
          if help then Inl (Exited 0)
          else if file = [] then Inl (Exited (-1))
          else if \<not> cl_readable C file then Inl (Exited (-1))
          else case y_load C file of Inl e \<Rightarrow> Inr (False, cfg)
          | Inr nodes \<Rightarrow>
              (case read nodes cfg of (Inl e, cfg') \<Rightarrow> Inr (False, cfg') | (Inr _, cfg') \<Rightarrow> Inr (True, cfg')))"

definition assign_key :: "'a result \<Rightarrow> ('a \<Rightarrow> config \<Rightarrow> config) \<Rightarrow> (config, unit) prog" where
  "assign_key r upd = bindP (lift r) (\<lambda>x. modifyP (upd x))"

definition read_backend :: "'y cmd_lib \<Rightarrow> 'y \<Rightarrow> (config, unit) prog" where
  "read_backend C y =
     bindP (assign_key (y_string C y ''db_host'') (\<lambda>x c. c\<lparr>db_host := x\<rparr>)) (\<lambda>_.
     bindP (assign_key (y_u16 C y ''db_port'') (\<lambda>x c. c\<lparr>db_port := x\<rparr>)) (\<lambda>_.
     bindP (assign_key (y_string C y ''db_name'') (\<lambda>x c. c\<lparr>cfg_db_name := x\<rparr>)) (\<lambda>_.
     bindP (assign_key (y_string C y ''http_bind_address'') (\<lambda>x c. c\<lparr>http_bind_address := x\<rparr>)) (\<lambda>_.
     bindP (assign_key (y_u16 C y ''http_port'') (\<lambda>x c. c\<lparr>http_port := x\<rparr>)) (\<lambda>_.
     bindP (assign_key (y_int C y ''rpc_pool_size'') (\<lambda>x c. c\<lparr>rpc_pool_size := x\<rparr>)) (\<lambda>_.
     bindP (lift (y_bool C y ''json_rpc_debug'')) (\<lambda>_.
     bindP (lift (y_int C y ''log_level'')) (\<lambda>_. ret ()))))))))"

fun read_urls :: "'y cmd_lib \<Rightarrow> 'y \<Rightarrow> nat \<Rightarrow> nat \<Rightarrow> (config, unit) prog" where
  "read_urls C y i 0 = ret ()"
| "read_urls C y i (Suc n) =
     bindP (assign_key (y_item C y ''node_urls'' i) (\<lambda>x c. c\<lparr>node_urls := node_urls c @ [x]\<rparr>)) (\<lambda>_. read_urls C y (Suc i) n)"

definition read_indexer :: "'y cmd_lib \<Rightarrow> 'y \<Rightarrow> (config, unit) prog" where
  "read_indexer C y =
     bindP (modifyP (\<lambda>c. c\<lparr>node_urls := []\<rparr>)) (\<lambda>_.
     bindP (lift (y_size C y ''node_urls'')) (\<lambda>n.
     bindP (read_urls C y 0 n) (\<lambda>_.
     bindP (assign_key (y_string C y ''genesis_url'') (\<lambda>x c. c\<lparr>genesis_url := x\<rparr>)) (\<lambda>_.
     bindP (assign_key (y_time C y ''request_timeout'') (\<lambda>x c. c\<lparr>request_timeout := x\<rparr>)) (\<lambda>_.
     bindP (assign_key (y_time C y ''update_timeout'') (\<lambda>x c. c\<lparr>update_timeout := x\<rparr>)) (\<lambda>_.
     bindP (assign_key (y_time C y ''rpc_connection_timeout'') (\<lambda>x c. c\<lparr>rpc_connection_timeout := x\<rparr>)) (\<lambda>_.
     bindP (assign_key (y_int C y ''rpc_queue_size'') (\<lambda>x c. c\<lparr>rpc_queue_size := x\<rparr>)) (\<lambda>_.
     bindP (assign_key (y_int C y ''block_processin_queue_size'') (\<lambda>x c. c\<lparr>block_processin_queue_size := x\<rparr>)) (\<lambda>_.
     bindP (assign_key (y_string C y ''db_host'') (\<lambda>x c. c\<lparr>db_host := x\<rparr>)) (\<lambda>_.
     bindP (assign_key (y_u16 C y ''db_port'') (\<lambda>x c. c\<lparr>db_port := x\<rparr>)) (\<lambda>_.
     bindP (assign_key (y_string C y ''db_name'') (\<lambda>x c. c\<lparr>cfg_db_name := x\<rparr>)) (\<lambda>_.
     bindP (lift (y_bool C y ''json_rpc_debug'')) (\<lambda>_.
     bindP (lift (y_int C y ''log_level'')) (\<lambda>_. ret ()))))))))))))))"

text \<open>The defaults of \<^verbatim>\<open>Db::Open\<close> are the configured values.\<close>

definition open_configured :: "('w, 'e) env_scheme \<Rightarrow> config \<Rightarrow> ('w, db option) prog" where
  "open_configured E cfg = db_open E (cfg_db_name cfg) (db_host cfg) (uint (db_port cfg))"

section \<open>The backend\<close>

text \<open>
  The result is the server at the entry of its event loop. An exception of \<^verbatim>\<open>Db::Open\<close> other than a database error leaves
  \<^verbatim>\<open>main\<close>. The server is dereferenced without a test.
\<close>

definition backend_main ::
  "'y cmd_lib \<Rightarrow> ('w, 'e) env_scheme \<Rightarrow> 'w net \<Rightarrow> string list \<Rightarrow> config \<Rightarrow> ('w, stop + 'w server) prog" where
  "backend_main C E N av cfg0 =
     (case parse_cmdline C (read_backend C) av cfg0 of
        Inl s \<Rightarrow> ret (Inl s)
      | Inr (ok, cfg) \<Rightarrow>
          if \<not> ok then ret (Inl (Returned (-1)))
          else bindP (open_configured E cfg) (\<lambda>d.
            case d of None \<Rightarrow> ret (Inl (Exited (-1)))
            | Some d \<Rightarrow> (\<lambda>w.
                case server_create N d (http_bind_address cfg) (http_port cfg) ''v1'' ''api'' w of
                  (None, w) \<Rightarrow> (Inr (Inl Undefined), w)
                | (Some server, w) \<Rightarrow>
                    (Inr (Inr (server_run (server\<lparr>sv_router := set_router (api_registry E) (server_get_router server)\<rparr>))), w))))"

section \<open>The indexer\<close>

text \<open>
  The result is the fetcher and its state when its main loop starts, at the last stored block. \<open>counter\<close> is
  what the workers started by \<open>init\<close> have left in the counter of \<open>get_rpc\<close> by then.
\<close>

definition start_fetcher ::
  "('w, 'e) node_env_scheme \<Rightarrow> config \<Rightarrow> uint64 \<Rightarrow> db \<Rightarrow> ('w, stop + fetcher \<times> 'w fstate) prog" where
  "start_fetcher E cfg counter d =
     bindP (fetcher_connect E (node_urls cfg) (update_timeout cfg) d) (\<lambda>f.
     case f of None \<Rightarrow> ret (Inl (Exited (-1)))
     | Some f \<Rightarrow>
         bindP (get_last_block_id E d) (\<lambda>b w.
         (Inr (Inr (f, fetcher_start \<lparr>rp_world = w, rp_counter = counter\<rparr> b)), w)))"

definition indexer_cmdline :: "'y cmd_lib \<Rightarrow> string list \<Rightarrow> config \<Rightarrow> stop + bool \<times> config" where
  "indexer_cmdline C = parse_cmdline C (read_indexer C)"

definition indexer_main ::
  "'y cmd_lib \<Rightarrow> ('w, 'e) node_env_scheme \<Rightarrow> 32 word \<Rightarrow> uint64 \<Rightarrow> string list \<Rightarrow> config \<Rightarrow> ('w, stop + fetcher \<times> 'w fstate) prog" where
  "indexer_main C E version counter av cfg0 =
     (case indexer_cmdline C av cfg0 of
        Inl s \<Rightarrow> ret (Inl s)
      | Inr (ok, cfg) \<Rightarrow>
          if \<not> ok then ret (Inl (Returned (-1)))
          else bindP (open_configured E cfg) (\<lambda>d.
            case d of None \<Rightarrow> ret (Inl (Exited (-1)))
            | Some d \<Rightarrow>
                bindP (db_init E version d) (\<lambda>(_, d). start_fetcher E cfg counter d)))"

section \<open>What is running then\<close>

text \<open>
  (C20) With a readable configuration, a database, an address and a socket the backend arrives at its event
  loop with a listener that accepts connections, and the router those are served with has all methods of the API.
\<close>

theorem backend_serves_api:
  assumes "parse_cmdline C (read_backend C) av cfg0 = Inr (True, cfg)"
    and "open_configured E cfg w = (Inr (Some d), w1)" and "make_address N (http_bind_address cfg) = Some a"
    and "acceptor_open N w1 = (Io_ok, w2)" and "acceptor_bind N a (http_port cfg) w2 = (Io_ok, w3)"
    and "acceptor_listen N w3 = (Io_ok, w4)"
  shows "\<exists>s. backend_main C E N av cfg0 w = (Inr (Inr s), w4) \<and> li_accepting (sv_listener s)
    \<and> sv_router s = api_router E d \<and> router_keys (sv_router s) = set api_names"
  using assms api_router_keys [of E d]
  by (simp add: backend_main_def bindP_def server_create_def new_http_listener_def server_run_def listener_run_def do_accept_def
      server_get_router_def api_router_def)

text \<open>With a text that is no address the server is not created, and the backend goes on with it.\<close>

lemma backend_bad_address:
  assumes "parse_cmdline C (read_backend C) av cfg0 = Inr (True, cfg)"
    and "open_configured E cfg w = (Inr (Some d), w1)" and "make_address N (http_bind_address cfg) = None"
  shows "backend_main C E N av cfg0 w = (Inr (Inl Undefined), w1)"
  using assms by (simp add: backend_main_def bindP_def server_create_def)

lemma fetcher_connect_value:
  assumes "fetcher_connect E urls t d w = (Inr (Some f), w')"
  shows "fc_db f = d \<and> fc_urls f = urls \<and> urls \<noteq> []"
  using assms by (cases urls) (auto simp: fetcher_connect_def bindP_def split: prod.splits sum.splits if_splits)

lemma db_open_name: "db_open E n h p w = (Inr (Some d), w') \<Longrightarrow> db_name d = n"
  by (auto simp: db_open_def catch_reql_def catchP_def bindP_def split: prod.splits sum.splits if_splits)

lemma bindP_Inr: "bindP m f s = (Inr y, s') \<Longrightarrow> \<exists>x s1. m s = (Inr x, s1) \<and> f x s1 = (Inr y, s')"
  by (auto simp: bindP_def split: prod.splits sum.splits)

lemma db_init_name: "db_init E v d w = (Inr (b, d'), w') \<Longrightarrow> db_name d' = db_name d"
  unfolding db_init_def Let_def catch_reql_def catchP_def
  by (auto split: prod.splits sum.splits if_splits dest!: bindP_Inr)

lemma start_fetcher_value:
  assumes "explorer_env E (db_name d) rows" "start_fetcher E cfg counter d w = (Inr (Inr (f, s0)), w')"
  shows "db_name (fc_db f) = db_name d \<and> fc_urls f \<noteq> [] \<and> s0 = fetcher_start \<lparr>rp_world = w', rp_counter = counter\<rparr>
    (ucast (max_index ''block-id'' (rows w' t_blocks)))"
proof -
  from bindP_Inr [OF assms(2) [unfolded start_fetcher_def]] obtain f' w1 where
    c: "fetcher_connect E (node_urls cfg) (update_timeout cfg) d w = (Inr f', w1)"
    and r: "(case f' of None \<Rightarrow> ret (Inl (Exited (-1)))
      | Some f \<Rightarrow> bindP (get_last_block_id E d) (\<lambda>b w.
          (Inr (Inr (f, fetcher_start \<lparr>rp_world = w, rp_counter = counter\<rparr> b)), w))) w1 = (Inr (Inr (f, s0)), w')"
    by blast
  from r obtain g where g: "f' = Some g" by (cases f') auto
  show ?thesis
    using r fetcher_connect_value [OF c [unfolded g]] explorer_env.get_last_block_id_value [OF assms(1) refl, of w1]
    by (auto simp: g bindP_def)
qed

lemma indexer_main_value:
  assumes "explorer_env E (cfg_db_name cfg) rows" "indexer_cmdline C av cfg0 = Inr (True, cfg)"
    and "indexer_main C E version counter av cfg0 w = (Inr (Inr (f, s0)), w')"
  shows "db_name (fc_db f) = cfg_db_name cfg \<and> fc_urls f \<noteq> [] \<and> s0 = fetcher_start \<lparr>rp_world = w', rp_counter = counter\<rparr>
    (ucast (max_index ''block-id'' (rows w' t_blocks)))"
proof -
  have "bindP (open_configured E cfg) (\<lambda>d. case d of None \<Rightarrow> ret (Inl (Exited (-1)))
      | Some d \<Rightarrow> bindP (db_init E version d) (\<lambda>(_, d). start_fetcher E cfg counter d)) w = (Inr (Inr (f, s0)), w')"
    using assms(2,3) by (simp add: indexer_main_def)
  then obtain d0 w0 where d0: "open_configured E cfg w = (Inr d0, w0)"
    and r0: "(case d0 of None \<Rightarrow> ret (Inl (Exited (-1)))
      | Some d \<Rightarrow> bindP (db_init E version d) (\<lambda>(_, d). start_fetcher E cfg counter d)) w0 = (Inr (Inr (f, s0)), w')"
    by (auto dest!: bindP_Inr)
  then obtain d where d: "d0 = Some d" by (cases d0) auto
  with r0 have "bindP (db_init E version d) (\<lambda>(_, d). start_fetcher E cfg counter d) w0 = (Inr (Inr (f, s0)), w')" by simp
  from bindP_Inr [OF this] obtain b d1 w1 where i: "db_init E version d w0 = (Inr (b, d1), w1)"
    and r1: "start_fetcher E cfg counter d1 w1 = (Inr (Inr (f, s0)), w')" by auto
  have n: "db_name d1 = cfg_db_name cfg"
    using db_init_name [OF i] db_open_name d0 d by (simp add: open_configured_def)
  with assms(1) have "explorer_env E (db_name d1) rows" by simp
  from start_fetcher_value [OF this r1] n show ?thesis by simp
qed

section \<open>Sample configuration\<close>

text \<open>A configuration file with the default values and one node.\<close>

definition sample_cmd :: "unit cmd_lib" where
  "sample_cmd = \<lparr>cl_parse = (\<lambda>_. Inr (False, ''explorer.yaml'')), cl_readable = (\<lambda>_. True), y_load = (\<lambda>_. Inr ()),
     y_string = (\<lambda>_ k. Inr (if k = ''db_name'' then ''blockchain'' else if k = ''db_host'' then ''localhost'' else ''0.0.0.0'')),
     y_u16 = (\<lambda>_ _. Inr 28015), y_int = (\<lambda>_ _. Inr 1), y_time = (\<lambda>_ _. Inr 20), y_bool = (\<lambda>_ _. Inr False),
     y_size = (\<lambda>_ _. Inr 1), y_item = (\<lambda>_ _ _. Inr ''a'')\<rparr>"

definition sample_net :: "refdb net" where
  "sample_net = \<lparr>acceptor_open = (\<lambda>w. (Io_ok, w)), acceptor_set_option = (\<lambda>w. (Io_ok, w)),
     acceptor_bind = (\<lambda>_ _ w. (Io_ok, w)), acceptor_listen = (\<lambda>w. (Io_ok, w)), make_address = Some\<rparr>"

lemmas read_config = parse_cmdline_def indexer_cmdline_def read_backend_def read_indexer_def assign_key_def sample_cmd_def bindP_def

lemma sample_backend_config: "\<exists>cfg. parse_cmdline sample_cmd (read_backend sample_cmd) av default_config = Inr (True, cfg)
    \<and> cfg_db_name cfg = ''blockchain'' \<and> http_bind_address cfg = ''0.0.0.0''"
  by (simp add: read_config)

lemma sample_open: "\<exists>d. open_configured sample_env cfg w = (Inr (Some d), w)"
  by (simp add: open_configured_def db_open_def sample_env_def ref_env_run bindP_def catch_reql_def catchP_def)

theorem backend_serves_api_witness:
  "\<exists>s. backend_main sample_cmd sample_env sample_net [] default_config (\<lambda>_. []) = (Inr (Inr s), (\<lambda>_. []))
    \<and> router_keys (sv_router s) = set api_names"
proof -
  obtain cfg where c: "parse_cmdline sample_cmd (read_backend sample_cmd) [] default_config = Inr (True, cfg)"
    using sample_backend_config by blast
  obtain d where d: "open_configured sample_env cfg (\<lambda>_. []) = (Inr (Some d), (\<lambda>_. []))" using sample_open by blast
  have "make_address sample_net (http_bind_address cfg) = Some (http_bind_address cfg)"
    "acceptor_open sample_net (\<lambda>_. []) = (Io_ok, (\<lambda>_. []))"
    "acceptor_bind sample_net (http_bind_address cfg) (http_port cfg) (\<lambda>_. []) = (Io_ok, (\<lambda>_. []))"
    "acceptor_listen sample_net (\<lambda>_. []) = (Io_ok, (\<lambda>_. []))" by (simp_all add: sample_net_def)
  from backend_serves_api [OF c d this] show ?thesis by blast
qed

lemma sample_indexer_config: "\<exists>cfg. indexer_cmdline sample_cmd av default_config = Inr (True, cfg)
    \<and> cfg_db_name cfg = ''blockchain''"
  by (simp add: read_config)

end
