(* ===== verification/Statistics.thy ===== *)
theory Statistics
  imports Db Float_Text
begin

text \<open>
  The statistics of the indexer: the interval map and the enumeration of assets of
  \<^verbatim>\<open>indexer/statistics/utils.hpp\<close>, the two turnover methods (\<^verbatim>\<open>turnover_24.cpp\<close>, \<^verbatim>\<open>turnover_trx.cpp\<close>), and the round
  of \<^verbatim>\<open>Db::init\<close> that runs the registered methods. Amounts are floating point numbers with their rounding
  (\<open>Float_Text\<close>). The callbacks of \<open>enumerate_assets\<close> are computations on the variables they
  capture.
\<close>

section \<open>Intervals\<close>

type_synonym interval = "int \<times> int"
type_synonym 'c interval_map = "(interval \<times> 'c) list"

definition interval_less :: "interval \<Rightarrow> interval \<Rightarrow> bool" where
  "interval_less l r \<longleftrightarrow> snd l \<le> fst r \<and> fst l < fst r \<and> snd l < snd r"

text \<open>
  A \<^verbatim>\<open>std::map\<close> with this order: the entries in ascending order; keys of which neither is less are the
  same key, and an assignment keeps the one that is there.
\<close>

fun imap_set :: "interval \<Rightarrow> 'c \<Rightarrow> 'c interval_map \<Rightarrow> 'c interval_map" where
  "imap_set k v [] = [(k, v)]"
| "imap_set k v ((k', v') # m) =
     (if interval_less k k' then (k, v) # (k', v') # m
      else if interval_less k' k then (k', v') # imap_set k v m
      else (k', v) # m)"

text \<open>The constructor; with a step that is not positive its loop does not end.\<close>

partial_function (option) interval_loop :: "int \<Rightarrow> int \<Rightarrow> int \<Rightarrow> 'c \<Rightarrow> 'c interval_map \<Rightarrow> 'c interval_map option" where
  [code]: "interval_loop i e step c m =
     (if i < e then interval_loop (i + step) e step c (imap_set (i, i + step) c m) else Some m)"

definition new_interval_map :: "int \<Rightarrow> int \<Rightarrow> int \<Rightarrow> 'c \<Rightarrow> 'c interval_map option" where
  "new_interval_map b e step c = interval_loop b e step c []"

definition imap_find :: "int \<Rightarrow> 'c interval_map \<Rightarrow> (interval \<times> 'c) option" where
  "imap_find key m = find (\<lambda>kv. fst (fst kv) \<le> key \<and> key \<le> snd (fst kv)) m"

text \<open>Both dereference the position found, also where it is the end: that is undefined.\<close>

definition imap_emplace :: "int \<Rightarrow> 'c \<Rightarrow> 'c interval_map \<Rightarrow> 'c interval_map result" where
  "imap_emplace key value m =
     (case imap_find key m of None \<Rightarrow> Inl Unknown_exn | Some kv \<Rightarrow> Inr (imap_set (fst kv) value m))"

definition imap_update :: "int \<Rightarrow> ('c \<Rightarrow> 'c) \<Rightarrow> 'c interval_map \<Rightarrow> 'c interval_map result" where
  "imap_update key f m =
     (case imap_find key m of None \<Rightarrow> Inl Unknown_exn | Some kv \<Rightarrow> Inr (imap_set (fst kv) (f (snd kv)) m))"

section \<open>Assets\<close>

definition stoi :: "string \<Rightarrow> int result" where
  "stoi s =
     (let (neg, u) = take_sign (dropWhile is_space_char s); ds = takeWhile is_digit_char u;
          v = (if neg then - int (decimal_value ds) else int (decimal_value ds))
      in if ds = [] then Inl (Std_exception ''stoi: invalid_argument'')
         else if v < - (2 ^ 31) \<or> 2 ^ 31 \<le> v then Inl (Std_exception ''stoi: out_of_range'')
         else Inr v)"

type_synonym 's asset_amount = "float_value \<Rightarrow> time_t \<Rightarrow> ('s, unit) prog"

definition asset_step ::
  "'e mile_lib_scheme \<Rightarrow> 's asset_amount \<Rightarrow> 's asset_amount \<Rightarrow> time_t \<Rightarrow> json \<Rightarrow> ('s, unit) prog" where
  "asset_step L xdr mile t asset =
     bindP (lift (bindE (const_index L asset ''code'') (jl_get_string L))) (\<lambda>code.
     bindP (lift (bindE (const_index L asset ''amount'') (jl_get_string L))) (\<lambda>amount.
     bindP (lift (stoi code)) (\<lambda>n.
     let asset_code = (word_of_int n :: 16 word) in
     if asset_code = asset_code_XDR L
     then bindP (lift (stold amount)) (\<lambda>a. xdr (to_format double_format a) t)
     else if asset_code = asset_code_MILE L
     then bindP (lift (stold amount)) (\<lambda>a. mile (to_format double_format a) t)
     else ret ())))"

fun assets_loop ::
  "'e mile_lib_scheme \<Rightarrow> 's asset_amount \<Rightarrow> 's asset_amount \<Rightarrow> time_t \<Rightarrow> json list \<Rightarrow> uint64 \<Rightarrow> ('s, uint64) prog" where
  "assets_loop L xdr mile t [] n = ret n"
| "assets_loop L xdr mile t (a # as) n =
     bindP (asset_step L xdr mile t a) (\<lambda>_. assets_loop L xdr mile t as (n + 1))"

definition trx_time :: "'e json_lib_scheme \<Rightarrow> json \<Rightarrow> time_t result" where
  "trx_time L trx =
     (if 0 < count_key trx ''timestamp'' then bindE (const_index L trx ''timestamp'') (jl_get_time L) else Inr (-1))"

fun trx_loop ::
  "'e mile_lib_scheme \<Rightarrow> 's asset_amount \<Rightarrow> 's asset_amount \<Rightarrow> json list \<Rightarrow> uint64 \<Rightarrow> ('s, uint64) prog" where
  "trx_loop L xdr mile [] n = ret n"
| "trx_loop L xdr mile (trx # trxs) n =
     bindP (lift (trx_time L trx)) (\<lambda>t.
     bindP (if 0 < count_key trx ''asset''
            then bindP (lift (const_index L trx ''asset'')) (\<lambda>assets. assets_loop L xdr mile t (items assets) n)
            else ret n) (\<lambda>n.
     trx_loop L xdr mile trxs n))"

definition enumerate_assets ::
  "'e mile_lib_scheme \<Rightarrow> json \<Rightarrow> 's asset_amount \<Rightarrow> 's asset_amount \<Rightarrow> ('s, uint64) prog" where
  "enumerate_assets L js xdr mile = (if is_array js then trx_loop L xdr mile (items js) 0 else ret 0)"

text \<open>A number of the JSON library; one that is not finite is written as null.\<close>

fun float_json :: "float_value \<Rightarrow> json" where
  "float_json (FNum s r) = JFloat (signed_value s r)"
| "float_json _ = JNull"

section \<open>The turnover of a day\<close>

record turnover =
  tv_xdr :: float_value
  tv_mile :: float_value
  tv_count_xdr :: uint64
  tv_count_mile :: uint64

definition add_xdr :: "turnover asset_amount" where
  "add_xdr amount t = modifyP (\<lambda>v. v\<lparr>tv_xdr := float_add extended_format (tv_xdr v) amount, tv_count_xdr := tv_count_xdr v + 1\<rparr>)"

definition add_mile :: "turnover asset_amount" where
  "add_mile amount t = modifyP (\<lambda>v. v\<lparr>tv_mile := float_add extended_format (tv_mile v) amount, tv_count_mile := tv_count_mile v + 1\<rparr>)"

definition no_turnover :: turnover where
  "no_turnover = \<lparr>tv_xdr = FNum False 0, tv_mile = FNum False 0, tv_count_xdr = 0, tv_count_mile = 0\<rparr>"

fun turnover_items :: "'e mile_lib_scheme \<Rightarrow> json list \<Rightarrow> uint64 \<Rightarrow> (turnover, uint64) prog" where
  "turnover_items L [] count = ret count"
| "turnover_items L (item # rest) count =
     bindP (if is_array item then bindP (enumerate_assets L item add_xdr add_mile) (\<lambda>n. ret (count + n)) else ret count)
       (turnover_items L rest)"

definition turnover_json :: "'e mile_lib_scheme \<Rightarrow> uint64 \<Rightarrow> turnover \<Rightarrow> json" where
  "turnover_json L count v =
     obj [(''id'', JStr ''turnovers-24''), (''count'', JUint count),
          (''assets'', JArr
             [obj [(''code'', JStr (to_string (unat (asset_code_XDR L)))),
                   (''amount'', float_json (to_format double_format (tv_xdr v))), (''count'', JUint (tv_count_xdr v))],
              obj [(''code'', JStr (to_string (unat (asset_code_MILE L)))),
                   (''amount'', float_json (to_format double_format (tv_mile v))), (''count'', JUint (tv_count_mile v))]])]"

definition turnover_24 :: "('w, 'e) env_scheme \<Rightarrow> db \<Rightarrow> time_t \<Rightarrow> ('w, unit) prog" where
  "turnover_24 E d last_time =
     (let first = last_time - 86400 in
      bindP (get_data E (cursor_field ''transactions''
        (cursor_between (word_of_int first) (word_of_int last_time) ''timestamp'' (table_cursor True (open_table d t_blocks))))) (\<lambda>js.
      case turnover_items E (items js) 0 no_turnover of
        (Inl e, _) \<Rightarrow> raise e
      | (Inr count, v) \<Rightarrow> table_update E (turnover_json E count v) (open_table d t_turnovers)))"

section \<open>The turnover of two weeks\<close>

record weeks =
  wk_xdr :: "(float_value \<times> uint64) interval_map"
  wk_mile :: "(float_value \<times> uint64) interval_map"

definition week_add :: "float_value \<Rightarrow> float_value \<times> uint64 \<Rightarrow> float_value \<times> uint64" where
  "week_add amount p = (float_add double_format (fst p) amount, snd p + 1)"

definition week_xdr :: "weeks asset_amount" where
  "week_xdr amount t = (\<lambda>s. case imap_update t (week_add amount) (wk_xdr s) of
     Inl e \<Rightarrow> (Inl e, s) | Inr m \<Rightarrow> (Inr (), s\<lparr>wk_xdr := m\<rparr>))"

definition week_mile :: "weeks asset_amount" where
  "week_mile amount t = (\<lambda>s. case imap_update t (week_add amount) (wk_mile s) of
     Inl e \<Rightarrow> (Inl e, s) | Inr m \<Rightarrow> (Inr (), s\<lparr>wk_mile := m\<rparr>))"

definition interval_json :: "interval \<times> (float_value \<times> uint64) \<Rightarrow> json" where
  "interval_json kv = obj [(''begin'', JInt (fst (fst kv))), (''end'', JInt (snd (fst kv))),
     (''amount'', float_json (fst (snd kv))), (''count'', JUint (snd (snd kv)))]"

definition trx_update :: "(float_value \<times> uint64) interval_map \<Rightarrow> json" where
  "trx_update week = (if week = [] then JNull else JArr (map interval_json week))"

definition turnover_trx :: "('w, 'e) env_scheme \<Rightarrow> db \<Rightarrow> time_t \<Rightarrow> ('w, unit) prog" where
  "turnover_trx E d last_time =
     (let day = 86400; first = last_time - day * 14 in
      case new_interval_map first last_time day (FNum False 0, 0 :: uint64) of
        None \<Rightarrow> raise Unknown_exn \<comment> \<open>does not happen: \<open>new_interval_map_value\<close>\<close>
      | Some empty_weeks \<Rightarrow>
          bindP (get_data E (cursor_between (word_of_int first) (word_of_int last_time) ''timestamp''
            (table_cursor True (open_table d t_transactions)))) (\<lambda>js.
          case enumerate_assets E js week_xdr week_mile \<lparr>wk_xdr = empty_weeks, wk_mile = empty_weeks\<rparr> of
            (Inl e, _) \<Rightarrow> raise e
          | (Inr count, s) \<Rightarrow>
              table_update E
                (obj [(''id'', JStr ''transaction-turnover''),
                      (''assets'', obj [(to_string (unat (asset_code_XDR E)), trx_update (wk_xdr s)),
                                        (to_string (unat (asset_code_MILE E)), trx_update (wk_mile s))])])
                (open_table d t_transaction_turnover)))"

section \<open>The registry and the round\<close>

type_synonym 'w statistic_method = "db \<Rightarrow> time_t \<Rightarrow> ('w, unit) prog"

text \<open>\<^verbatim>\<open>std::map::emplace\<close>: sorted by name, the first method of a name stays.\<close>

fun statistic_add :: "string \<Rightarrow> 'w statistic_method \<Rightarrow> (string \<times> 'w statistic_method) list
    \<Rightarrow> (string \<times> 'w statistic_method) list" where
  "statistic_add n f [] = [(n, f)]"
| "statistic_add n f ((n', f') # r) =
     (if n = n' then (n', f') # r else if n < n' then (n, f) # (n', f') # r else (n', f') # statistic_add n f r)"

text \<open>
  Reading the last block stands outside the handlers: an exception there leaves the loop. The
  exceptions of a method do not.
\<close>

definition statistics_round ::
  "('w, 'e) env_scheme \<Rightarrow> db \<Rightarrow> (string \<times> 'w statistic_method) list \<Rightarrow> ('w, unit) prog" where
  "statistics_round E d storage =
     bindP (get_block_history_state E d) (\<lambda>state.
     bindP (lift (bindE (jl_index E state ''timestamp'') (jl_get_time E))) (\<lambda>last_time.
     forP storage (\<lambda>nm. catchP (snd nm d last_time) (\<lambda>_. ret ()))))"

section \<open>The interval map\<close>

definition intervals :: "int \<Rightarrow> int \<Rightarrow> 'c \<Rightarrow> nat \<Rightarrow> 'c interval_map" where
  "intervals b step c n = map (\<lambda>k. ((b + int k * step, b + int k * step + step), c)) [0..<n]"

lemma imap_set_append:
  assumes "\<And>kv. kv \<in> set m \<Longrightarrow> interval_less (fst kv) k"
  shows "imap_set k v m = m @ [(k, v)]"
  using assms
proof (induction m)
  case Nil
  then show ?case by simp
next
  case (Cons kv m)
  then have "interval_less (fst kv) k" by simp
  moreover from this have "\<not> interval_less k (fst kv)" by (simp add: interval_less_def)
  ultimately show ?case using Cons by (cases kv) simp
qed

lemma intervals_Suc:
  assumes "0 < step"
  shows "imap_set (b + int n * step, b + int n * step + step) c (intervals b step c n) = intervals b step c (Suc n)"
proof -
  have "interval_less (fst kv) (b + int n * step, b + int n * step + step)" if kv: "kv \<in> set (intervals b step c n)" for kv
  proof -
    obtain k where k: "k < n" "kv = ((b + int k * step, b + int k * step + step), c)" using kv by (auto simp: intervals_def)
    have "(int k + 1) * step \<le> int n * step" using k(1) assms by (intro mult_right_mono) simp_all
    then have "int k * step + step \<le> int n * step" by (simp add: algebra_simps)
    with assms k show ?thesis by (simp add: interval_less_def)
  qed
  from imap_set_append [of "intervals b step c n", OF this] show ?thesis by (simp add: intervals_def)
qed

lemma interval_loop_value:
  assumes "0 < step"
  shows "interval_loop (b + int n * step) e step c (intervals b step c n)
    = Some (intervals b step c (n + nat ((e - (b + int n * step) + step - 1) div step)))"
proof (induction "nat (e - (b + int n * step))" arbitrary: n rule: less_induct)
  case less
  let ?i = "b + int n * step"
  show ?case
  proof (cases "?i < e")
    case False
    then have "(e - ?i + step - 1) div step \<le> 0"
      using assms by (smt (verit) pos_imp_zdiv_pos_iff)
    then show ?thesis using False by (simp add: interval_loop.simps [of ?i])
  next
    case True
    have i: "b + int (Suc n) * step = ?i + step" by (simp add: algebra_simps)
    have "nat (e - (b + int (Suc n) * step)) < nat (e - ?i)" using True assms by (simp add: i)
    from less [OF this] have "interval_loop (?i + step) e step c (intervals b step c (Suc n))
        = Some (intervals b step c (Suc n + nat ((e - (?i + step) + step - 1) div step)))" by (simp only: i)
    moreover have "(e - ?i + step - 1) div step = (e - (?i + step) + step - 1) div step + 1"
      using div_add_self2 [of step "e - ?i - 1"] assms by (simp add: algebra_simps)
    moreover have "0 \<le> (e - (?i + step) + step - 1) div step"
      using True assms by (simp add: pos_imp_zdiv_nonneg_iff)
    ultimately show ?thesis
      using True by (simp add: interval_loop.simps [of ?i] intervals_Suc [OF assms] nat_add_distrib)
  qed
qed

lemma new_interval_map_value:
  "0 < step \<Longrightarrow> new_interval_map b e step c = Some (intervals b step c (nat ((e - b + step - 1) div step)))"
  using interval_loop_value [of step b 0 e c] by (simp add: new_interval_map_def intervals_def)

lemma imap_find_intervals:
  assumes "0 < step" "b \<le> t" "t \<le> b + int n * step" "0 < n"
  shows "\<exists>k. imap_find t (intervals b step c n) = Some ((k, k + step), c) \<and> k \<le> t \<and> t \<le> k + step"
proof -
  have "\<exists>kv \<in> set (intervals b step c n). fst (fst kv) \<le> t \<and> t \<le> snd (fst kv)"
  proof -
    define j where "j = min (nat ((t - b) div step)) (n - 1)"
    have j: "j < n" using assms(4) by (simp add: j_def)
    have d: "0 \<le> (t - b) div step" using assms by (simp add: pos_imp_zdiv_nonneg_iff)
    have m: "(t - b) div step * step \<le> t - b" "t - b < (t - b) div step * step + step"
      using assms(1) by (simp_all add: minus_mod_eq_div_mult [symmetric] pos_mod_bound)
    have "b + int j * step \<le> t \<and> t \<le> b + int j * step + step"
    proof (cases "(t - b) div step \<le> int n - 1")
      case True
      then have "int j = (t - b) div step" using d assms(4) by (simp add: j_def min_def nat_le_iff of_nat_diff)
      with m show ?thesis by simp
    next
      case False
      then have j': "int j = int n - 1" using assms(4) by (simp add: j_def min_def) linarith
      have "int j * step \<le> (t - b) div step * step" using False j' assms(1) by (intro mult_right_mono) simp_all
      moreover have "int n * step = int j * step + step" by (simp add: j' algebra_simps)
      ultimately show ?thesis using m(1) assms(3) by linarith
    qed
    then show ?thesis using j by (auto simp: intervals_def)
  qed
  then have "imap_find t (intervals b step c n) \<noteq> None" unfolding imap_find_def find_None_iff by blast
  then obtain kv where kv: "imap_find t (intervals b step c n) = Some kv" by blast
  then have "kv \<in> set (intervals b step c n)" "fst (fst kv) \<le> t \<and> t \<le> snd (fst kv)"
    by (auto simp: imap_find_def find_Some_iff)
  with kv show ?thesis by (auto simp: intervals_def)
qed

lemma imap_find_outside:
  assumes "0 < step" "t < b \<or> b + int n * step < t"
  shows "imap_find t (intervals b step c n) = None"
proof -
  have "\<not> (b + int k * step \<le> t \<and> t \<le> b + int k * step + step)" if "k < n" for k
  proof -
    have "0 \<le> int k * step" using assms(1) by simp
    moreover have "(int k + 1) * step \<le> int n * step" using that assms(1) by (intro mult_right_mono) simp_all
    moreover have "(int k + 1) * step = int k * step + step" by (simp add: algebra_simps)
    ultimately show ?thesis using assms(2) by linarith
  qed
  then show ?thesis by (auto simp: imap_find_def find_None_iff intervals_def)
qed

text \<open>
  (C13) The constructor of the interval map ends for every positive step, and the map has one entry per step.
  A key within its range finds an entry around it; the lookup of any other key runs to the
  end of the map, which the code dereferences.
\<close>

theorem interval_map_lookup:
  assumes "0 < step" and "b < e"
  shows "\<exists>m n. new_interval_map b e step c = Some m \<and> length m = n \<and> int n = (e - b + step - 1) div step
    \<and> (\<forall>t. b \<le> t \<and> t \<le> e \<longrightarrow> (\<exists>k. imap_find t m = Some ((k, k + step), c) \<and> k \<le> t \<and> t \<le> k + step))
    \<and> (\<forall>t f. t < b \<or> b + int n * step < t \<longrightarrow> imap_update t f m = Inl Unknown_exn)"
proof -
  let ?N = "(e - b + step - 1) div step"
  have m: "e - b + step - 1 < ?N * step + step"
    using pos_mod_bound [OF assms(1), of "e - b + step - 1"] by (simp add: minus_mod_eq_div_mult [symmetric])
  have pos: "0 < ?N" using assms by (simp add: pos_imp_zdiv_pos_iff)
  have e: "e \<le> b + ?N * step" using m by simp
  show ?thesis
    using imap_find_intervals [OF assms(1), of b _ "nat ?N" c] imap_find_outside [OF assms(1), of _ b "nat ?N" c] pos e
    by (intro exI [of _ "intervals b step c (nat ?N)"] exI [of _ "nat ?N"])
      (auto simp: new_interval_map_value [OF assms(1)] intervals_def imap_update_def)
qed

theorem interval_map_lookup_witness:
  "\<exists>m. new_interval_map 0 14 5 (0 :: nat) = Some m \<and> length m = 3 \<and> imap_update 16 Suc m = Inl Unknown_exn"
  using interval_map_lookup [of 5 0 14 "0 :: nat"] by auto

section \<open>The sums of the turnover\<close>

text \<open>
  What a list of transactions says: its assets in order, each with the number of its code and an amount whose text denotes a
  whole number, such as \<open>12\<close> or \<open>12.00\<close>. A transaction may lack the time or the assets, and what is no array of transactions has none. \<open>total c es\<close> and \<open>many c es\<close> are the sum and the number of the entries of a code.
\<close>

definition asset_entry :: "json \<Rightarrow> nat \<times> nat \<Rightarrow> bool" where
  "asset_entry a e \<longleftrightarrow> field a ''code'' = Some (JStr (to_string (fst e)))
     \<and> (\<exists>s. field a ''amount'' = Some (JStr s) \<and> stold s = Inr (FNum False (of_nat (snd e))))"

definition time_readable :: "json \<Rightarrow> bool" where
  "time_readable trx \<longleftrightarrow> (case field trx ''timestamp'' of None \<Rightarrow> True | Some t \<Rightarrow> (\<exists>i. t = JInt i) \<or> (\<exists>n. t = JUint n))"

definition trx_view :: "json \<Rightarrow> (nat \<times> nat) list \<Rightarrow> bool" where
  "trx_view trx es \<longleftrightarrow> time_readable trx
     \<and> (case field trx ''asset'' of None \<Rightarrow> es = [] | Some a \<Rightarrow> (\<exists>as. a = JArr as \<and> list_all2 asset_entry as es))"

definition block_view :: "json \<Rightarrow> (nat \<times> nat) list \<Rightarrow> bool" where
  "block_view item es \<longleftrightarrow> (if is_array item then \<exists>ess. list_all2 trx_view (items item) ess \<and> es = concat ess else es = [])"

definition total :: "nat \<Rightarrow> (nat \<times> nat) list \<Rightarrow> nat" where
  "total c es = sum_list (map snd (filter (\<lambda>e. fst e = c) es))"

definition many :: "nat \<Rightarrow> (nat \<times> nat) list \<Rightarrow> nat" where
  "many c es = length (filter (\<lambda>e. fst e = c) es)"

definition turnover_of :: "nat \<Rightarrow> nat \<Rightarrow> (nat \<times> nat) list \<Rightarrow> turnover" where
  "turnover_of x m es = \<lparr>tv_xdr = FNum False (of_nat (total x es)), tv_mile = FNum False (of_nat (total m es)),
     tv_count_xdr = of_nat (many x es), tv_count_mile = of_nat (many m es)\<rparr>"

lemma total_le: "total c es \<le> sum_list (map snd es)"
  by (induction es) (auto simp: total_def)

lemma total_append [simp]: "total c (es @ es') = total c es + total c es'"
  by (simp add: total_def)

lemma stoi_to_string:
  assumes "c < 2 ^ 16"
  shows "stoi (to_string c) = Inr (int c)"
proof -
  have d: "is_digit_char x" if "x \<in> set (to_string c)" for x using that by (rule to_string_digits)
  have sp: "dropWhile is_space_char (to_string c) = to_string c"
    using to_string_not_Nil [of c] d by (cases "to_string c") (auto simp: digit_not_space)
  have sg: "take_sign (to_string c) = (False, to_string c)"
    using to_string_not_Nil [of c] d by (cases "to_string c") (auto simp: digit_not_sign)
  have "\<not> int c < - (2 ^ 31)" "\<not> 2 ^ 31 \<le> int c" using assms by simp_all
  then show ?thesis
    by (simp add: stoi_def sp sg dropWhile_digits decimal_value_to_string to_string_not_Nil)
qed

lemma to_double_nat:
  assumes "n < 2 ^ 53"
  shows "to_format double_format (FNum s (of_nat n)) = FNum s (of_nat n)"
proof -
  have "round_float double_format (of_nat n) = of_nat n"
    by (rule round_float_nat [OF assms]) (simp_all add: double_format_def)
  moreover have "(of_nat n :: rat) < 2 ^ ff_emax double_format"
  proof -
    have "(of_nat n :: rat) < of_nat (2 ^ 53)" using assms of_nat_less_iff by blast
    also have "\<dots> = 2 ^ 53" by simp
    also have "\<dots> \<le> 2 ^ ff_emax double_format" by (rule power_increasing) (simp_all add: double_format_def)
    finally show ?thesis .
  qed
  ultimately show ?thesis by (simp add: to_format_def)
qed

lemma float_add_extended:
  "m + n < 2 ^ 64 \<Longrightarrow> float_add extended_format (FNum False (of_nat m)) (FNum False (of_nat n)) = FNum False (of_nat (m + n))"
  by (rule float_add_nat [where k = 64]) (simp_all add: extended_format_def)

lemma code_word: "c < 2 ^ 16 \<Longrightarrow> word_of_int (int c) = (x :: 16 word) \<longleftrightarrow> c = unat x"
  by (auto simp: unsigned_of_nat take_bit_nat_eq_self)

text \<open>The codes of the two assets, and lists whose amounts can be added up exactly.\<close>

definition codes :: "'e mile_lib_scheme \<Rightarrow> nat \<Rightarrow> nat \<Rightarrow> bool" where
  "codes L x m \<longleftrightarrow> x = unat (asset_code_XDR L) \<and> m = unat (asset_code_MILE L) \<and> x \<noteq> m"

definition small :: "(nat \<times> nat) list \<Rightarrow> bool" where
  "small es \<longleftrightarrow> sum_list (map snd es) < 2 ^ 53 \<and> (\<forall>e \<in> set es. fst e < 2 ^ 16)"

lemma small_append: "small (es @ es') \<Longrightarrow> small es"
  by (auto simp: small_def)

lemma asset_step_value:
  assumes "nlohmann_json L" "codes L x m" "asset_entry a e" "small (es @ [e])"
  shows "asset_step L add_xdr add_mile t a (turnover_of x m es) = (Inr (), turnover_of x m (es @ [e]))"
proof -
  obtain c n where e: "e = (c, n)" by (cases e)
  have c: "c < 2 ^ 16" and s: "sum_list (map snd es) + n < 2 ^ 53" using assms(4) by (simp_all add: small_def e)
  have n: "n < 2 ^ 53" using s by simp
  have t: "total k es + n < 2 ^ 64" for k using total_le [of k es] s by simp
  obtain am where am: "field a ''amount'' = Some (JStr am)" "stold am = Inr (FNum False (of_nat n))"
    using assms(3) by (auto simp: asset_entry_def e)
  have f: "const_index L a ''code'' = Inr (JStr (to_string c))" "const_index L a ''amount'' = Inr (JStr am)"
    using assms(3) am(1) by (simp_all add: asset_entry_def e const_index_member)
  have x: "of_nat c = asset_code_XDR L \<longleftrightarrow> c = x" "of_nat c = asset_code_MILE L \<longleftrightarrow> c = m"
    using assms(2) code_word [OF c, of "asset_code_XDR L"] code_word [OF c, of "asset_code_MILE L"] by (simp_all add: codes_def)
  have d: "to_format double_format (FNum False (of_nat n)) = FNum False (of_nat n)" by (rule to_double_nat [OF n])
  note add = float_add_extended [OF t]
  have xm: "x \<noteq> m" using assms(2) by (simp add: codes_def)
  have u: "total k (es @ [e]) = total k es + (if c = k then n else 0)" "many k (es @ [e]) = many k es + (if c = k then 1 else 0)" for k
    by (simp_all add: total_def many_def e)
  show ?thesis
    using xm
    by (auto simp: asset_step_def f nlohmann_json.get_string_string [OF assms(1)] stoi_to_string [OF c] x
        am(2) d add_xdr_def add_mile_def Let_def turnover_of_def u add
        simp del: float_add.simps(1) total_append)
qed

lemma assets_loop_value:
  assumes "nlohmann_json L" "codes L x m" "list_all2 asset_entry as es" "small (es0 @ es)"
  shows "assets_loop L add_xdr add_mile t as k (turnover_of x m es0) = (Inr (k + of_nat (length es)), turnover_of x m (es0 @ es))"
  using assms(3,4)
proof (induction as es arbitrary: es0 k rule: list_all2_induct)
  case Nil
  then show ?case by simp
next
  case (Cons a as e es)
  have "asset_step L add_xdr add_mile t a (turnover_of x m es0) = (Inr (), turnover_of x m (es0 @ [e]))"
    using asset_step_value [OF assms(1,2) Cons.hyps(1)] small_append [of "es0 @ [e]" es] Cons.prems by simp
  with Cons.IH [of "es0 @ [e]" "k + 1"] Cons.prems show ?case by (simp add: bindP_def algebra_simps)
qed

lemma trx_loop_value:
  assumes "nlohmann_json L" "codes L x m" "list_all2 trx_view trxs ess" "small (es0 @ concat ess)"
  shows "trx_loop L add_xdr add_mile trxs k (turnover_of x m es0)
    = (Inr (k + of_nat (length (concat ess))), turnover_of x m (es0 @ concat ess))"
  using assms(3,4)
proof (induction trxs ess arbitrary: es0 k rule: list_all2_induct)
  case Nil
  then show ?case by simp
next
  case (Cons trx trxs es ess)
  have tr: "time_readable trx" using Cons.hyps(1) by (simp add: trx_view_def)
  then obtain t where t: "trx_time L trx = Inr t"
    by (auto simp: time_readable_def trx_time_def const_index_member nlohmann_json.json_laws [OF assms(1)] split: option.splits)
  let ?step = "if 0 < count_key trx ''asset''
      then bindP (lift (const_index L trx ''asset'')) (\<lambda>assets. assets_loop L add_xdr add_mile t (items assets) k) else ret k"
  have "?step (turnover_of x m es0) = (Inr (k + of_nat (length es)), turnover_of x m (es0 @ es))"
  proof (cases "field trx ''asset''")
    case None
    with Cons.hyps(1) show ?thesis by (simp add: trx_view_def)
  next
    case (Some a)
    with Cons.hyps(1) obtain as where a: "a = JArr as" "list_all2 asset_entry as es" by (auto simp: trx_view_def)
    have "small (es0 @ es)" using small_append [of "es0 @ es" "concat ess"] Cons.prems by simp
    from assets_loop_value [OF assms(1,2) a(2) this] Some a(1) show ?thesis by (simp add: const_index_member)
  qed
  note step = bindP_apply_Inr [where m = ?step, OF this]
  show ?case
    using Cons.IH [of "es0 @ es" "k + of_nat (length es)"] Cons.prems
    by (simp only: trx_loop.simps t bindP_basic step) (simp add: algebra_simps)
qed

lemma turnover_items_value:
  assumes "nlohmann_json L" "codes L x m" "list_all2 block_view blocks ess" "small (es0 @ concat ess)"
  shows "turnover_items L blocks k (turnover_of x m es0)
    = (Inr (k + of_nat (length (concat ess))), turnover_of x m (es0 @ concat ess))"
  using assms(3,4)
proof (induction blocks ess arbitrary: es0 k rule: list_all2_induct)
  case Nil
  then show ?case by simp
next
  case (Cons item rest es ess)
  let ?step = "if is_array item then bindP (enumerate_assets L item add_xdr add_mile) (\<lambda>n. ret (k + n)) else ret k"
  have "?step (turnover_of x m es0) = (Inr (k + of_nat (length es)), turnover_of x m (es0 @ es))"
  proof (cases "is_array item")
    case True
    with Cons.hyps(1) obtain ess' where v: "list_all2 trx_view (items item) ess'" "es = concat ess'" by (auto simp: block_view_def)
    have "small (es0 @ concat ess')" using small_append [of "es0 @ es" "concat ess"] Cons.prems v(2) by simp
    from trx_loop_value [OF assms(1,2) v(1) this, of 0] True v(2) show ?thesis
      by (simp add: enumerate_assets_def bindP_def)
  next
    case False
    with Cons.hyps(1) show ?thesis by (simp add: block_view_def)
  qed
  note step = bindP_apply_Inr [where m = ?step, OF this]
  show ?case
    using Cons.IH [of "es0 @ es" "k + of_nat (length es)"] Cons.prems
    by (simp only: turnover_items.simps step) (simp add: algebra_simps)
qed


text \<open>A server that answers every query with one block of two transfers.\<close>

definition sample_transfer :: "nat \<Rightarrow> nat \<Rightarrow> json" where
  "sample_transfer c n = obj [(''asset'', JArr [obj [(''code'', JStr (to_string c)), (''amount'', JStr (to_string n @ ''.00''))]])]"

definition sample_stat_env :: "refdb env" where
  "sample_stat_env = sample_env\<lparr>reql_run := (\<lambda>_ w. (Inr (JArr [JArr [sample_transfer 0 5, sample_transfer 1 7]]), w))\<rparr>"

lemma sample_stat_json: "nlohmann_json sample_stat_env"
  using explorer_env.axioms(1) [OF sample_explorer] unfolding nlohmann_json_def sample_stat_env_def by simp

lemma sample_transfer_view: "n < 2 ^ 64 \<Longrightarrow> trx_view (sample_transfer c n) [(c, n)]"
  by (simp add: trx_view_def time_readable_def sample_transfer_def obj_def asset_entry_def stold_hundredths)


section \<open>The round\<close>

lemma statistics_loop_value:
  "forP storage (\<lambda>nm. catchP (snd nm d t) (\<lambda>_. ret ())) w = (Inr (), foldl (\<lambda>w nm. snd (snd nm d t w)) w storage)"
proof (induction storage arbitrary: w)
  case Nil
  then show ?case by simp
next
  case (Cons nm storage)
  obtain r w1 where r: "snd nm d t w = (r, w1)" by (cases "snd nm d t w")
  then have "catchP (snd nm d t) (\<lambda>_. ret ()) w = (Inr (), w1)" by (cases r) (simp_all add: catchP_def)
  note step = bindP_apply_Inr [where m = "catchP (snd nm d t) (\<lambda>_. ret ())" and s = w, OF this]
  show ?case by (simp only: forP.simps step Cons.IH foldl_Cons r snd_conv)
qed

text \<open>
  (C21) A round of the statistics, once a block is stored, runs every registered method once, in the order of the
  registry and with the time of the last block, whatever exceptions the methods raise.
\<close>

theorem statistics_round_isolates:
  assumes "nlohmann_json E"
    and "get_block_history_state E d w = (Inr (JObj b), w1)" and "map_of b ''timestamp'' = Some (JInt t)"
  shows "statistics_round E d storage w = (Inr (), foldl (\<lambda>w nm. snd (snd nm d t w)) w1 storage)"
proof -
  have "bindE (jl_index E (JObj b) ''timestamp'') (jl_get_time E) = Inr t"
    using assms(3) nlohmann_json.index_member [OF assms(1), of "JObj b" "''timestamp''" "JInt t"]
      nlohmann_json.get_time_int [OF assms(1), of t] by simp
  then show ?thesis
    unfolding statistics_round_def bindP_apply_Inr [where m = "get_block_history_state E d" and s = w, OF assms(2)] by (simp only: bindP_basic statistics_loop_value)
qed

text \<open>
  While no block is stored, a round of the statistics raises a JSON exception that no handler of the loop
  catches, so the loop around it is left.
\<close>

lemma statistics_round_needs_block:
  assumes "nlohmann_json E" and "get_block_history_state E d w = (Inr (JArr []), w1)"
  shows "\<exists>m. statistics_round E d storage w = (Inl (Json_type_error m), w1)"
  unfolding statistics_round_def bindP_apply_Inr [where m = "get_block_history_state E d" and s = w, OF assms(2)]
  using nlohmann_json.index_nonobject [OF assms(1), of "JArr []" "''timestamp''"] by simp

text \<open>A server whose last block is of the time 5, and a method that raises.\<close>

definition sample_state_env :: "refdb env" where
  "sample_state_env = sample_env\<lparr>reql_run := (\<lambda>_ w. (Inr (JObj [(''timestamp'', JInt 5)]), w))\<rparr>"

theorem statistics_round_isolates_witness:
  "statistics_round sample_state_env sample_db [(''a'', \<lambda>d t. raise Timeout), (''b'', \<lambda>d t. modifyP (\<lambda>w. w(''x'' := [JInt t])))] (\<lambda>_. [])
    = (Inr (), (\<lambda>_. [])(''x'' := [JInt 5]))"
proof -
  have "nlohmann_json sample_state_env"
    using explorer_env.axioms(1) [OF sample_explorer] unfolding nlohmann_json_def sample_state_env_def by simp
  moreover have "get_block_history_state sample_state_env sample_db (\<lambda>_. []) = (Inr (JObj [(''timestamp'', JInt 5)]), (\<lambda>_. []))"
    by (simp add: get_block_history_state_def get_data_def cursor_defs sample_state_env_def bindP_def catch_reql_def catchP_def)
  ultimately have "statistics_round sample_state_env sample_db storage (\<lambda>_. [])
      = (Inr (), foldl (\<lambda>w nm. snd (snd nm sample_db 5 w)) (\<lambda>_. []) storage)" for storage
    by (rule statistics_round_isolates) simp
  then show ?thesis by simp
qed

end
