(* ===== verification/Wallets_Top.thy ===== *)
theory Wallets_Top
  imports Statistics "HOL-Library.Multiset"
begin

text \<open>
  The lists of the richest wallets. \<^verbatim>\<open>indexer/statistics/wallets_top_upd.cpp\<close>, the registered method, has the list made by
  one query: the terms it sends, in the order of the calls. \<^verbatim>\<open>indexer/statistics/wallets_top.cpp\<close> is the
  method it replaced, no longer registered, which makes the list itself. \<^verbatim>\<open>std::sort\<close> does
  not say in which order it leaves equal elements, so it is an argument here, with what the
  language promises of it in the locale \<open>std_sort\<close>.
\<close>

definition t_wallets_top :: string where "t_wallets_top = ''wallets_top''"

definition ensure_table :: "('w, 'e) env_scheme \<Rightarrow> db \<Rightarrow> ('w, table) prog" where
  "ensure_table E d =
     bindP (has_table E d t_wallets_top) (\<lambda>has.
     bindP (if has then ret () else bindP (create_table E d t_wallets_top) (\<lambda>_. ret ())) (\<lambda>_.
     let table = open_table d t_wallets_top in
     bindP (has_index E ''position'' table) (\<lambda>indexed.
     bindP (if indexed then ret () else create_index E ''position'' table) (\<lambda>_.
     ret table))))"

section \<open>The registered method\<close>

definition get_raw_object :: "nat \<Rightarrow> reql \<Rightarrow> reql" where
  "get_raw_object x ff =
     R_MAP (R_HAS_FIELDS (R_BRACKET ff ''balance'') [''code'', ''amount''])
       (R_FUNC [x] (R_OBJ
         [(''code'', R_BRACKET (R_VAR x) ''code''), (''amount'', R_BRACKET (R_VAR x) ''amount''),
          (''position'', R_DATUM (JInt 1)), (''id'', R_BRACKET ff ''id'')]))"

definition position_increaser :: "reql \<Rightarrow> reql \<Rightarrow> reql" where
  "position_increaser acc row = R_ADD acc (R_DATUM (JInt 1))"

definition get_resulted_object :: "reql \<Rightarrow> reql \<Rightarrow> reql \<Rightarrow> reql" where
  "get_resulted_object acc row new_acc =
     R_ARRAY [R_OBJ
       [(''public-key'', R_BRACKET row ''id''), (''amount'', R_BRACKET row ''amount''),
        (''asset-code'', R_COERCE_TO (R_BRACKET row ''code'') ''NUMBER''), (''position'', acc),
        (''id'', R_ADD (R_ADD (R_COERCE_TO acc ''STRING'') (R_DATUM (JStr '':''))) (R_BRACKET row ''code''))]]"

definition wallets_top_query :: "'e mile_lib_scheme \<Rightarrow> db \<Rightarrow> cursor" where
  "wallets_top_query L d =
     (let xdr_code = to_string (unat (asset_code_XDR L)); mile_code = to_string (unat (asset_code_MILE L)) in
      cursor_concat_map (R_BRACKET R_ROW ''reduction'')
      (cursor_ungroup
      (cursor_fold (R_DATUM (JInt 0)) 1 2 3 position_increaser get_resulted_object
      (cursor_limit_func 1024
      (cursor_order_by (R_DESC (R_COERCE_TO (R_BRACKET R_ROW ''amount'') ''NUMBER''))
      (cursor_group ''code''
      (cursor_filter (R_OR (R_EQ (R_BRACKET R_ROW ''code'') (R_DATUM (JStr xdr_code)))
                           (R_EQ (R_BRACKET R_ROW ''code'') (R_DATUM (JStr mile_code))))
      (cursor_concat_map_func 1 (get_raw_object 2)
      (cursor_filter (R_AND (R_HAS_FIELDS R_ROW [''balance''])
                            (R_EQ (R_TYPE_OF (R_BRACKET R_ROW ''balance'')) (R_DATUM (JStr ''ARRAY''))))
      (table_cursor True (open_table d t_wallets_state)))))))))))"

definition wallets_top_upd :: "('w, 'e) env_scheme \<Rightarrow> 'w statistic_method" where
  "wallets_top_upd E d last_time =
     bindP (ensure_table E d) (\<lambda>table.
     bindP (get_data E (wallets_top_query E d)) (\<lambda>items.
     insert_with_replace E items table))"

text \<open>The registry of the indexer.\<close>

definition registered :: "('w, 'e) env_scheme \<Rightarrow> (string \<times> 'w statistic_method) list" where
  "registered E =
     statistic_add ''turnover24'' (turnover_24 E)
    (statistic_add ''transaction_turnover'' (turnover_trx E)
    (statistic_add ''wallets_top_upd'' (wallets_top_upd E) []))"

section \<open>The earlier method\<close>

type_synonym mpair = "string \<times> string"

fun float_less :: "float_value \<Rightarrow> float_value \<Rightarrow> bool" where
  "float_less (FNum s r) (FNum s' r') = (signed_value s r < signed_value s' r')"
| "float_less (FInf s) (FInf s') = (s \<and> \<not> s')"
| "float_less (FInf s) (FNum _ _) = s"
| "float_less (FNum _ _) (FInf s) = (\<not> s)"
| "float_less _ _ = False"

text \<open>The comparison raises where an amount is no number.\<close>

definition richer :: "mpair \<Rightarrow> mpair \<Rightarrow> bool result" where
  "richer a b = bindE (stof (snd a)) (\<lambda>x. bindE (stof (snd b)) (\<lambda>y. Inr (float_less y x)))"

text \<open>\<^verbatim>\<open>std::unique\<close> and \<^verbatim>\<open>erase\<close>: of neighbours with one key the first stays.\<close>

fun unique_keys :: "mpair list \<Rightarrow> mpair list" where
  "unique_keys (x # y # xs) = (if fst x = fst y then unique_keys (x # xs) else x # unique_keys (y # xs))"
| "unique_keys xs = xs"

text \<open>
  The copy of the part from \<open>start\<close> on. \<^verbatim>\<open>oldlen\<close> is an \<^verbatim>\<open>int\<close>; a negative size of the new vector raises \<^verbatim>\<open>length_error\<close>.
\<close>

definition slice_part :: "int \<Rightarrow> int \<Rightarrow> mpair list \<Rightarrow> mpair list result" where
  "slice_part start end v =
     (let oldlen = sint (of_nat (length v) :: 32 word);
          newlen = (if end = -1 \<or> oldlen \<le> end then oldlen - start else end - start)
      in if newlen < 0 then Inl (Std_exception ''length_error'')
         else if start < 0 \<or> int (length v) < start + newlen then Inl Unknown_exn
         else Inr (take (nat newlen) (drop (nat start) v)))"

type_synonym sorter = "(mpair \<Rightarrow> mpair \<Rightarrow> bool result) \<Rightarrow> mpair list \<Rightarrow> mpair list result"

definition mslice :: "sorter \<Rightarrow> mpair list \<Rightarrow> int \<Rightarrow> int \<Rightarrow> mpair list result" where
  "mslice srt v start end = bindE (srt richer v) (\<lambda>v. slice_part start end (unique_keys v))"

fun coins :: "'e mile_lib_scheme \<Rightarrow> json \<Rightarrow> json list \<Rightarrow> mpair list \<times> mpair list \<Rightarrow> (mpair list \<times> mpair list) result" where
  "coins L a [] out = Inr out"
| "coins L a (coin # rest) (xdr, mile) =
     (if count_key coin ''code'' = 0 then Inr (xdr, mile)
      else if count_key coin ''amount'' = 0 then Inr (xdr, mile)
      else
        bindE (bindE (jl_index L coin ''code'') (jl_get_string L)) (\<lambda>x.
        bindE (stoi x) (\<lambda>n.
        bindE (bindE (jl_index L a ''id'') (jl_get_string L)) (\<lambda>i.
        bindE (bindE (jl_index L coin ''amount'') (jl_get_string L)) (\<lambda>amount.
        let code = (word_of_int n :: 16 word) in
        coins L a rest
          (if code = asset_code_XDR L then (xdr @ [(i, amount)], mile)
           else if code = asset_code_MILE L then (xdr, mile @ [(i, amount)])
           else (xdr, mile)))))))"

fun top_filter :: "'e mile_lib_scheme \<Rightarrow> json list \<Rightarrow> mpair list \<times> mpair list \<Rightarrow> (mpair list \<times> mpair list) result" where
  "top_filter L [] out = Inr out"
| "top_filter L (a # rest) out =
     (if count_key a ''balance'' = 0 then top_filter L rest out
      else
        bindE (jl_index L a ''balance'') (\<lambda>balance.
        bindE (coins L a (items balance) out) (top_filter L rest)))"

definition top_key :: "uint64 \<Rightarrow> 16 word \<Rightarrow> string" where
  "top_key n code = to_string (unat n) @ '':'' @ to_string (unat code)"

definition top_row :: "16 word \<Rightarrow> uint64 \<Rightarrow> mpair \<Rightarrow> json" where
  "top_row code n item =
     obj [(''id'', JStr (top_key n code)), (''position'', JUint n), (''public-key'', JStr (fst item)),
          (''amount'', JStr (snd item)), (''asset-code'', JUint (ucast code))]"

fun top_update :: "('w, 'e) env_scheme \<Rightarrow> db \<Rightarrow> 16 word \<Rightarrow> mpair list \<Rightarrow> uint64 \<Rightarrow> ('w, unit) prog" where
  "top_update E d code [] n = ret ()"
| "top_update E d code (item # rest) n =
     bindP (table_update E (top_row code n item) (open_table d t_wallets_top)) (\<lambda>_.
     top_update E d code rest (n + 1))"

definition wallets_top :: "('w, 'e) env_scheme \<Rightarrow> sorter \<Rightarrow> 'w statistic_method" where
  "wallets_top E srt d last_time =
     bindP (ensure_table E d) (\<lambda>_.
     bindP (get_data E (table_cursor True (open_table d t_wallets_state))) (\<lambda>js.
     bindP (lift (top_filter E (items js) ([], []))) (\<lambda>(xdr, mile).
     bindP (lift (mslice srt xdr 0 1024)) (\<lambda>xdr.
     bindP (lift (mslice srt mile 0 1024)) (\<lambda>mile.
     bindP (top_update E d (asset_code_XDR E) xdr 0) (\<lambda>_.
     top_update E d (asset_code_MILE E) mile 0))))))"

section \<open>What \<^verbatim>\<open>std::sort\<close> promises\<close>

definition strict_weak :: "('a \<Rightarrow> 'a \<Rightarrow> bool) \<Rightarrow> 'a set \<Rightarrow> bool" where
  "strict_weak lt A \<longleftrightarrow> (\<forall>x \<in> A. \<not> lt x x)
     \<and> (\<forall>x \<in> A. \<forall>y \<in> A. \<forall>z \<in> A. lt x y \<longrightarrow> lt y z \<longrightarrow> lt x z)
     \<and> (\<forall>x \<in> A. \<forall>y \<in> A. \<forall>z \<in> A. \<not> lt x y \<longrightarrow> \<not> lt y z \<longrightarrow> \<not> lt x z)"

lemma strict_weakD:
  assumes "strict_weak lt A" "x \<in> A" "y \<in> A"
  shows "lt x y \<Longrightarrow> \<not> lt y x" "z \<in> A \<Longrightarrow> \<not> lt x y \<Longrightarrow> \<not> lt y z \<Longrightarrow> \<not> lt x z"
  using assms unfolding strict_weak_def by blast+

lemma strict_weak_subset: "strict_weak lt A \<Longrightarrow> B \<subseteq> A \<Longrightarrow> strict_weak lt B"
  unfolding strict_weak_def by (meson subsetD)

locale std_sort =
  fixes srt :: sorter
  assumes sorts: "(\<And>x y. x \<in> set xs \<Longrightarrow> y \<in> set xs \<Longrightarrow> cmp x y = Inr (lt x y)) \<Longrightarrow> strict_weak lt (set xs) \<Longrightarrow>
    \<exists>ys. srt cmp xs = Inr ys \<and> mset ys = mset xs \<and> sorted_wrt (\<lambda>x y. \<not> lt y x) ys"

text \<open>An implementation: insertion sort.\<close>

fun insert_by :: "(mpair \<Rightarrow> mpair \<Rightarrow> bool result) \<Rightarrow> mpair \<Rightarrow> mpair list \<Rightarrow> mpair list result" where
  "insert_by cmp x [] = Inr [x]"
| "insert_by cmp x (y # ys) =
     bindE (cmp y x) (\<lambda>b. if b then bindE (insert_by cmp x ys) (\<lambda>zs. Inr (y # zs)) else Inr (x # y # ys))"

fun insertion_sort :: sorter where
  "insertion_sort cmp [] = Inr []"
| "insertion_sort cmp (x # xs) = bindE (insertion_sort cmp xs) (insert_by cmp x)"

lemma insert_by_sorted:
  assumes "\<And>u v. u \<in> insert x (set ys) \<Longrightarrow> v \<in> insert x (set ys) \<Longrightarrow> cmp u v = Inr (lt u v)"
    and "strict_weak lt (insert x (set ys))" "sorted_wrt (\<lambda>u v. \<not> lt v u) ys"
  shows "\<exists>zs. insert_by cmp x ys = Inr zs \<and> mset zs = add_mset x (mset ys) \<and> sorted_wrt (\<lambda>u v. \<not> lt v u) zs"
  using assms
proof (induction ys)
  case Nil
  then show ?case by simp
next
  case (Cons y ys)
  show ?case
  proof (cases "lt y x")
    case True
    have "strict_weak lt (insert x (set ys))" by (rule strict_weak_subset [OF Cons.prems(2)]) auto
    moreover have "cmp u v = Inr (lt u v)" if "u \<in> insert x (set ys)" "v \<in> insert x (set ys)" for u v
      by (rule Cons.prems(1)) (use that in auto)
    moreover have "sorted_wrt (\<lambda>u v. \<not> lt v u) ys" using Cons.prems(3) by simp
    ultimately obtain zs where
      zs: "insert_by cmp x ys = Inr zs" "mset zs = add_mset x (mset ys)" "sorted_wrt (\<lambda>u v. \<not> lt v u) zs"
      using Cons.IH by blast
    have "\<not> lt x y" using strict_weakD(1) [OF Cons.prems(2), of y x] True by simp
    then have "\<forall>u \<in> set zs. \<not> lt u y"
      using Cons.prems(3) mset_eq_setD [of zs "x # ys"] zs(2) by auto
    with zs True Cons.prems(1) show ?thesis by simp
  next
    case False
    have "\<not> lt u x" if "u \<in> set ys" for u
      using strict_weakD(2) [OF Cons.prems(2), of u y x] that False Cons.prems(3) by simp
    with False Cons.prems(1,3) show ?thesis by simp
  qed
qed

interpretation isort: std_sort insertion_sort
proof
  fix xs :: "mpair list" and cmp :: "mpair \<Rightarrow> mpair \<Rightarrow> bool result" and lt
  assume "\<And>x y. x \<in> set xs \<Longrightarrow> y \<in> set xs \<Longrightarrow> cmp x y = Inr (lt x y)" "strict_weak lt (set xs)"
  then show "\<exists>ys. insertion_sort cmp xs = Inr ys \<and> mset ys = mset xs \<and> sorted_wrt (\<lambda>x y. \<not> lt y x) ys"
  proof (induction xs)
    case Nil
    then show ?case by simp
  next
    case (Cons x xs)
    have "strict_weak lt (set xs)" by (rule strict_weak_subset [OF Cons.prems(2)]) auto
    moreover have "cmp u v = Inr (lt u v)" if "u \<in> set xs" "v \<in> set xs" for u v
      by (rule Cons.prems(1)) (use that in auto)
    ultimately obtain ys where
      ys: "insertion_sort cmp xs = Inr ys" "mset ys = mset xs" "sorted_wrt (\<lambda>x y. \<not> lt y x) ys"
      using Cons.IH by blast
    have "insert x (set ys) = set (x # xs)" using mset_eq_setD [OF ys(2)] by simp
    from insert_by_sorted [of x ys cmp lt, unfolded this, OF Cons.prems ys(3)] ys(1,2) show ?case by simp
  qed
qed

section \<open>The list is that of the richest wallets\<close>

definition amount_of :: "mpair \<Rightarrow> rat" where
  "amount_of p = (case stof (snd p) of Inr (FNum s r) \<Rightarrow> signed_value s r | _ \<Rightarrow> 0)"

definition readable :: "mpair \<Rightarrow> bool" where
  "readable p \<longleftrightarrow> (\<exists>s r. stof (snd p) = Inr (FNum s r))"

lemma unique_distinct: "distinct (map fst xs) \<Longrightarrow> unique_keys xs = xs"
  by (induction xs rule: unique_keys.induct) auto

lemma richer_amounts: "readable x \<Longrightarrow> readable y \<Longrightarrow> richer x y = Inr (amount_of y < amount_of x)"
  by (auto simp: readable_def richer_def amount_of_def)

lemma slice_part_take:
  assumes "length v < 2 ^ 31"
  shows "slice_part 0 1024 v = Inr (take 1024 v)"
proof -
  have "sint (of_nat (length v) :: 32 word) = int (length v)"
    using assms by (simp add: signed_of_nat signed_take_bit_int_eq_self)
  then show ?thesis by (simp add: slice_part_def Let_def)
qed

lemma mslice_value:
  assumes "std_sort srt" "\<forall>p \<in> set v. readable p" "distinct (map fst v)" "length v < 2 ^ 31"
  shows "\<exists>ys. mslice srt v 0 1024 = Inr (take 1024 ys) \<and> mset ys = mset v \<and> sorted_wrt (\<lambda>p q. amount_of q \<le> amount_of p) ys"
proof -
  have "strict_weak (\<lambda>x y. amount_of y < amount_of x) (set v)" by (auto simp: strict_weak_def)
  from std_sort.sorts [OF assms(1), of v richer, OF richer_amounts this] assms(2) obtain ys where
    ys: "srt richer v = Inr ys" "mset ys = mset v" "sorted_wrt (\<lambda>p q. \<not> amount_of p < amount_of q) ys" by auto
  have "mset (map fst ys) = mset (map fst v)" using ys(2) by simp
  then have "distinct (map fst ys)" using assms(3) mset_eq_imp_distinct_iff by blast
  moreover have "length ys = length v" using ys(2) mset_eq_length by blast
  ultimately have "mslice srt v 0 1024 = Inr (take 1024 ys)"
    using assms(4) slice_part_take [of ys] by (simp add: mslice_def ys(1) unique_distinct)
  with ys show ?thesis by (auto simp: not_less)
qed

section \<open>What is written\<close>

lemma top_key_inject [simp]: "top_key m c = top_key n c' \<longleftrightarrow> m = n \<and> c = c'"
  using append_sep_inject [of "CHR '':''" "to_string (unat m)" "to_string (unat n)" "to_string (unat c)" "to_string (unat c')"]
  by (auto simp: top_key_def dest: unsigned_word_eqI)

lemma top_key_digit: "\<exists>c s. top_key n code = c # s \<and> is_digit_char c"
  using to_string_hd_digit [of "unat n"] by (cases "to_string (unat n)") (auto simp: top_key_def)

lemma top_key_names: "top_key n code \<notin> {index_id_text, ''id'', ''position'', ''public-key'', ''amount'', ''asset-code''}"
  using top_key_digit [of n code] by (auto simp: index_id_text_def is_digit_char_def)

lemma top_row_members: "\<exists>m. top_row code n item = JObj m \<and> id_string (JObj m) = Some (top_key n code)
    \<and> map_of m (top_key n code) = None \<and> map_of m ''public-key'' = Some (JStr (fst item))
    \<and> map_of m ''amount'' = Some (JStr (snd item)) \<and> map_of m ''position'' = Some (JUint n)"
  using top_key_names [of n code] by (simp add: top_row_def obj_def id_string_def)

text \<open>The row of a position.\<close>

definition holds_place :: "row_map \<Rightarrow> 16 word \<Rightarrow> uint64 \<Rightarrow> mpair \<Rightarrow> bool" where
  "holds_place t code n item \<longleftrightarrow> (\<exists>r. t (top_key n code) = Some r \<and> field r ''public-key'' = Some (JStr (fst item))
     \<and> field r ''amount'' = Some (JStr (snd item)) \<and> field r ''position'' = Some (JUint n))"

context explorer_env
begin

lemma top_update_effect:
  assumes "db_name d = dbn" "rows w t_wallets_top index_id_text = None" "unat n + length xs < 2 ^ 64"
  shows "\<exists>w'. top_update E d code xs n w = (Inr (), w')
    \<and> (\<forall>t. t \<noteq> t_wallets_top \<longrightarrow> rows w' t = rows w t)
    \<and> (\<forall>m. m < n \<longrightarrow> rows w' t_wallets_top (top_key m code) = rows w t_wallets_top (top_key m code))
    \<and> (\<forall>i. (\<forall>m. i \<noteq> top_key m code) \<longrightarrow> rows w' t_wallets_top i = rows w t_wallets_top i)
    \<and> (\<forall>k < length xs. holds_place (rows w' t_wallets_top) code (n + of_nat k) (xs ! k))"
  using assms(2,3)
proof (induction xs arbitrary: n w)
  case Nil
  then show ?case by simp
next
  case (Cons x xs)
  obtain m where m: "top_row code n x = JObj m" "id_string (JObj m) = Some (top_key n code)" "map_of m (top_key n code) = None"
    "map_of m ''public-key'' = Some (JStr (fst x))" "map_of m ''amount'' = Some (JStr (snd x))" "map_of m ''position'' = Some (JUint n)"
    using top_row_members by blast
  from update_effect [OF assms(1) m(2) Cons.prems(1) m(3)] obtain w1 where
    w1: "table_update E (JObj m) (open_table d t_wallets_top) w = (Inr (), w1)"
      "rows w1 = (rows w)(t_wallets_top := (rows w t_wallets_top)(top_key n code \<mapsto>
        (case rows w t_wallets_top (top_key n code) of None \<Rightarrow> JObj m | Some r \<Rightarrow> JObj (merge_members (members r) m))))"
    by blast
  have here: "holds_place (rows w1 t_wallets_top) code n x"
    using m by (auto simp: holds_place_def w1(2) merge_members_map split: option.split)
  have n: "unat (n + 1) = Suc (unat n)" using Cons.prems(2) by (simp add: unat_word_ariths)
  have "rows w1 t_wallets_top index_id_text = None" using Cons.prems(1) top_key_names [of n code] by (auto simp: w1(2))
  moreover have "unat (n + 1) + length xs < 2 ^ 64" using Cons.prems(2) n by simp
  ultimately obtain w' where w': "top_update E d code xs (n + 1) w1 = (Inr (), w')"
    "\<forall>t. t \<noteq> t_wallets_top \<longrightarrow> rows w' t = rows w1 t"
    "\<forall>m. m < n + 1 \<longrightarrow> rows w' t_wallets_top (top_key m code) = rows w1 t_wallets_top (top_key m code)"
    "\<forall>i. (\<forall>m. i \<noteq> top_key m code) \<longrightarrow> rows w' t_wallets_top i = rows w1 t_wallets_top i"
    "\<forall>k < length xs. holds_place (rows w' t_wallets_top) code (n + 1 + of_nat k) (xs ! k)"
    using Cons.IH by blast
  have less: "m < n + 1 \<longleftrightarrow> m < n \<or> m = n" for m
    using unsigned_word_eqI [of m n] by (auto simp: word_less_nat_alt n less_Suc_eq)
  have "holds_place (rows w' t_wallets_top) code (n + of_nat k) ((x # xs) ! k)" if "k < length (x # xs)" for k
  proof (cases k)
    case 0
    then show ?thesis using here w'(3) by (auto simp: holds_place_def less)
  next
    case (Suc j)
    then show ?thesis using w'(5) that by (simp add: algebra_simps)
  qed
  moreover have "top_update E d code (x # xs) n w = (Inr (), w')" using w1(1) w'(1) m(1) by (simp add: bindP_def)
  ultimately show ?case using w'(2,3,4) w1(2) by (intro exI [of _ w']) (auto simp: less)
qed

end

section \<open>The whole method\<close>

text \<open>
  What the table of wallet states says: for every row its identifier and its balance, codes and amounts. A row without a balance has
  none. \<open>holdings c vs\<close> are the wallets that hold the asset of the code \<open>c\<close>, each with its amount.
\<close>

definition coin_view :: "json \<Rightarrow> nat \<times> string \<Rightarrow> bool" where
  "coin_view coin e \<longleftrightarrow> fst e < 2 ^ 16 \<and> field coin ''code'' = Some (JStr (to_string (fst e))) \<and> field coin ''amount'' = Some (JStr (snd e))"

definition wallet_view :: "json \<Rightarrow> string \<times> (nat \<times> string) list \<Rightarrow> bool" where
  "wallet_view r v \<longleftrightarrow>
     (case field r ''balance'' of None \<Rightarrow> snd v = []
      | Some b \<Rightarrow> field r ''id'' = Some (JStr (fst v)) \<and> list_all2 coin_view (items b) (snd v))"

definition holding :: "nat \<Rightarrow> string \<times> (nat \<times> string) list \<Rightarrow> mpair list" where
  "holding c v = map (\<lambda>e. (fst v, snd e)) (filter (\<lambda>e. fst e = c) (snd v))"

definition holdings :: "nat \<Rightarrow> (string \<times> (nat \<times> string) list) list \<Rightarrow> mpair list" where
  "holdings c vs = concat (map (holding c) vs)"

lemma coins_value:
  assumes "nlohmann_json L" "codes L x m" "list_all2 coin_view cs es" "field a ''id'' = Some (JStr i)"
  shows "coins L a cs (xs, ms) = Inr (xs @ holding x (i, es), ms @ holding m (i, es))"
  using assms(3)
proof (induction cs es arbitrary: xs ms rule: list_all2_induct)
  case Nil
  then show ?case by (simp add: holding_def)
next
  case (Cons coin cs e es)
  then have c: "fst e < 2 ^ 16" "field coin ''code'' = Some (JStr (to_string (fst e)))" "field coin ''amount'' = Some (JStr (snd e))"
    by (simp_all add: coin_view_def)
  have w: "of_nat (fst e) = asset_code_XDR L \<longleftrightarrow> fst e = x" "of_nat (fst e) = asset_code_MILE L \<longleftrightarrow> fst e = m" "x \<noteq> m"
    using assms(2) code_word [OF c(1), of "asset_code_XDR L"] code_word [OF c(1), of "asset_code_MILE L"] by (simp_all add: codes_def)
  show ?case
    using c w Cons.IH assms(4)
    by (auto simp: nlohmann_json.json_laws [OF assms(1)] stoi_to_string [OF c(1)] Let_def holding_def)
qed

lemma top_filter_value:
  assumes "nlohmann_json L" "codes L x m" "list_all2 wallet_view rs vs"
  shows "top_filter L rs (xs, ms) = Inr (xs @ holdings x vs, ms @ holdings m vs)"
  using assms(3)
proof (induction rs vs arbitrary: xs ms rule: list_all2_induct)
  case Nil
  then show ?case by (simp add: holdings_def)
next
  case (Cons r rs v vs)
  show ?case
  proof (cases "field r ''balance''")
    case None
    with Cons show ?thesis by (simp add: wallet_view_def holdings_def holding_def)
  next
    case (Some b)
    with Cons.hyps(1) have "field r ''id'' = Some (JStr (fst v))" "list_all2 coin_view (items b) (snd v)"
      by (simp_all add: wallet_view_def)
    with coins_value [OF assms(1,2) this(2,1)] Cons.IH Some show ?thesis
      by (simp add: nlohmann_json.json_laws [OF assms(1)] holdings_def)
  qed
qed

text \<open>The richest of a list in the rows of their positions.\<close>

definition top_listed :: "row_map \<Rightarrow> nat \<Rightarrow> mpair list \<Rightarrow> bool" where
  "top_listed t c v \<longleftrightarrow> (\<exists>top rest. mset v = mset (top @ rest) \<and> length top = min 1024 (length v)
     \<and> sorted_wrt (\<lambda>p q. amount_of q \<le> amount_of p) (top @ rest) \<and> (\<forall>k < length top. holds_place t (of_nat c) (of_nat k) (top ! k)))"

definition listable :: "mpair list \<Rightarrow> bool" where
  "listable v \<longleftrightarrow> (\<forall>p \<in> set v. readable p) \<and> distinct (map fst v) \<and> length v < 2 ^ 31"

lemma top_list_effect:
  assumes "explorer_env E (db_name d) rows" "std_sort srt" "listable v" "rows w t_wallets_top index_id_text = None"
  shows "\<exists>top w'. mslice srt v 0 1024 = Inr top \<and> top_update E d (of_nat c) top 0 w = (Inr (), w')
    \<and> top_listed (rows w' t_wallets_top) c v \<and> (\<forall>t. t \<noteq> t_wallets_top \<longrightarrow> rows w' t = rows w t)
    \<and> (\<forall>i. (\<forall>m. i \<noteq> top_key m (of_nat c)) \<longrightarrow> rows w' t_wallets_top i = rows w t_wallets_top i)"
proof -
  obtain ys where ys: "mslice srt v 0 1024 = Inr (take 1024 ys)" "mset ys = mset v" "sorted_wrt (\<lambda>p q. amount_of q \<le> amount_of p) ys"
    using mslice_value [OF assms(2)] assms(3) by (auto simp: listable_def)
  have "unat (0 :: uint64) + length (take 1024 ys) < 2 ^ 64" by simp
  from explorer_env.top_update_effect [OF assms(1) refl assms(4) this, of "of_nat c"] obtain w' where
    w': "top_update E d (of_nat c) (take 1024 ys) 0 w = (Inr (), w')" "\<forall>t. t \<noteq> t_wallets_top \<longrightarrow> rows w' t = rows w t"
      "\<forall>i. (\<forall>m. i \<noteq> top_key m (of_nat c)) \<longrightarrow> rows w' t_wallets_top i = rows w t_wallets_top i"
      "\<forall>k < length (take 1024 ys). holds_place (rows w' t_wallets_top) (of_nat c) (of_nat k) (take 1024 ys ! k)"
    by auto
  have "length ys = length v" using ys(2) mset_eq_length by blast
  then have "top_listed (rows w' t_wallets_top) c v"
    unfolding top_listed_def using ys(2,3) w'(4) by (intro exI [of _ "take 1024 ys"] exI [of _ "drop 1024 ys"]) auto
  with ys(1) w' show ?thesis by blast
qed

lemma top_listed_frame:
  assumes "top_listed t c v" "\<And>n. t' (top_key n (of_nat c)) = t (top_key n (of_nat c))"
  shows "top_listed t' c v"
  using assms unfolding top_listed_def holds_place_def by auto


definition sample_wallet :: "string \<Rightarrow> string \<Rightarrow> json" where
  "sample_wallet i a = obj [(''id'', JStr i), (''balance'', JArr [obj [(''code'', JStr ''0''), (''amount'', JStr a)]])]"

definition sample_wallets :: refdb where
  "sample_wallets = (\<lambda>_. [])(t_wallets_state := [sample_wallet ''a'' ''5'', sample_wallet ''b'' ''7''])"

lemma sample_ensure_table: "ensure_table sample_env sample_db w = (Inr (open_table sample_db t_wallets_top), w)"
  by (simp add: ensure_table_def has_table_def create_table_def has_index_def create_index_def bindP_def catch_reql_def catchP_def
      cursor_defs Let_def sample_env_def ref_env_run ref_error_def)

lemma sample_wallets_visible:
  "visible [sample_wallet ''a'' ''5'', sample_wallet ''b'' ''7''] = [sample_wallet ''a'' ''5'', sample_wallet ''b'' ''7'']"
  by code_simp

lemma sample_wallets_read:
  "get_data sample_env (table_cursor True (open_table sample_db t_wallets_state)) sample_wallets
    = (Inr (JArr [sample_wallet ''a'' ''5'', sample_wallet ''b'' ''7'']), sample_wallets)"
  by (simp add: get_data_def cursor_defs bindP_def catch_reql_def catchP_def sample_env_def ref_env_run sample_wallets_def
      sample_wallets_visible)


end
