(* ===== verification/Frames.thy ===== *)
theory Frames
  imports Fetcher Genesis Wallets_Top
begin

text \<open>
  Which tables an operation leaves as they are, for the operations of the indexer, whatever the data and
  whether they raise or not. The server is one whose reads change no row and whose writes change
  the table they name (\<open>reql_frames\<close>), and the calls of the node client do not write to the database.
\<close>

section \<open>Tables\<close>

lemma invP_on_db [inv_intros]: "invP P m \<Longrightarrow> invP (\<lambda>s. P (ps_world s)) (on_db m)"
  by (simp add: invP_def on_db_def split: prod.split) (metis snd_conv)

lemma invP_on_rpc [inv_intros]: "invP P m \<Longrightarrow> invP (\<lambda>s. P (rp_world s)) (on_rpc m)"
  by (simp add: invP_def on_rpc_def split: prod.split) (metis snd_conv)

lemma invP_on_node [inv_intros]: "invP P m \<Longrightarrow> invP (\<lambda>s. P (fs_rpc s)) (on_node m)"
  by (simp add: invP_def on_node_def split: prod.split) (metis snd_conv)

lemma invP_on_ss [inv_intros]: "invP P m \<Longrightarrow> invP (\<lambda>s. P (rp_world (ss_rpc s))) (on_ss m)"
  by (simp add: invP_def on_ss_def split: prod.split) (metis snd_conv)

text \<open>Queues and positions are no part of the database.\<close>

lemma invP_queues [inv_intros]:
  "invP (\<lambda>s. P (ps_world s)) (push_task t)"
  "invP (\<lambda>s. P (ps_world s)) (update_wallet_state k)"
  "invP (\<lambda>s. P (ps_world s)) (set_prev_bid b)"
  by (simp_all add: invP_def push_task_def update_wallet_state_def set_prev_bid_def)

text \<open>Reading the last block does not change the name of the database.\<close>

lemma bindP_last_block:
  "bindP (if c then bindP m (\<lambda>b. ret (d\<lparr>last_block_id := b\<rparr>)) else ret d) k
    = (if c then bindP m (\<lambda>b. k (d\<lparr>last_block_id := b\<rparr>)) else k d)"
  by (auto simp: bindP_def fun_eq_iff split: prod.splits sum.splits)

context reql_frames
begin

lemma keeps_row: "(\<And>v. invP (\<lambda>w. rows w t = v) m) \<Longrightarrow> invP (\<lambda>w. rows w t i = Some r) m"
  by (simp add: invP_def)

lemma keeps_run: "reads_only q \<Longrightarrow> invP (\<lambda>w. rows w t = v) (reql_run E q)"
  by (simp add: invP_def read_frame)

lemma keeps_get_data [inv_intros]: "reads_only (cur_term c) \<Longrightarrow> invP (\<lambda>w. rows w t = v) (get_data E c)"
  unfolding get_data_def catch_reql_def by (intro inv_intros keeps_run)

lemma keeps_get_number [inv_intros]: "reads_only (cur_term c) \<Longrightarrow> invP (\<lambda>w. rows w t = v) (get_number E c)"
  unfolding get_number_def catch_reql_def by (intro inv_intros keeps_run)

lemma keeps_get_all_is_empty [inv_intros]: "invP (\<lambda>w. rows w t = v) (get_all_is_empty E i (open_table d n))"
  unfolding get_all_is_empty_def
  by (rule invP_bindP) (auto simp: cursor_defs intro!: inv_intros keeps_run split: json.split)

lemma keeps_insert [inv_intros]:
  "db_name d = dbn \<Longrightarrow> t \<noteq> n \<Longrightarrow> invP (\<lambda>w. rows w t = v) (table_insert E data (open_table d n))"
  unfolding table_insert_def catch_reql_def
  by (intro inv_intros) (simp add: invP_def cursor_defs insert_frame)

lemma keeps_update [inv_intros]:
  "db_name d = dbn \<Longrightarrow> t \<noteq> n \<Longrightarrow> invP (\<lambda>w. rows w t = v) (table_update E data (open_table d n))"
  unfolding table_update_def catch_reql_def
  by (intro inv_intros) (simp_all add: invP_def cursor_defs insert_frame update_frame)

lemma keeps_update_columns [inv_intros]:
  "db_name d = dbn \<Longrightarrow> t \<noteq> n \<Longrightarrow> invP (\<lambda>w. rows w t = v) (table_update_columns E i data (open_table d n))"
  unfolding table_update_columns_def catch_reql_def
  by (intro inv_intros) (simp_all add: invP_def cursor_defs insert_frame update_frame set_union_func_def)

lemma grows_insert [inv_intros]:
  "db_name d = dbn \<Longrightarrow> invP (\<lambda>w. rows w t i = Some r) (table_insert E data (open_table d t))"
  unfolding table_insert_def catch_reql_def
proof (intro inv_intros)
  assume d: "db_name d = dbn"
  have "rows w t \<subseteq>\<^sub>m rows (snd (reql_run E (R_INSERT (R_TABLE (R_DB dbn) t False) (R_JSON data) False) w)) t" for w
    by (rule insert_grows) simp
  then show "invP (\<lambda>w. rows w t i = Some r) (reql_run E (R_INSERT (tab_query (open_table d t) False) (R_JSON data) False))"
    by (simp add: invP_def cursor_defs d) (metis domI map_le_def)
qed

lemma keeps_remove [inv_intros]:
  "db_name d = dbn \<Longrightarrow> t \<noteq> n \<Longrightarrow> invP (\<lambda>w. rows w t = v) (cursor_remove_id E i (table_cursor od (open_table d n)))"
  unfolding cursor_remove_id_def catch_reql_def
  by (intro inv_intros) (simp_all add: invP_def cursor_defs delete_frame)

lemma keeps_cursor_remove:
  "base_table (cur_term c) \<noteq> t \<Longrightarrow> reads_only (cur_term c) \<Longrightarrow> invP (\<lambda>w. rows w t = v) (cursor_remove E c)"
  unfolding cursor_remove_def catch_reql_def
  by (intro inv_intros) (simp_all add: invP_def delete_frame)

section \<open>Opening\<close>

lemma keeps_version:
  assumes "db_name d = dbn" "t \<noteq> t_meta"
  shows "invP (\<lambda>w. rows w t = v) (get_version E d)" "invP (\<lambda>w. rows w t = v) (update_version E d n)"
  using assms unfolding get_version_def update_version_def catch_reql_def
  by (intro inv_intros; simp add: cursor_defs)+

lemma keeps_migration:
  assumes "db_name d = dbn" "t \<notin> {t_meta, t_transactions_processing}"
  shows "invP (\<lambda>w. rows w t = v) (migration E n d)"
  using assms unfolding migration_def get_last_processed_block_id_def m127_def catch_reql_def
  by (intro inv_intros keeps_version keeps_cursor_remove) (auto simp: cursor_defs)

lemma keeps_db_init:
  assumes "db_name d = dbn" "t \<notin> {t_meta, t_transactions_processing}"
  shows "invP (\<lambda>w. rows w t = v) (db_init E n d)"
  using assms unfolding db_init_def bindP_last_block has_table_def create_table_def has_index_def create_index_def get_last_block_id_def catch_reql_def
  by (intro inv_intros keeps_run keeps_migration) (auto simp: cursor_defs intro!: inv_intros split: json.split)

section \<open>Transactions and blocks\<close>

lemma keeps_stream_entries:
  "invP (\<lambda>w. rows w t = v) (stream_entries E d i ts entries trx out n)"
  by (induction entries arbitrary: trx out n) (auto simp: cursor_defs intro!: inv_intros)

lemma keeps_stream_all: "invP (\<lambda>w. rows w t = v) (stream_all E d trxs b ts out)"
  by (induction trxs arbitrary: out)
    (auto simp: add_stream_transaction_def intro!: inv_intros keeps_stream_entries)

lemma keeps_add_wallet_transaction:
  "db_name d = dbn \<Longrightarrow> t \<noteq> t_wallets \<Longrightarrow> invP (\<lambda>s. rows (ps_world s) t = v) (add_wallet_transaction E d trx b ts)"
  unfolding add_wallet_transaction_def by (intro inv_intros) auto

lemma keeps_run_task:
  assumes "db_name d = dbn" "t \<noteq> t_wallets" "t \<noteq> t_transactions_processing"
  shows "invP (\<lambda>s. rows (ps_world s) t = v) (run_task E d k)"
  using assms by (cases k) (auto intro!: inv_intros keeps_add_wallet_transaction keeps_stream_all)

text \<open>No task removes or changes a waiting transaction.\<close>

lemma grows_run_task:
  assumes "db_name d = dbn"
  shows "invP (\<lambda>s. rows (ps_world s) t_transactions_processing i = Some r) (run_task E d k)"
proof (cases k)
  case (Wallet_task trxs b ts)
  have "invP (\<lambda>s. rows (ps_world s) t_transactions_processing = v) (run_task E d k)" for v
    unfolding Wallet_task run_task.simps
    using assms by (intro inv_intros keeps_add_wallet_transaction) (auto simp: table_names)
  then show ?thesis by (simp add: invP_def)
next
  case (Stream_task trxs b ts)
  have "invP (\<lambda>w. rows w t_transactions_processing i = Some r) (stream_all E d (items trxs) b ts JNull)"
    by (rule keeps_row, rule keeps_stream_all)
  then show ?thesis
    unfolding Stream_task run_task.simps
    by (intro inv_intros invP_on_db [where P = "\<lambda>w. rows w t_transactions_processing i = Some r"] assms)
qed

lemma keeps_transactions_pass:
  assumes "db_name d = dbn" "t \<notin> {t_transactions, t_transactions_state, t_transactions_processing}"
  shows "invP (\<lambda>s. rows (ps_world s) t = v) (transactions_pass E d)"
proof -
  have item: "invP (\<lambda>s. rows (ps_world s) t = v) (trx_item E d x n)" for x n
    using assms unfolding trx_item_def index_item_def skip_marker_def remove_processing_def update_state_def
    by (intro inv_intros) (auto simp: cursor_defs)
  have "invP (\<lambda>s. rows (ps_world s) t = v) (trx_items E d xs n)" for xs n
    by (induction xs arbitrary: n) (auto intro!: inv_intros item split: trx_next.split)
  then show ?thesis
    using assms unfolding transactions_pass_def read_count_def update_state_def get_transaction_history_state_def
    by (intro inv_intros) (auto simp: cursor_defs)
qed

lemma keeps_blocks_pass:
  assumes "db_name d = dbn" "t \<notin> {t_blocks, t_blocks_processing, t_transactions_processing}"
  shows "invP (\<lambda>s. rows (ps_world s) t = v) (blocks_pass E d)"
proof -
  have item: "invP (\<lambda>s. rows (ps_world s) t = v) (block_item E d x)" for x
    using assms unfolding block_item_def block_changes_def add_transactions_def get_prev_bid_def
    by (intro inv_intros) (auto simp: cursor_defs)
  have "invP (\<lambda>s. rows (ps_world s) t = v) (block_items E d xs)" for xs
    by (induction xs) (simp_all only: block_items.simps invP_basic invP_bindP [OF item] invP_branches)
  then show ?thesis
    using assms unfolding blocks_pass_def by (intro inv_intros) (auto simp: cursor_defs)
qed

lemma grows_blocks_pass:
  assumes "db_name d = dbn"
  shows "invP (\<lambda>s. rows (ps_world s) t_transactions_processing i = Some r) (blocks_pass E d)"
proof -
  let ?P = "\<lambda>w. rows w t_transactions_processing i = Some r"
  have get: "invP ?P (get_data E c)" if "reads_only (cur_term c)" for c
    by (rule keeps_row, rule keeps_get_data [OF that])
  have prev: "invP ?P (get_prev_bid E d)"
    by (rule keeps_row) (auto simp: get_prev_bid_def cursor_defs intro!: inv_intros)
  have ins: "invP ?P (table_insert E x (open_table d t_blocks))" for x
    by (rule keeps_row, rule keeps_insert, rule assms, simp add: table_names)
  have rem: "invP ?P (cursor_remove_id E k (table_cursor True (open_table d t_blocks_processing)))" for k
    by (rule keeps_row, rule keeps_remove, rule assms, simp add: table_names)
  have item: "invP (\<lambda>s. ?P (ps_world s)) (block_item E d x)" for x
    unfolding block_item_def block_changes_def add_transactions_def
    by (intro inv_intros invP_on_db [where P = ?P] get prev ins rem grows_insert assms) (auto simp: cursor_defs)
  have "invP (\<lambda>s. ?P (ps_world s)) (block_items E d xs)" for xs
    by (induction xs) (simp_all only: block_items.simps invP_basic invP_bindP [OF item] invP_branches)
  then show ?thesis
    unfolding blocks_pass_def
    by (intro inv_intros invP_on_db [where P = ?P] get) (auto simp: cursor_defs)
qed

lemma keeps_add_block:
  "db_name d = dbn \<Longrightarrow> t \<noteq> t_blocks_processing \<Longrightarrow> invP (\<lambda>w. rows w t = v) (add_block E ind d block i)"
  unfolding add_block_def catch_logged_def by (intro inv_intros) (auto simp: cursor_defs)

lemma keeps_update_genesis:
  assumes "db_name d = dbn" "t \<notin> {t_wallets, t_genesis_transactions}"
  shows "invP (\<lambda>s. rows (ps_world s) t = v) (update_genesis E d g)"
proof -
  have "invP (\<lambda>s. rows (ps_world s) t = v) (genesis_items E d xs n)" for xs n
    using assms by (induction xs arbitrary: n) (auto intro!: inv_intros keeps_add_wallet_transaction)
  then show ?thesis
    unfolding update_genesis_def update_wallets_state_def by (intro inv_intros) (auto simp: cursor_defs)
qed

section \<open>Statistics\<close>

lemma keeps_turnover_24:
  "db_name d = dbn \<Longrightarrow> t \<noteq> t_turnovers \<Longrightarrow> invP (\<lambda>w. rows w t = v) (turnover_24 E d ts)"
  unfolding turnover_24_def by (intro inv_intros) (auto simp: cursor_defs)

lemma keeps_turnover_trx:
  "db_name d = dbn \<Longrightarrow> t \<noteq> t_transaction_turnover \<Longrightarrow> invP (\<lambda>w. rows w t = v) (turnover_trx E d ts)"
  unfolding turnover_trx_def by (intro inv_intros) (auto simp: cursor_defs)

lemma keeps_wallets_top_upd:
  assumes "db_name d = dbn" "t \<noteq> t_wallets_top"
  shows "invP (\<lambda>w. rows w t = v) (wallets_top_upd E d ts)"
proof -
  have table: "invP (\<lambda>w. rows w t = v) (insert_with_replace E j tb)" if "tb = open_table d t_wallets_top" for j tb
    using assms unfolding that insert_with_replace_def catch_reql_def
    by (intro inv_intros) (simp add: invP_def cursor_defs insert_frame)
  have start: "invP (\<lambda>w. rows w t = v) (ensure_table E d)"
    unfolding ensure_table_def has_table_def create_table_def has_index_def create_index_def catch_reql_def
    by (intro inv_intros keeps_run) (auto simp: cursor_defs intro!: inv_intros split: json.split)
  have read: "invP (\<lambda>w. rows w t = v) (get_data E (wallets_top_query E d))"
    by (intro inv_intros) (simp add: wallets_top_query_def cursor_defs Let_def get_raw_object_def
        position_increaser_def get_resulted_object_def)
  have "invP (\<lambda>w. rows w t = v) (bindP (get_data E (wallets_top_query E d)) (\<lambda>j. insert_with_replace E j (open_table d t_wallets_top)))"
    by (intro inv_intros read table refl)
  moreover have "ensure_table E d w = (Inr tb, w') \<Longrightarrow> tb = open_table d t_wallets_top" for w tb w'
    by (auto simp: ensure_table_def bindP_def Let_def split: prod.splits sum.splits)
  ultimately show ?thesis
    using start unfolding wallets_top_upd_def invP_def bindP_def [of "ensure_table E d"]
    by (auto split: prod.split sum.split)
qed

lemma keeps_statistics_round:
  assumes "\<And>nm ts. nm \<in> set storage \<Longrightarrow> invP (\<lambda>w. rows w t = v) (snd nm d ts)"
  shows "invP (\<lambda>w. rows w t = v) (statistics_round E d storage)"
  using assms unfolding statistics_round_def get_block_history_state_def
  by (intro inv_intros) (auto simp: cursor_defs)

section \<open>The network\<close>

lemma keeps_update_info:
  "db_name d = dbn \<Longrightarrow> t \<noteq> t_blockchain_info \<Longrightarrow> invP (\<lambda>w. rows w t = v) (update_info E d j)"
  unfolding update_info_def by (intro inv_intros)

lemma keeps_add_node_states:
  "db_name d = dbn \<Longrightarrow> t \<notin> {t_node_states, t_node_wallets} \<Longrightarrow> invP (\<lambda>w. rows w t = v) (add_node_states E d ns b)"
  unfolding add_node_states_def store_node_def by (intro inv_intros) auto

end

section \<open>The node client\<close>

text \<open>
  The calls of the client do not change the database, and a block that a node sends carries its number
  and a time as texts.
\<close>

definition block_answer :: "uint256 \<Rightarrow> json \<Rightarrow> bool" where
  "block_answer i b \<longleftrightarrow> field b ''id'' = Some (JStr (to_string (unat i)))
     \<and> (\<exists>ts. field b ''timestamp'' = Some (JStr ts))"

locale indexer_env = explorer_env E dbn rows + reql_frames E dbn rows
  for E :: "('w, 'e) genesis_env_scheme" and dbn :: string and rows :: "'w \<Rightarrow> string \<Rightarrow> row_map" +
  assumes connect_frame: "rows (snd (rpc_connect E u w)) = rows w"
    and current_frame: "rows (snd (rpc_get_current_block_id E u w)) = rows w"
    and block_frame: "rows (snd (rpc_get_block E u i w)) = rows w"
    and info_frame: "rows (snd (rpc_get_blockchain_info E u w)) = rows w"
    and nodes_frame: "rows (snd (rpc_get_nodes E u w)) = rows w"
    and wallet_frame: "rows (snd (rpc_get_wallet_state E u k w)) = rows w"
    and http_frame: "rows (snd (http_get E u w)) = rows w"
    and block_sent: "rpc_get_block E u i w = (Inr (Some j), w') \<Longrightarrow> field j ''block-data'' = Some b \<Longrightarrow> block_answer i b"
begin

lemma keeps_client [inv_intros]:
  "invP (\<lambda>w. rows w t = v) (rpc_connect E u)" "invP (\<lambda>w. rows w t = v) (rpc_get_current_block_id E u)"
  "invP (\<lambda>w. rows w t = v) (rpc_get_block E u i)" "invP (\<lambda>w. rows w t = v) (rpc_get_blockchain_info E u)"
  "invP (\<lambda>w. rows w t = v) (rpc_get_nodes E u)" "invP (\<lambda>w. rows w t = v) (rpc_get_wallet_state E u k)"
  "invP (\<lambda>w. rows w t = v) (http_get E u)"
  by (simp_all add: invP_def connect_frame current_frame block_frame info_frame nodes_frame wallet_frame http_frame)

lemma keeps_get_rpc [inv_intros]: "invP (\<lambda>s. rows (rp_world s) t = v) (get_rpc E urls)"
  unfolding get_rpc_def by (intro inv_intros) simp

lemma keeps_connect: "invP (\<lambda>w. rows w t = v) (fetcher_connect E urls n d)"
proof -
  have "invP (\<lambda>w. rows w t = v) (count_clients E us)" for us
    by (induction us) (simp_all only: count_clients.simps, intro inv_intros, intro inv_intros)
  then show ?thesis unfolding fetcher_connect_def by (intro inv_intros)
qed

lemma keeps_block_attempt: "invP (\<lambda>s. rows (rp_world s) t = v) (block_attempt E urls i)"
  unfolding block_attempt_def by (intro inv_intros)

lemma keeps_main_round: "invP (\<lambda>s. rows (rp_world (fs_rpc s)) t = v) (main_round E f)"
  unfolding main_round_def
  by (intro inv_intros invP_on_node [where P = "\<lambda>p. rows (rp_world p) t = v"]) auto

lemma keeps_wallet_task:
  "db_name d = dbn \<Longrightarrow> t \<noteq> t_wallets_state \<Longrightarrow> invP (\<lambda>s. rows (rp_world s) t = v) (wallet_state_task E d urls n k)"
  unfolding wallet_state_task_def wallet_state_attempt_def by (intro inv_intros)

lemma keeps_states_round:
  assumes "db_name (fc_db f) = dbn" "t \<notin> {t_blockchain_info, t_node_states, t_node_wallets}"
  shows "invP (\<lambda>s. rows (rp_world (ss_rpc s)) t = v) (states_round E f)"
proof -
  have "invP (\<lambda>s. rows (rp_world (ss_rpc s)) t = v) (ss_get_rpc E urls)" for urls
    using keeps_get_rpc [where urls = urls and t = t and v = v] by (simp add: invP_def ss_get_rpc_def split: prod.split) (metis snd_conv)
  then show ?thesis
    using assms unfolding states_round_def info_part_def nodes_part_def
    by (intro inv_intros keeps_update_info keeps_add_node_states) auto
qed

lemma keeps_genesis_attempt:
  assumes "db_name d = dbn" "t \<notin> {t_wallets, t_genesis_transactions}" "invP (\<lambda>s. rows (ps_world s) t = v) unset"
  shows "invP (\<lambda>s. rows (ps_world s) t = v) (genesis_attempt E unset d url)"
  using assms unfolding genesis_attempt_def
  by (intro inv_intros keeps_update_genesis) auto

text \<open>What the storing task gets is what a node sent.\<close>

lemma block_attempt_sent:
  assumes "block_attempt E urls i p = (Inr (Some b), p')"
  shows "block_answer i b"
proof -
  obtain u w j w' where j: "rpc_get_block E u i w = (Inr (Some j), w')" "jl_at E j ''block-data'' = Inr b"
    "count_key j ''block-data'' \<noteq> 0"
    using assms unfolding block_attempt_def
    by (auto simp: catchP_def bindP_def on_rpc_def split: prod.splits sum.splits option.splits if_splits)
  then have "field j ''block-data'' = Some b"
    using at_member [of j "''block-data''"] by (cases "field j ''block-data''") auto
  with j(1) show ?thesis by (rule block_sent)
qed

end

end
