(* ===== verification/Indexer.thy ===== *)
theory Indexer
  imports Frames
begin

text \<open>
  The running indexer: the fetcher, the two workers, the dispatched tasks, the task of the genesis file, the
  loop over the states of the network and the statistics loop, which \<^verbatim>\<open>Fetcher::run\<close> (\<^verbatim>\<open>common/src/fetcher.cpp\<close>) and
  \<^verbatim>\<open>Db::init\<close> (\<^verbatim>\<open>common/src/db/db.cpp\<close>) start, over one database. A step is a step of the fetcher, a round of one of the
  loops or one task; the steps come in any order.
\<close>

section \<open>State and steps\<close>

record 'w indexer =
  in_fetch :: "'w fstate"
  in_tasks :: "task list" \<comment> \<open>\<^verbatim>\<open>transactions_queue_\<close>\<close>
  in_wallets :: "string list" \<comment> \<open>\<^verbatim>\<open>state_queue\<close>\<close>
  in_prev_bid :: uint64 \<comment> \<open>of the transactions worker\<close>
  in_block :: uint256 \<comment> \<open>of the loop over the states of the network\<close>
  in_info :: bool
  in_genesis :: bool \<comment> \<open>the task of the genesis file has ended\<close>

definition in_world :: "'w indexer \<Rightarrow> 'w" where
  "in_world s = rp_world (fs_rpc (in_fetch s))"

definition put_rpc :: "'w rstate \<Rightarrow> 'w indexer \<Rightarrow> 'w indexer" where
  "put_rpc p s = s\<lparr>in_fetch := (in_fetch s)\<lparr>fs_rpc := p\<rparr>\<rparr>"

definition put_world :: "'w \<Rightarrow> 'w indexer \<Rightarrow> 'w indexer" where
  "put_world w s = put_rpc ((fs_rpc (in_fetch s))\<lparr>rp_world := w\<rparr>) s"

text \<open>The part of the state the workers and tasks see, and the part of the loop over the states.\<close>

definition worker :: "'w indexer \<Rightarrow> 'w pstate" where
  "worker s = \<lparr>ps_world = in_world s, ps_tasks = in_tasks s, ps_wallets = in_wallets s, ps_prev_bid = in_prev_bid s\<rparr>"

definition put_worker :: "'w pstate \<Rightarrow> 'w indexer \<Rightarrow> 'w indexer" where
  "put_worker p s = put_world (ps_world p)
     (s\<lparr>in_tasks := ps_tasks p, in_wallets := ps_wallets p, in_prev_bid := ps_prev_bid p\<rparr>)"

definition states_part :: "'w indexer \<Rightarrow> 'w sstate" where
  "states_part s = \<lparr>ss_rpc = fs_rpc (in_fetch s), ss_block = in_block s, ss_info = in_info s\<rparr>"

definition put_states :: "'w sstate \<Rightarrow> 'w indexer \<Rightarrow> 'w indexer" where
  "put_states q s = put_rpc (ss_rpc q) (s\<lparr>in_block := ss_block q, in_info := ss_info q\<rparr>)"

lemma in_world_put [simp]:
  "in_world (put_rpc p s) = rp_world p" "in_world (put_world w s) = w" "in_world (put_worker q s) = ps_world q"
  "in_world (put_states r s) = rp_world (ss_rpc r)" "ps_world (worker s) = in_world s"
  "rp_world (ss_rpc (states_part s)) = in_world s"
  by (simp_all add: in_world_def put_rpc_def put_world_def put_worker_def put_states_def worker_def states_part_def)

lemma in_world_upd [simp]:
  "in_world (s\<lparr>in_tasks := ts\<rparr>) = in_world s" "in_world (s\<lparr>in_wallets := ks\<rparr>) = in_world s"
  "in_world (s\<lparr>in_genesis := g\<rparr>) = in_world s" "in_world (s\<lparr>in_fetch := F\<rparr>) = rp_world (fs_rpc F)"
  by (simp_all add: in_world_def)

text \<open>What the fetcher has queued and where it is; the other parts do not touch it.\<close>

definition fetch_view :: "'w indexer \<Rightarrow> uint256 \<times> uint256 list \<times> bool \<times> (uint256 \<times> uint256) list \<times> uint256 list \<times> (json \<times> uint256) list" where
  "fetch_view s = (let F = in_fetch s in
     (fs_first F, fs_ranges F, fs_active F, fs_running F, fs_requests F, fs_store F))"

lemma fetch_view_put [simp]:
  "fetch_view (put_rpc p s) = fetch_view s" "fetch_view (put_world w s) = fetch_view s"
  "fetch_view (put_worker q s) = fetch_view s" "fetch_view (put_states r s) = fetch_view s"
  "fetch_view (s\<lparr>in_tasks := ts\<rparr>) = fetch_view s" "fetch_view (s\<lparr>in_wallets := ks\<rparr>) = fetch_view s"
  "fetch_view (s\<lparr>in_genesis := g\<rparr>) = fetch_view s"
  by (simp_all add: fetch_view_def put_rpc_def put_world_def put_worker_def put_states_def Let_def)

datatype ievent =
    Fetch fevent
  | Blocks_round
  | Transactions_round
  | Run_task task
  | Run_wallet string
  | States_round
  | Run_genesis
  | Statistics_round

record 'w indexer_config =
  ic_fetcher :: fetcher
  ic_storage :: "(string \<times> 'w statistic_method) list" \<comment> \<open>the registered statistics\<close>
  ic_genesis_url :: string
  ic_time :: "string \<Rightarrow> time_t" \<comment> \<open>the time read from an unreadable text\<close>
  ic_unset :: "('w pstate, json) prog" \<comment> \<open>reading an unset optional\<close>

abbreviation "ic_db C \<equiv> fc_db (ic_fetcher C)"

inductive indexer_step ::
  "('w, 'e) genesis_env_scheme \<Rightarrow> 'w indexer_config \<Rightarrow> 'w indexer \<Rightarrow> ievent \<Rightarrow> 'w indexer \<Rightarrow> bool"
  for E C where
  fetch: "fetch_step E (ic_time C) (ic_fetcher C) (in_fetch s) e F \<Longrightarrow>
    indexer_step E C s (Fetch e) (s\<lparr>in_fetch := F\<rparr>)"
| blocks: "blocks_pass E (ic_db C) (worker s) = (r, q) \<Longrightarrow> indexer_step E C s Blocks_round (put_worker q s)"
| transactions: "transactions_pass E (ic_db C) (worker s) = (r, q) \<Longrightarrow>
    indexer_step E C s Transactions_round (put_worker q s)"
| run_task: "in_tasks s = xs @ k # ys \<Longrightarrow>
    Transactions.run_task E (ic_db C) k (worker (s\<lparr>in_tasks := xs @ ys\<rparr>)) = (r, q) \<Longrightarrow>
    indexer_step E C s (Run_task k) (put_worker q s)"
| run_wallet: "in_wallets s = xs @ k # ys \<Longrightarrow>
    wallet_state_task E (ic_db C) (fc_urls (ic_fetcher C)) n k (fs_rpc (in_fetch s)) = (Inr r, p) \<Longrightarrow>
    indexer_step E C s (Run_wallet k)
      (put_rpc p (s\<lparr>in_wallets := (case r of None \<Rightarrow> in_wallets s | Some _ \<Rightarrow> xs @ ys)\<rparr>))"
| states: "states_round E (ic_fetcher C) (states_part s) = (r, q) \<Longrightarrow>
    indexer_step E C s States_round (put_states q s)"
| genesis: "\<not> in_genesis s \<Longrightarrow>
    genesis_attempt E (ic_unset C) (ic_db C) (ic_genesis_url C) (worker s) = (r, q) \<Longrightarrow>
    indexer_step E C s Run_genesis (put_worker q (s\<lparr>in_genesis := (r = Inr (Some ()))\<rparr>))"
| statistics: "statistics_round E (ic_db C) (ic_storage C) (in_world s) = (r, w) \<Longrightarrow>
    indexer_step E C s Statistics_round (put_world w s)"

text \<open>A run with the states it goes through, the last one left out.\<close>

inductive indexer_run ::
  "('w, 'e) genesis_env_scheme \<Rightarrow> 'w indexer_config \<Rightarrow> 'w indexer \<Rightarrow> 'w indexer list \<Rightarrow> 'w indexer \<Rightarrow> bool"
  for E C s0 where
  started: "indexer_run E C s0 [] s0"
| stepped: "indexer_run E C s0 ss s \<Longrightarrow> indexer_step E C s e s' \<Longrightarrow> indexer_run E C s0 (ss @ [s]) s'"

text \<open>The indexer after its start at a block.\<close>

definition indexer_start :: "'w fstate \<Rightarrow> 'w indexer" where
  "indexer_start F = \<lparr>in_fetch = F, in_tasks = [], in_wallets = [], in_prev_bid = 0, in_block = 0, in_info = False,
     in_genesis = False\<rparr>"

section \<open>Which step changes which table\<close>

text \<open>The tables the properties are about, and what is assumed of registered statistics and of an unset optional.\<close>

definition watched :: "string set" where
  "watched = {t_blocks, t_blocks_processing, t_transactions, t_transactions_state, t_transactions_processing}"

definition harmless :: "('w \<Rightarrow> string \<Rightarrow> row_map) \<Rightarrow> 'w indexer_config \<Rightarrow> bool" where
  "harmless rows C \<longleftrightarrow> (\<forall>t \<in> watched. \<forall>v.
     (\<forall>nm \<in> set (ic_storage C). \<forall>ts. invP (\<lambda>w. rows w t = v) (snd nm (ic_db C) ts))
     \<and> invP (\<lambda>s. rows (ps_world s) t = v) (ic_unset C))"

lemma watched_names:
  assumes "t \<in> watched"
  shows "t \<notin> {t_wallets, t_genesis_transactions, t_wallets_state, t_blockchain_info, t_node_states, t_node_wallets,
    t_turnovers, t_transaction_turnover, t_wallets_top}"
  using assms by (auto simp: watched_def table_names t_wallets_top_def)

context indexer_env
begin

text \<open>The registered methods of the program are harmless.\<close>

lemma registered_harmless:
  assumes "db_name (ic_db C) = dbn" "ic_storage C = registered E" "ic_unset C = raise e"
  shows "harmless rows C"
  unfolding harmless_def
proof (intro ballI allI conjI)
  fix t v nm ts
  assume t: "t \<in> watched" and "nm \<in> set (ic_storage C)"
  then have "snd nm \<in> {turnover_24 E, turnover_trx E, wallets_top_upd E}"
    using assms(2) by (auto simp: registered_def)
  then show "invP (\<lambda>w. rows w t = v) (snd nm (ic_db C) ts)"
    using keeps_turnover_24 [OF assms(1)] keeps_turnover_trx [OF assms(1)] keeps_wallets_top_upd [OF assms(1)]
      watched_names [OF t] by auto
qed (simp add: assms(3) inv_intros)

lemma fetch_step_tables:
  assumes "fetch_step E ind f s e s'" "db_name (fc_db f) = dbn"
    and "t \<noteq> t_blocks_processing \<or> (\<forall>b i. e \<noteq> Stored b i)"
  shows "rows (rp_world (fs_rpc s')) t = rows (rp_world (fs_rpc s)) t"
  using assms(1)
proof (cases rule: fetch_step.cases)
  case (main r)
  with invPD [OF keeps_main_round main(2)] show ?thesis by blast
next
  case (retry i p)
  with invPD [OF keeps_block_attempt retry(4)] show ?thesis by simp
next
  case (fetched xs i ys block p)
  with invPD [OF keeps_block_attempt fetched(4)] show ?thesis by simp
next
  case (stored xs block i ys r)
  then have t: "t \<noteq> t_blocks_processing" using assms(3) by auto
  have "invP (\<lambda>s. rows (rp_world (fs_rpc s)) t = v) (store_block E ind f block i)" for v
    unfolding store_block_def
    by (intro inv_intros invP_on_node [where P = "\<lambda>p. rows (rp_world p) t = v"] keeps_add_block assms(2) t)
  from invPD [OF this stored(3)] show ?thesis by simp
qed simp_all

lemma quiet_step:
  assumes "indexer_step E C s e s'" "db_name (ic_db C) = dbn" "harmless rows C" "t \<in> watched"
    and "e = Transactions_round \<Longrightarrow> t \<in> {t_blocks, t_blocks_processing}"
    and "e = Blocks_round \<Longrightarrow> t \<in> {t_transactions, t_transactions_state}"
    and "t = t_blocks_processing \<Longrightarrow> \<forall>b i. e \<noteq> Fetch (Stored b i)"
    and "t = t_transactions_processing \<Longrightarrow> \<forall>k. e \<noteq> Run_task k"
  shows "rows (in_world s') t = rows (in_world s) t"
  using assms(1)
proof (cases rule: indexer_step.cases)
  case (fetch e F)
  with fetch_step_tables [OF fetch(3) assms(2), of t] assms(7) show ?thesis by (auto simp: in_world_def)
next
  case (blocks r q)
  with assms(6) have "t \<notin> {t_blocks, t_blocks_processing, t_transactions_processing}" by (auto simp: table_names)
  from invPD [OF keeps_blocks_pass [OF assms(2) this] blocks(3)] blocks(2) show ?thesis by simp
next
  case (transactions r q)
  with assms(5) have "t \<notin> {t_transactions, t_transactions_state, t_transactions_processing}" by (auto simp: table_names)
  from invPD [OF keeps_transactions_pass [OF assms(2) this] transactions(3)] transactions(2) show ?thesis by simp
next
  case (run_task xs k ys r q)
  then have "t \<noteq> t_wallets" "t \<noteq> t_transactions_processing"
    using watched_names [OF assms(4)] assms(8) by auto
  from invPD [OF keeps_run_task [OF assms(2) this] run_task(4)] run_task(2) show ?thesis by simp
next
  case (run_wallet xs k ys n r p)
  have "t \<noteq> t_wallets_state" using watched_names [OF assms(4)] by simp
  from invPD [OF keeps_wallet_task [OF assms(2) this] run_wallet(4)] run_wallet(2) show ?thesis
    by (simp add: in_world_def [of s])
next
  case (states r q)
  have "t \<notin> {t_blockchain_info, t_node_states, t_node_wallets}" using watched_names [OF assms(4)] by simp
  from invPD [OF keeps_states_round [OF assms(2) this] states(3)] states(2) show ?thesis by simp
next
  case (genesis r q)
  have "t \<notin> {t_wallets, t_genesis_transactions}" using watched_names [OF assms(4)] by simp
  moreover have "invP (\<lambda>s. rows (ps_world s) t = v) (ic_unset C)" for v
    using assms(3,4) by (simp add: harmless_def)
  ultimately show ?thesis
    using invPD [OF keeps_genesis_attempt [OF assms(2)] genesis(4)] genesis(2) by simp
next
  case (statistics r w)
  have "invP (\<lambda>w. rows w t = v) (statistics_round E (ic_db C) (ic_storage C))" for v
    using assms(3,4) by (intro keeps_statistics_round) (simp add: harmless_def)
  from invPD [OF this statistics(3)] statistics(2) show ?thesis by simp
qed

end

section \<open>Storing what a node sent\<close>

context explorer_env
begin

lemma add_block_large:
  assumes "db_name d = dbn" "2 ^ 64 \<le> unat i"
  shows "rows (snd (add_block E ind d b i w)) = rows w"
proof -
  let ?i = "to_string (unat i)"
  obtain v where g: "get_data E (cursor_get ?i None (table_cursor True (open_table d t_blocks_processing))) w = (Inr v, w)"
    using get_data_row [OF assms(1)] by blast
  have "stoull ?i = Inl (Std_exception ''stoull: out_of_range'')" using assms(2) by (simp add: stoull_decimal)
  with g show ?thesis
    by (simp add: add_block_def catch_logged_def catchP_def dec256 Let_def bindP_def [of "get_data E _"])
qed

text \<open>A block that a node sent becomes a row of its number, unless the number is no 64 bit number or the row is there.\<close>

lemma add_block_answer:
  assumes "db_name d = dbn" "block_answer i b"
  shows "rows (snd (add_block E ind d b i w)) = rows w \<or>
    (\<exists>r. rows (snd (add_block E ind d b i w))
        = (rows w)(t_blocks_processing := (rows w t_blocks_processing)(to_string (unat i) \<mapsto> r))
      \<and> block_row (to_string (unat i)) r \<and> timed r)"
    and "unat i < 2 ^ 64 \<Longrightarrow> rows (snd (add_block E ind d b i w)) t_blocks_processing (to_string (unat i)) \<noteq> None"
proof -
  obtain m ts where m: "b = JObj m" "map_of m ''id'' = Some (JStr (to_string (unat i)))" "map_of m ''timestamp'' = Some (JStr ts)"
    using assms(2) by (cases b) (auto simp: block_answer_def)
  have v: "rows (snd (add_block E ind d b i w)) =
      (if rows w t_blocks_processing (to_string (unat i)) \<noteq> None then rows w
       else (rows w)(t_blocks_processing := (rows w t_blocks_processing)
         (to_string (unat i) \<mapsto> stored_block ind (clock E w) i m ts)))" if "unat i < 2 ^ 64"
    using add_block_value [OF assms(1) that m(2,3), of ind w] unfolding m(1) by (metis snd_conv)
  show "rows (snd (add_block E ind d b i w)) = rows w \<or>
    (\<exists>r. rows (snd (add_block E ind d b i w))
        = (rows w)(t_blocks_processing := (rows w t_blocks_processing)(to_string (unat i) \<mapsto> r))
      \<and> block_row (to_string (unat i)) r \<and> timed r)"
  proof (cases "unat i < 2 ^ 64")
    case True
    with v stored_block_row [OF True m(2)] show ?thesis by auto
  next
    case False
    with add_block_large [OF assms(1), of i ind b w] show ?thesis by simp
  qed
  show "rows (snd (add_block E ind d b i w)) t_blocks_processing (to_string (unat i)) \<noteq> None" if "unat i < 2 ^ 64"
    using v [OF that] by auto
qed

end

section \<open>The invariants\<close>

text \<open>The blocks waiting to be stored are as a node sent them.\<close>

definition store_ok :: "'w indexer \<Rightarrow> bool" where
  "store_ok s \<longleftrightarrow> (\<forall>(b, i) \<in> set (fs_store (in_fetch s)). block_answer i b)"

text \<open>There are numbers left for the waiting transactions.\<close>

definition room :: "tables \<Rightarrow> bool" where
  "room T \<longleftrightarrow> card (dom (T t_transactions)) + card (dom (T t_transactions_processing)) < 2 ^ 64"

text \<open>A block number is under way: requested, fetched, waiting in its table, or stored.\<close>

definition under_way :: "tables \<Rightarrow> 'w fstate \<Rightarrow> uint256 \<Rightarrow> bool" where
  "under_way T F i \<longleftrightarrow> i \<in> set (fs_requests F) \<or> i \<in> snd ` set (fs_store F)
     \<or> T t_blocks_processing (to_string (unat i)) \<noteq> None \<or> T t_blocks (to_string (unat i)) \<noteq> None"

lemma serial_inv_cong:
  assumes "T' t_transactions = T t_transactions" "T' t_transactions_state = T t_transactions_state"
  shows "serial_inv T' = serial_inv T"
  using assms by (simp add: serial_inv_def counted_def state_count_def)

lemma blocks_inv_cong:
  assumes "T' t_blocks = T t_blocks" "T' t_blocks_processing = T t_blocks_processing"
  shows "blocks_inv T' = blocks_inv T"
  using assms by (simp add: blocks_inv_def)

context indexer_env
begin

lemma step_serials:
  assumes "indexer_step E C s e s'" "db_name (ic_db C) = dbn" "harmless rows C"
    and "serial_inv (rows (in_world s))" "room (rows (in_world s))"
  shows "serial_inv (rows (in_world s')) \<and> rows (in_world s) t_transactions \<subseteq>\<^sub>m rows (in_world s') t_transactions"
proof (cases "e = Transactions_round")
  case True
  with assms(1) obtain r q where q: "transactions_pass E (ic_db C) (worker s) = (r, q)" "s' = put_worker q s"
    by (auto elim: indexer_step.cases)
  have E: "explorer_env E (db_name (ic_db C)) rows" using explorer_env_axioms assms(2) by simp
  have "counted (rows (ps_world (worker s)))" using assms(4) by (simp add: serial_inv_def)
  from transactions_pass_keeps [OF E this] transactions_pass_serials [OF E, of "worker s"] q assms(4,5)
  show ?thesis by (simp add: room_def)
next
  case False
  have "rows (in_world s') t = rows (in_world s) t" if "t \<in> {t_transactions, t_transactions_state}" for t
    by (rule quiet_step [OF assms(1-3)]) (use that False in \<open>auto simp: watched_def table_names\<close>)
  with assms(4) show ?thesis using serial_inv_cong [of "rows (in_world s')" "rows (in_world s)"] by simp
qed

lemma step_accounted:
  assumes "indexer_step E C s e s'" "db_name (ic_db C) = dbn" "harmless rows C"
    and "counted (rows (in_world s))" "rows (in_world s) t_transactions_processing i = Some r"
  shows "rows (in_world s') t_transactions_processing i = Some r \<or> rows (in_world s') t_transactions i \<noteq> None \<or> is_marker r"
  using assms(1)
proof (cases rule: indexer_step.cases)
  case (blocks x q)
  from invPD [OF grows_blocks_pass [OF assms(2)] blocks(3)] assms(5) blocks(2) show ?thesis by simp
next
  case (run_task xs k ys x q)
  from invPD [OF grows_run_task [OF assms(2)] run_task(4)] assms(5) run_task(2) show ?thesis by simp
next
  case (transactions x q)
  have "explorer_env E (db_name (ic_db C)) rows" using explorer_env_axioms assms(2) by simp
  from transactions_pass_keeps [OF this, of "worker s"] transactions assms(4,5) show ?thesis
    by (auto simp: accounted_def)
qed (use quiet_step [OF assms(1-3), of t_transactions_processing] assms(5) in \<open>auto simp: watched_def table_names\<close>)

lemma step_store_ok:
  assumes "indexer_step E C s e s'" "store_ok s"
  shows "store_ok s'"
  using assms(1)
proof (cases rule: indexer_step.cases)
  case (fetch e F)
  from fetch(3) have "\<forall>(b, i) \<in> set (fs_store F). block_answer i b"
  proof (cases rule: fetch_step.cases)
    case (main r)
    with main_round_frame [OF main(2)] assms(2) show ?thesis by (simp add: store_ok_def)
  next
    case (fetched xs i ys block p)
    with block_attempt_sent [OF fetched(4)] assms(2) show ?thesis by (auto simp: store_ok_def)
  next
    case (stored xs block i ys r)
    with store_block_frame(4) [OF stored(3)] assms(2) show ?thesis by (auto simp: store_ok_def)
  qed (use assms(2) in \<open>auto simp: store_ok_def\<close>)
  with fetch show ?thesis by (simp add: store_ok_def)
qed (use assms(2) in \<open>auto simp: store_ok_def put_worker_def put_world_def put_states_def put_rpc_def\<close>)

end

lemma spec_blocks_grows: "spec_blocks xs (t, p) = (t', p') \<Longrightarrow> t \<subseteq>\<^sub>m t'"
proof (induction xs arbitrary: t p)
  case (Cons x xs)
  obtain go t1 p1 where sp: "spec_block x (t, p) = (go, (t1, p1))" by (metis surj_pair)
  have "t \<subseteq>\<^sub>m t1" using sp by (auto simp: spec_block_def Let_def map_le_def split: if_splits)
  with Cons sp show ?case by (cases go) (auto intro: map_le_trans)
qed simp

lemma max_index_le:
  assumes "finite (dom t')" "t \<subseteq>\<^sub>m t'"
  shows "max_index f t \<le> max_index f t'"
proof -
  have sub: "{r \<in> ran t. has_index_value f r} \<subseteq> {r \<in> ran t'. has_index_value f r}"
    using assms(2) by (auto simp: ran_def map_le_def) (metis domI)
  have fin: "finite {r \<in> ran t'. has_index_value f r}" using finite_ran [OF assms(1)] by simp
  show ?thesis
  proof (cases "{r \<in> ran t. has_index_value f r} = {}")
    case True
    then show ?thesis by (simp add: max_index_def)
  next
    case False
    with sub have "{r \<in> ran t'. has_index_value f r} \<noteq> {}" by blast
    with False Max_mono [OF image_mono [OF sub, of "index_value f"]] fin show ?thesis
      unfolding max_index_def Let_def by (simp only: if_False image_is_empty finite_imageI simp_thms)
  qed
qed

text \<open>What a step may do to the two tables of blocks.\<close>

definition blocks_after :: "tables \<Rightarrow> tables \<Rightarrow> bool" where
  "blocks_after T T' \<longleftrightarrow> blocks_inv T' \<and> T t_blocks \<subseteq>\<^sub>m T' t_blocks
     \<and> (\<forall>n. 0 < max_index ''block-id'' (T t_blocks) \<longrightarrow> dense_from n (T t_blocks) \<longrightarrow> dense_from n (T' t_blocks))
     \<and> (\<forall>i. T t_blocks_processing i \<noteq> None \<longrightarrow> T' t_blocks_processing i \<noteq> None \<or> T' t_blocks i \<noteq> None)"

lemma blocks_after_refl: "blocks_inv T \<Longrightarrow> blocks_after T T"
  by (simp add: blocks_after_def)

lemma blocks_after_trans:
  assumes "blocks_after T T'" "blocks_after T' T''" "finite (dom (T' t_blocks))"
  shows "blocks_after T T''"
proof -
  have le: "T t_blocks \<subseteq>\<^sub>m T' t_blocks" "T' t_blocks \<subseteq>\<^sub>m T'' t_blocks" using assms by (simp_all add: blocks_after_def)
  have "T'' t_blocks i \<noteq> None" if "T' t_blocks i \<noteq> None" for i
    using le(2) that by (metis domIff map_le_implies_dom_le subsetD)
  moreover have "0 < max_index ''block-id'' (T' t_blocks)" if "0 < max_index ''block-id'' (T t_blocks)"
    using that max_index_le [OF assms(3) le(1)] by (rule order_less_le_trans)
  ultimately show ?thesis
    using assms(1,2) map_le_trans [OF le] unfolding blocks_after_def by blast
qed

lemma blocks_after_cong:
  assumes "T' t_blocks = T t_blocks" "T' t_blocks_processing = T t_blocks_processing" "blocks_inv T"
  shows "blocks_after T T'"
  using assms blocks_inv_cong [OF assms(1,2)] by (simp add: blocks_after_def)

lemma in_ran_upd: "r' \<in> ran (p(k \<mapsto> r)) \<Longrightarrow> r' = r \<or> r' \<in> ran p"
  by (auto simp: ran_def split: if_splits)

lemma blocks_after_add:
  assumes "blocks_inv T" "block_row k r" "timed r"
  shows "blocks_after T (T(t_blocks_processing := (T t_blocks_processing)(k \<mapsto> r)))"
proof -
  let ?p = "(T t_blocks_processing)(k \<mapsto> r)"
  have "block_rows ?p" using assms(1,2) by (simp add: blocks_inv_def block_rows_def)
  moreover have "timed r'" if r': "r' \<in> ran ?p" for r'
    using r' assms(1,3) by (auto simp: blocks_inv_def dest: ranI in_ran_upd)
  ultimately have "blocks_inv (T(t_blocks_processing := ?p))" using assms(1) by (simp add: blocks_inv_def)
  then show ?thesis by (simp add: blocks_after_def)
qed

lemma blocks_pass_after:
  assumes "explorer_env E (db_name d) rows" "blocks_inv (rows (ps_world s))"
  shows "blocks_after (rows (ps_world s)) (rows (ps_world (snd (blocks_pass E d s))))"
proof (rule blocks_pass_spec [OF assms])
  fix xs t' p'
  assume ok: "\<forall>x \<in> set xs. has_index_value ''block-id'' x"
    and sp: "spec_blocks xs (rows (ps_world s) t_blocks, rows (ps_world s) t_blocks_processing) = (t', p')"
    and t': "rows (ps_world (snd (blocks_pass E d s))) t_blocks = t'"
  have fin: "finite (dom (rows (ps_world s) t_blocks))"
    by (rule reql_server.rows_finite [OF explorer_env.axioms(2) [OF assms(1)]])
  have "dense_from n t'" if "0 < max_index ''block-id'' (rows (ps_world s) t_blocks)" "dense_from n (rows (ps_world s) t_blocks)" for n
    using spec_blocks_dense [OF ok fin that sp] by simp
  with spec_blocks_grows [OF sp] blocks_pass_inv [OF assms] show ?thesis
    using blocks_pass_accounted [OF assms] unfolding blocks_after_def t' by auto
qed

text \<open>What holds in every state of a run that started at \<open>start\<close> with the tables \<open>T\<close>.\<close>

definition indexer_inv :: "('w \<Rightarrow> tables) \<Rightarrow> uint256 \<Rightarrow> tables \<Rightarrow> 'w indexer \<Rightarrow> bool" where
  "indexer_inv rows start T s \<longleftrightarrow> blocks_after T (rows (in_world s)) \<and> store_ok s
     \<and> reached start (\<lambda>i. unat i < 2 ^ 64 \<longrightarrow> under_way (rows (in_world s)) (in_fetch s) i) (in_fetch s)"

context indexer_env
begin

lemma store_block_after:
  assumes "db_name (fc_db f) = dbn" "block_answer i b" "blocks_inv (rows (rp_world (fs_rpc s)))"
    and "store_block E ind f b i s = (r, s')"
  shows "blocks_after (rows (rp_world (fs_rpc s))) (rows (rp_world (fs_rpc s')))"
    and "unat i < 2 ^ 64 \<Longrightarrow> rows (rp_world (fs_rpc s')) t_blocks_processing (to_string (unat i)) \<noteq> None"
proof -
  let ?w = "rp_world (fs_rpc s)"
  have w': "rp_world (fs_rpc s') = snd (add_block E ind (fc_db f) b i ?w)"
    using assms(4) by (auto simp: store_block_def catchP_def on_node_def on_rpc_def split: prod.splits sum.splits if_splits)
  note a = add_block_answer [OF assms(1,2), of ind ?w]
  from a(1) show "blocks_after (rows ?w) (rows (rp_world (fs_rpc s')))"
    using blocks_after_add [OF assms(3)] blocks_after_refl [OF assms(3)] unfolding w' by auto
  show "rows (rp_world (fs_rpc s')) t_blocks_processing (to_string (unat i)) \<noteq> None" if "unat i < 2 ^ 64"
    using a(2) [OF that] unfolding w' .
qed

lemma step_blocks:
  assumes "indexer_step E C s e s'" "db_name (ic_db C) = dbn" "harmless rows C"
    and "blocks_inv (rows (in_world s))" "store_ok s"
  shows "blocks_after (rows (in_world s)) (rows (in_world s'))"
proof (cases "e = Blocks_round \<or> (\<exists>b i. e = Fetch (Stored b i))")
  case True
  have E: "explorer_env E (db_name (ic_db C)) rows" using explorer_env_axioms assms(2) by simp
  from assms(1) True show ?thesis
  proof (cases rule: indexer_step.cases)
    case (fetch e F)
    then obtain b i where "fetch_step E (ic_time C) (ic_fetcher C) (in_fetch s) (Stored b i) F" using True by auto
    then obtain xs ys r where b: "fs_store (in_fetch s) = xs @ (b, i) # ys"
      "store_block E (ic_time C) (ic_fetcher C) b i ((in_fetch s)\<lparr>fs_store := xs @ ys\<rparr>) = (r, F)"
      by (auto elim: fetch_step.cases)
    have "block_answer i b" using assms(5) b(1) by (auto simp: store_ok_def)
    from store_block_after(1) [OF assms(2) this _ b(2)] assms(4) fetch(2) show ?thesis by (simp add: in_world_def)
  next
    case (blocks r q)
    from blocks_pass_after [OF E, of "worker s"] assms(4) blocks show ?thesis by simp
  qed auto
next
  case False
  have "rows (in_world s') t = rows (in_world s) t" if "t \<in> {t_blocks, t_blocks_processing}" for t
    by (rule quiet_step [OF assms(1-3)]) (use that False in \<open>auto simp: watched_def table_names\<close>)
  with assms(4) show ?thesis by (intro blocks_after_cong) simp_all
qed

lemma step_under_way:
  assumes "indexer_step E C s e s'" "db_name (ic_db C) = dbn" "blocks_inv (rows (in_world s))" "store_ok s"
    and after: "blocks_after (rows (in_world s)) (rows (in_world s'))"
    and "unat i < 2 ^ 64" "under_way (rows (in_world s)) (in_fetch s) i"
  shows "under_way (rows (in_world s')) (in_fetch s') i"
proof -
  have tab: "under_way (rows (in_world s')) F i"
    if "rows (in_world s) t_blocks_processing (to_string (unat i)) \<noteq> None \<or> rows (in_world s) t_blocks (to_string (unat i)) \<noteq> None" for F
    using that after by (auto simp: under_way_def blocks_after_def map_le_def dom_def)
  consider (quiet) "fs_requests (in_fetch s') = fs_requests (in_fetch s)" "fs_store (in_fetch s') = fs_store (in_fetch s)"
    | (fetch) ev F where "s' = s\<lparr>in_fetch := F\<rparr>" "fetch_step E (ic_time C) (ic_fetcher C) (in_fetch s) ev F"
    using assms(1) by cases (auto simp: put_worker_def put_world_def put_states_def put_rpc_def)
  then show ?thesis
  proof cases
    case quiet
    then show ?thesis using assms(7) tab [of "in_fetch s'"] by (auto simp: under_way_def)
  next
    case fetch
    from fetch(2) show ?thesis
    proof (cases rule: fetch_step.cases)
      case (main r)
      with main_round_frame(3,4) [OF main(2)] show ?thesis
        using assms(7) tab [of F] fetch(1) by (auto simp: under_way_def)
    next
      case (stored xs block j ys r)
      have "block_answer j block" using assms(4) stored(2) by (auto simp: store_ok_def)
      from store_block_after(2) [OF assms(2) this _ stored(3)] assms(3,6) have
        "j = i \<Longrightarrow> rows (in_world s') t_blocks_processing (to_string (unat i)) \<noteq> None"
        by (simp add: in_world_def fetch(1))
      with store_block_frame(3,4) [OF stored(3)] show ?thesis
        using assms(7) tab [of F] fetch(1) stored(2) by (auto simp: under_way_def)
    qed (use assms(7) tab [of F] fetch(1) in \<open>auto simp: under_way_def\<close>)
  qed
qed

lemma step_all_under_way:
  assumes "indexer_step E C s e s'" "db_name (ic_db C) = dbn" "blocks_inv (rows (in_world s))" "store_ok s"
    and "blocks_after (rows (in_world s)) (rows (in_world s'))"
    and "reached start (\<lambda>i. unat i < 2 ^ 64 \<longrightarrow> under_way (rows (in_world s)) (in_fetch s) i) (in_fetch s)"
  shows "reached start (\<lambda>i. unat i < 2 ^ 64 \<longrightarrow> under_way (rows (in_world s')) (in_fetch s') i) (in_fetch s')"
proof -
  note mono = step_under_way [OF assms(1-5)]
  consider (quiet) "fs_first (in_fetch s') = fs_first (in_fetch s)" "fs_running (in_fetch s') = fs_running (in_fetch s)"
    | (fetch) ev F where "s' = s\<lparr>in_fetch := F\<rparr>" "fetch_step E (ic_time C) (ic_fetcher C) (in_fetch s) ev F"
    using assms(1) by cases (auto simp: put_worker_def put_world_def put_states_def put_rpc_def)
  then show ?thesis
  proof cases
    case quiet
    then show ?thesis using assms(6) mono unfolding reached_def by metis
  next
    case fetch
    from step_reached [OF fetch(2) assms(6), where P' = "\<lambda>i. unat i < 2 ^ 64 \<longrightarrow> under_way (rows (in_world s')) F i"]
    show ?thesis using mono fetch(1) by (simp add: under_way_def)
  qed
qed

lemma run_inv:
  assumes "indexer_run E C (indexer_start (fetcher_start p start)) ss s" "db_name (ic_db C) = dbn" "harmless rows C"
    and "blocks_inv (rows (rp_world p))"
  shows "indexer_inv rows start (rows (rp_world p)) s"
  using assms(1)
proof (induction rule: indexer_run.induct)
  case started
  show ?case
    using assms(4)
    by (auto simp: indexer_inv_def indexer_start_def fetcher_start_def in_world_def store_ok_def reached_def blocks_after_refl)
next
  case (stepped ss s e s')
  let ?T = "rows (in_world s)"
  have i: "blocks_after (rows (rp_world p)) ?T" "store_ok s" using stepped.IH by (simp_all add: indexer_inv_def)
  then have b: "blocks_inv ?T" by (simp add: blocks_after_def)
  note after = step_blocks [OF stepped.hyps(2) assms(2,3) b i(2)]
  show ?case
    unfolding indexer_inv_def
    using blocks_after_trans [OF i(1) after rows_finite] step_store_ok [OF stepped.hyps(2) i(2)]
      step_all_under_way [OF stepped.hyps(2) assms(2) b i(2) after] stepped.IH
    by (simp add: indexer_inv_def)
qed

lemma run_serials:
  assumes "indexer_run E C s0 ss s" "db_name (ic_db C) = dbn" "harmless rows C"
    and "serial_inv (rows (in_world s0))" "\<forall>s' \<in> set ss. room (rows (in_world s'))"
  shows "serial_inv (rows (in_world s)) \<and> rows (in_world s0) t_transactions \<subseteq>\<^sub>m rows (in_world s) t_transactions
    \<and> accounted (rows (in_world s0)) (rows (in_world s))"
  using assms(1,5)
proof (induction rule: indexer_run.induct)
  case started
  show ?case using assms(4) by (simp add: accounted_def)
next
  case (stepped ss s e s')
  then have i: "serial_inv (rows (in_world s))" "rows (in_world s0) t_transactions \<subseteq>\<^sub>m rows (in_world s) t_transactions"
    "accounted (rows (in_world s0)) (rows (in_world s))" "room (rows (in_world s))" by simp_all
  note st = step_serials [OF stepped.hyps(2) assms(2,3) i(1,4)]
  have keep: "rows (in_world s') t_transactions k \<noteq> None" if "rows (in_world s) t_transactions k \<noteq> None" for k
    using st that by (metis domIff map_le_implies_dom_le subsetD)
  have "counted (rows (in_world s))" using i(1) by (simp add: serial_inv_def)
  note acc = step_accounted [OF stepped.hyps(2) assms(2,3) this]
  have "accounted (rows (in_world s0)) (rows (in_world s'))"
    unfolding accounted_def
  proof (intro allI impI)
    fix k r
    assume "rows (in_world s0) t_transactions_processing k = Some r"
    with i(3) consider "rows (in_world s) t_transactions_processing k = Some r" | "rows (in_world s) t_transactions k \<noteq> None" | "is_marker r"
      unfolding accounted_def by blast
    then show "rows (in_world s') t_transactions_processing k = Some r \<or> rows (in_world s') t_transactions k \<noteq> None \<or> is_marker r"
      using acc keep by cases blast+
  qed
  with st map_le_trans [OF i(2)] show ?case by blast
qed

end

section \<open>The whole indexer\<close>

text \<open>
  (C1) The serial numbers of transactions, in any run: if at the start the numbers of the indexed transactions
  are exactly \<open>0, \<dots>, n - 1\<close>, each used once, with \<open>n\<close> in the state row, this holds in every later state,
  whatever the order of fetching, worker rounds, tasks and statistics. Indexed transactions are never changed or
  removed, and a waiting one stays until it is indexed, the markers of blocks without transactions
  aside. The numbers have to fit into 64 bits.
\<close>

theorem indexer_serials:
  assumes "indexer_env E (db_name (ic_db C)) rows" and "harmless rows C" and "indexer_run E C s0 ss s"
    and "serial_inv (rows (in_world s0))" and "\<forall>s' \<in> set ss. room (rows (in_world s'))"
  shows "serial_inv (rows (in_world s)) \<and> rows (in_world s0) t_transactions \<subseteq>\<^sub>m rows (in_world s) t_transactions
    \<and> accounted (rows (in_world s0)) (rows (in_world s))"
  by (rule indexer_env.run_serials [OF assms(1,3) refl assms(2,4,5)])

text \<open>
  (C3) The table of blocks, in any run: rows stay keyed by the numbers of their blocks, a stored block is never
  changed or removed, and if a block other than block 0 is stored at the start, every number from the largest
  one then up to the largest one now is there.
\<close>

theorem indexer_blocks:
  assumes "indexer_env E (db_name (ic_db C)) rows" and "harmless rows C"
    and "indexer_run E C (indexer_start (fetcher_start p start)) ss s" and "blocks_inv (rows (rp_world p))"
  shows "blocks_inv (rows (in_world s)) \<and> rows (rp_world p) t_blocks \<subseteq>\<^sub>m rows (in_world s) t_blocks
    \<and> (0 < max_index ''block-id'' (rows (rp_world p) t_blocks) \<longrightarrow>
        dense_from (unat (max_index ''block-id'' (rows (rp_world p) t_blocks))) (rows (in_world s) t_blocks))"
proof -
  have "finite (dom (rows (rp_world p) t_blocks))"
    by (rule reql_server.rows_finite [OF explorer_env.axioms(2) [OF indexer_env.axioms(1) [OF assms(1)]]])
  with max_block_dense [of "rows (rp_world p) t_blocks"] assms(4) show ?thesis
    using indexer_env.run_inv [OF assms(1,3) refl assms(2,4)]
    by (auto simp: indexer_inv_def blocks_after_def blocks_inv_def)
qed

text \<open>
  (C2) No block is lost, in any run: every 64 bit block number from the one the indexer started with up to (not
  including) the one the fetcher has reached is requested from a node, or fetched and about to be stored, or
  waits in the processing table, or is stored.
\<close>

theorem indexer_no_loss:
  assumes "indexer_env E (db_name (ic_db C)) rows" and "harmless rows C"
    and "indexer_run E C (indexer_start (fetcher_start p start)) ss s" and "blocks_inv (rows (rp_world p))"
    and "start \<le> i" and "i < fs_first (in_fetch s)" and "unat i < 2 ^ 64"
  shows "i \<in> set (fs_requests (in_fetch s)) \<or> i \<in> snd ` set (fs_store (in_fetch s))
    \<or> rows (in_world s) t_blocks_processing (to_string (unat i)) \<noteq> None \<or> has_block (rows (in_world s) t_blocks) (unat i)"
  using indexer_env.run_inv [OF assms(1,3) refl assms(2,4)] assms(5-7)
  by (auto simp: indexer_inv_def reached_def under_way_def has_block_def)

section \<open>A block on its way\<close>

text \<open>A stored block is the one that was sent, apart from what \<open>add_block\<close> sets.\<close>

definition as_sent :: "json \<Rightarrow> json \<Rightarrow> bool" where
  "as_sent b r \<longleftrightarrow> (\<forall>k. k \<notin> {''block-id'', ''timestamp'', ''index-timestamp''} \<longrightarrow> field r k = field b k)"

text \<open>A round of the block worker with one waiting block.\<close>

lemma blocks_pass_single:
  assumes "explorer_env E (db_name d) rows" "blocks_inv (rows (ps_world s))"
    and "rows (ps_world s) t_blocks_processing = [to_string (unat b) \<mapsto> r]" "index_value ''block-id'' r = b" "ready r"
    and "\<not> too_far (max_index ''block-id'' (rows (ps_world s) t_blocks)) b"
    and "rows (ps_world s) t_blocks (to_string (unat b)) = None"
  shows "rows (ps_world (snd (blocks_pass E d s))) t_blocks (to_string (unat b)) = Some r"
proof (rule blocks_pass_spec [OF assms(1,2)])
  fix xs t' p'
  assume xs: "set xs = ran (rows (ps_world s) t_blocks_processing)" "distinct xs"
    and sp: "spec_blocks xs (rows (ps_world s) t_blocks, rows (ps_world s) t_blocks_processing) = (t', p')"
    and t': "rows (ps_world (snd (blocks_pass E d s))) t_blocks = t'"
  have r: "set xs = {r}" using xs(1) assms(3) by (simp add: ran_def)
  then have "length xs = 1" using distinct_card [OF xs(2)] by simp
  with r have "xs = [r]" by (cases xs) auto
  with sp assms(4-7) show ?thesis unfolding t' by (auto simp: spec_block_def Let_def)
qed

context explorer_env
begin

lemma add_block_new:
  assumes "db_name d = dbn" "block_answer i b" "unat i < 2 ^ 64"
    and "rows w t_blocks_processing (to_string (unat i)) = None"
  shows "\<exists>w' r. add_block E ind d b i w = (Inr (), w')
    \<and> rows w' = (rows w)(t_blocks_processing := (rows w t_blocks_processing)(to_string (unat i) \<mapsto> r))
    \<and> block_row (to_string (unat i)) r \<and> timed r \<and> unat (index_value ''block-id'' r) = unat i
    \<and> as_sent b r"
proof -
  obtain m ts where m: "b = JObj m" "map_of m ''id'' = Some (JStr (to_string (unat i)))" "map_of m ''timestamp'' = Some (JStr ts)"
    using assms(2) by (cases b) (auto simp: block_answer_def)
  let ?r = "stored_block ind (clock E w) i m ts"
  obtain w' where w': "add_block E ind d b i w = (Inr (), w')"
    "rows w' = (rows w)(t_blocks_processing := (rows w t_blocks_processing)(to_string (unat i) \<mapsto> ?r))"
    using add_block_value [OF assms(1,3) m(2,3), of ind w] assms(4) unfolding m(1) by auto
  have "unat (index_value ''block-id'' ?r) = unat i"
    using assms(3) by (simp add: stored_block_def index_value_def uint_field_def unsigned_ucast_eq take_bit_nat_eq_self)
  moreover have "as_sent b ?r" by (simp add: as_sent_def stored_block_def m(1))
  ultimately show ?thesis
    using w' stored_block_row [OF assms(3) m(2)] by (intro exI [of _ w'] exI [of _ ?r] conjI)
qed

end

context indexer_env
begin

lemma next_block_stored:
  assumes "db_name (ic_db C) = dbn" "blocks_inv (rows (in_world s))" "rows (in_world s) t_blocks_processing = Map.empty"
    and "i \<in> set (fs_requests (in_fetch s))" "unat i < 2 ^ 64" "rows (in_world s) t_blocks (to_string (unat i)) = None"
    and "\<not> too_far (max_index ''block-id'' (rows (in_world s) t_blocks)) (ucast i)"
    and "block_attempt E (fc_urls (ic_fetcher C)) i (fs_rpc (in_fetch s)) = (Inr (Some b), p)"
    and "field b ''transactions'' \<noteq> None"
  shows "\<exists>s1 s2 s3 r. indexer_step E C s (Fetch (Fetched b i)) s1 \<and> indexer_step E C s1 (Fetch (Stored b i)) s2
    \<and> indexer_step E C s2 Blocks_round s3 \<and> rows (in_world s3) t_blocks (to_string (unat i)) = Some r
    \<and> as_sent b r"
proof -
  let ?f = "ic_fetcher C" and ?F = "in_fetch s" and ?i = "to_string (unat i)"
  obtain xs ys where q: "fs_requests ?F = xs @ i # ys" using assms(4) by (meson split_list)
  define F1 where "F1 = ?F\<lparr>fs_rpc := p, fs_requests := xs @ ys, fs_store := fs_store ?F @ [(b, i)]\<rparr>"
  have f1: "fetch_step E (ic_time C) ?f ?F (Fetched b i) F1" unfolding F1_def by (rule fetched [OF q assms(8)])
  have same: "rows (rp_world p) = rows (in_world s)"
    using invPD [OF keeps_block_attempt assms(8)] by (auto simp: in_world_def fun_eq_iff)
  have "rows (rp_world p) t_blocks_processing ?i = None" using same assms(3) by simp
  from add_block_new [OF assms(1) block_attempt_sent [OF assms(8)] assms(5) this, of "ic_time C"] obtain w' r where
    a: "add_block E (ic_time C) (ic_db C) b i (rp_world p) = (Inr (), w')"
      "rows w' = (rows (in_world s))(t_blocks_processing := [?i \<mapsto> r])" "block_row ?i r" "timed r"
      "unat (index_value ''block-id'' r) = unat i"
      "as_sent b r"
    using same assms(3) by auto
  define F2 where "F2 = F1\<lparr>fs_store := fs_store ?F, fs_rpc := p\<lparr>rp_world := w'\<rparr>\<rparr>"
  have "store_block E (ic_time C) ?f b i (F1\<lparr>fs_store := fs_store ?F @ []\<rparr>) = (Inr (), F2)"
    using a(1) by (simp add: store_block_def on_node_def on_rpc_def catchP_def F1_def F2_def)
  with stored [of F1 "fs_store ?F" b i "[]"] have f2: "fetch_step E (ic_time C) ?f F1 (Stored b i) F2"
    by (simp add: F1_def)
  let ?s1 = "s\<lparr>in_fetch := F1\<rparr>" and ?s2 = "s\<lparr>in_fetch := F2\<rparr>"
  have s1: "indexer_step E C s (Fetch (Fetched b i)) ?s1" by (rule indexer_step.fetch [OF f1])
  have "indexer_step E C ?s1 (Fetch (Stored b i)) (?s1\<lparr>in_fetch := F2\<rparr>)" by (rule indexer_step.fetch) (simp add: f2)
  then have s2: "indexer_step E C ?s1 (Fetch (Stored b i)) ?s2" by simp
  obtain x pw where pw: "blocks_pass E (ic_db C) (worker ?s2) = (x, pw)" by (cases "blocks_pass E (ic_db C) (worker ?s2)")
  have T: "rows (ps_world (worker ?s2)) = (rows (in_world s))(t_blocks_processing := [?i \<mapsto> r])"
    by (simp add: F2_def a(2))
  have "blocks_inv ((rows (in_world s))(t_blocks_processing := [?i \<mapsto> r]))"
    using blocks_after_add [OF assms(2) a(3,4)] assms(3) by (simp add: blocks_after_def)
  moreover have "ready r" using a(6) assms(9) by (simp add: ready_def as_sent_def)
  moreover have "index_value ''block-id'' r = ucast i"
    using a(5) assms(5) by (intro unsigned_word_eqI [where 'a = nat]) (simp add: unsigned_ucast_eq take_bit_nat_eq_self)
  moreover have "unat (ucast i :: uint64) = unat i" using assms(5) by (simp add: unsigned_ucast_eq take_bit_nat_eq_self)
  moreover have "explorer_env E (db_name (ic_db C)) rows" using explorer_env_axioms assms(1) by simp
  ultimately have "rows (ps_world pw) t_blocks ?i = Some r"
    using blocks_pass_single [of E "ic_db C" rows "worker ?s2" "ucast i" r] T assms(6,7) pw by simp
  then show ?thesis
    using s1 s2 indexer_step.blocks [OF pw] a(6) by (intro exI [of _ ?s1] exI [of _ ?s2] exI [of _ "put_worker pw ?s2"] exI [of _ r]) simp
qed

end

section \<open>A run\<close>

lemma sample_genesis_clients [simp]:
  "rpc_connect sample_genesis_env = rpc_connect sample_node_env"
  "rpc_get_current_block_id sample_genesis_env = rpc_get_current_block_id sample_node_env"
  "rpc_get_block sample_genesis_env = rpc_get_block sample_node_env"
  "rpc_get_blockchain_info sample_genesis_env = rpc_get_blockchain_info sample_node_env"
  "rpc_get_nodes sample_genesis_env = rpc_get_nodes sample_node_env"
  "rpc_get_wallet_state sample_genesis_env = rpc_get_wallet_state sample_node_env"
  "http_get sample_genesis_env = http_get sample_node_env"
  by (simp_all add: sample_genesis_env_def node_env.defs)

lemma sample_genesis_run: "reql_run sample_genesis_env = ref_run"
  by (simp add: sample_genesis_env_def sample_node_env_def node_env.defs env.defs sample_env_def ref_env_run)

lemma sample_frames: "reql_frames sample_genesis_env (db_name sample_db) ref_rows"
  using ref_fr.reql_frames_axioms [of "\<lambda>_. None" "\<lambda>_ _. []" 0 "db_name sample_db"]
  unfolding reql_frames_def reql_server_def reql_frames_axioms_def ref_env_run sample_genesis_run .

lemma sample_block_answer: "block_answer i b" if "field (sample_answer i) ''block-data'' = Some b"
  using that by (auto simp: block_answer_def sample_answer_def obj_def)

interpretation sample: indexer_env sample_genesis_env "db_name sample_db" ref_rows
  by (intro indexer_env.intro indexer_env_axioms.intro sample_genesis_explorer sample_frames)
    (auto dest: sample_block_answer)

text \<open>The registered statistics with the sample fetcher; reading an unset optional ends the program.\<close>

definition sample_config :: "refdb indexer_config" where
  "sample_config = \<lparr>ic_fetcher = sample_fetcher,
     ic_storage = registered sample_genesis_env,
     ic_genesis_url = ''url'', ic_time = (\<lambda>_. 0), ic_unset = raise Unknown_exn\<rparr>"

lemma sample_harmless: "harmless ref_rows sample_config"
  by (rule sample.registered_harmless [where e = Unknown_exn]) (simp_all add: sample_config_def sample_fetcher_def)

lemma sample_config_env: "indexer_env sample_genesis_env (db_name (ic_db sample_config)) ref_rows"
  using sample.indexer_env_axioms by (simp add: sample_config_def sample_fetcher_def)

text \<open>A step of a worker is always possible.\<close>

lemma rounds_possible:
  "\<exists>s'. indexer_step E C s Blocks_round s'" "\<exists>s'. indexer_step E C s Transactions_round s'"
  by (metis indexer_step.blocks surj_pair) (metis indexer_step.transactions surj_pair)

lemma fetch_run_indexer:
  assumes "fetch_run E (ic_time C) (ic_fetcher C) F es F'" "in_fetch s = F"
  shows "\<exists>ss. indexer_run E C s ss (s\<lparr>in_fetch := F'\<rparr>)"
  using assms(1)
proof (induction rule: fetch_run.induct)
  case run_start
  have "s\<lparr>in_fetch := F\<rparr> = s" using assms(2) by auto
  then show ?case using started [of E C s] by auto
next
  case (run_step es F1 e F2)
  then obtain ss where "indexer_run E C s ss (s\<lparr>in_fetch := F1\<rparr>)" by blast
  moreover have "indexer_step E C (s\<lparr>in_fetch := F1\<rparr>) (Fetch e) (s\<lparr>in_fetch := F1, in_fetch := F2\<rparr>)"
    using run_step.hyps(2) by (intro indexer_step.fetch) simp
  ultimately show ?case using stepped by fastforce
qed

theorem indexer_no_loss_witness:
  "\<exists>ss s. indexer_run sample_genesis_env sample_config
      (indexer_start (fetcher_start \<lparr>rp_world = (\<lambda>_. []), rp_counter = 0\<rparr> 0)) ss s
    \<and> fs_first (in_fetch s) = 1
    \<and> (0 \<in> set (fs_requests (in_fetch s)) \<or> 0 \<in> snd ` set (fs_store (in_fetch s))
       \<or> ''0'' \<in> dom (ref_rows (in_world s) t_blocks_processing) \<or> has_block (ref_rows (in_world s) t_blocks) 0)"
proof -
  let ?F = "fetcher_start \<lparr>rp_world = (\<lambda>_. []), rp_counter = 0\<rparr> 0 :: refdb fstate"
  let ?s = "(indexer_start ?F)\<lparr>in_fetch := sample_fstate (\<lambda>_. []) 1 [] False [] [0, 1]\<rparr>"
  have "fetch_run sample_genesis_env (ic_time sample_config) (ic_fetcher sample_config) ?F
      [Main_round, Start_range 1, Request 0, Request 1, End_range 1] (sample_fstate (\<lambda>_. []) 1 [] False [] [0, 1])"
    by (rule sample_fetch_run) (simp_all add: sample_config_def sample_fetcher_def)
  from fetch_run_indexer [OF this, of "indexer_start ?F"] obtain ss where
    r: "indexer_run sample_genesis_env sample_config (indexer_start ?F) ss ?s" by (auto simp: indexer_start_def)
  have "blocks_inv (ref_rows (\<lambda>_. []))" by (simp add: blocks_inv_def block_rows_def ref_rows_def ran_def)
  with indexer_no_loss [OF sample_config_env sample_harmless r, of 0] have
    "0 \<in> set (fs_requests (in_fetch ?s)) \<or> 0 \<in> snd ` set (fs_store (in_fetch ?s))
       \<or> ''0'' \<in> dom (ref_rows (in_world ?s) t_blocks_processing) \<or> has_block (ref_rows (in_world ?s) t_blocks) 0"
    by (simp add: sample_fstate_def)
  with r show ?thesis by (intro exI [of _ ss] exI [of _ ?s]) (simp add: sample_fstate_def)
qed

text \<open>Block 7 is stored and block 8 waits; the block worker makes a round.\<close>

theorem indexer_blocks_witness:
  "\<exists>ss s. indexer_run sample_genesis_env sample_config
      (indexer_start (fetcher_start \<lparr>rp_world = ps_world sample_bstate, rp_counter = 0\<rparr> 7)) ss s
    \<and> ss \<noteq> [] \<and> blocks_inv (ref_rows (in_world s)) \<and> dense_from 7 (ref_rows (in_world s) t_blocks)"
proof -
  let ?s = "indexer_start (fetcher_start \<lparr>rp_world = ps_world sample_bstate, rp_counter = 0\<rparr> 7)"
  obtain s' where "indexer_step sample_genesis_env sample_config ?s Blocks_round s'" using rounds_possible by blast
  from stepped [OF started this] have r: "indexer_run sample_genesis_env sample_config ?s [?s] s'" by simp
  from indexer_blocks [OF sample_config_env sample_harmless r] sample_blocks_inv sample_max
  have "blocks_inv (ref_rows (in_world s'))" "dense_from 7 (ref_rows (in_world s') t_blocks)" by simp_all
  with r show ?thesis by blast
qed

theorem indexer_serials_witness:
  "\<exists>ss s. indexer_run sample_genesis_env sample_config
      (indexer_start (fetcher_start \<lparr>rp_world = ps_world sample_pstate, rp_counter = 0\<rparr> 0)) ss s
    \<and> ss \<noteq> [] \<and> serial_inv (ref_rows (in_world s))"
proof -
  let ?s = "indexer_start (fetcher_start \<lparr>rp_world = ps_world sample_pstate, rp_counter = 0\<rparr> 0)"
  have w: "in_world ?s = ps_world sample_pstate" by (simp add: indexer_start_def in_world_def fetcher_start_def)
  obtain s' where "indexer_step sample_genesis_env sample_config ?s Transactions_round s'" using rounds_possible by blast
  from stepped [OF started this] have r: "indexer_run sample_genesis_env sample_config ?s [?s] s'" by simp
  have "\<forall>s' \<in> set [?s]. room (ref_rows (in_world s'))" by (simp add: w room_def sample_rows)
  from indexer_serials [OF sample_config_env sample_harmless r _ this] sample_serial_inv w
  have "serial_inv (ref_rows (in_world s'))" by simp
  with r show ?thesis by blast
qed

end
