(* ===== verification/Typing.thy ===== *)
theory Typing
  imports Transactions
begin

text \<open>
  The form of the values the indexer hands to the database. An object of the JSON library is a \<^verbatim>\<open>std::map\<close>: its keys are
  in ascending order, each once. The operations keep this form, and the rows made of the transactions of a block
  have the members that the indices and the worker rely on, of the types they rely on.
\<close>

fun wf_json :: "json \<Rightarrow> bool" where
  "wf_json (JArr xs) = list_all wf_json xs"
| "wf_json (JObj m) = (sorted_wrt (<) (map fst m) \<and> list_all (\<lambda>kv. wf_json (snd kv)) m)"
| "wf_json _ = True"

definition row_typed :: "json \<Rightarrow> bool" where
  "row_typed r \<longleftrightarrow> (\<exists>i. field r ''id'' = Some (JStr i)) \<and> (\<exists>n. field r ''block-id'' = Some (JUint n))
     \<and> (\<exists>t. field r ''timestamp'' = Some (JInt t))"

text \<open>A well-formed row with its typed members, and what keeps it so.\<close>

definition good_row :: "json \<Rightarrow> bool" where
  "good_row r \<longleftrightarrow> wf_json r \<and> row_typed r"

lemma set_put: "set (put k v m) \<subseteq> insert (k, v) (set m)"
  by (induction k v m rule: put.induct) auto

lemma wf_put: "wf_json (JObj m) \<Longrightarrow> wf_json v \<Longrightarrow> wf_json (JObj (put k v m))"
  using set_put [of k v m] sorted_put [of m k v] by (auto simp: list_all_iff)

lemma sorted_filter_keys: "sorted_wrt (<) (map fst m) \<Longrightarrow> sorted_wrt (<) (map fst (filter P m))"
  by (induction m) auto

lemma wf_del: "wf_json (JObj m) \<Longrightarrow> wf_json (JObj (del k m))"
  using sorted_filter_keys [of m] by (auto simp: del_def list_all_iff)

lemma wf_field: "wf_json j \<Longrightarrow> field j k = Some v \<Longrightarrow> wf_json v"
  by (cases j) (auto simp: list_all_iff dest!: map_of_SomeD)

lemma json_kind:
  obtains m where "j = JObj m" | "j = JNull" | "\<not> is_object j" "j \<noteq> JNull"
  by (cases j) auto

context nlohmann_json
begin

lemma set_returns:
  assumes "jl_set L j k v = Inr j'"
  shows "field j' = (field j)(k \<mapsto> v) \<and> (wf_json j \<longrightarrow> wf_json v \<longrightarrow> wf_json j')"
  using assms wf_put [of _ v k] by (cases j rule: json_kind) (auto simp: fun_eq_iff)

lemma erase_returns:
  assumes "jl_erase L j k = Inr j'"
  shows "field j' = (field j)(k := None) \<and> (wf_json j \<longrightarrow> wf_json j')"
  using assms wf_del [of _ k] by (cases j rule: json_kind) (auto simp: fun_eq_iff)

lemma index_returns: "jl_index L j k = Inr v \<Longrightarrow> wf_json j \<Longrightarrow> wf_json v"
  using wf_field [of j k v] by (cases "field j k"; cases j rule: json_kind) auto

lemma push_back_returns: "jl_push_back L j v = Inr j' \<Longrightarrow> (j = JNull \<and> j' = JArr [v]) \<or> (\<exists>xs. j = JArr xs \<and> j' = JArr (xs @ [v]))"
  by (cases j) auto

lemma set_good:
  "jl_set L j k v = Inr j' \<Longrightarrow> good_row j \<Longrightarrow> wf_json v \<Longrightarrow> k \<notin> {''id'', ''block-id'', ''timestamp''} \<Longrightarrow> good_row j'"
  using set_returns [of j k v j'] by (auto simp: good_row_def row_typed_def)

lemma erase_good:
  "jl_erase L j k = Inr j' \<Longrightarrow> good_row j \<Longrightarrow> k \<notin> {''id'', ''block-id'', ''timestamp''} \<Longrightarrow> good_row j'"
  using erase_returns [of j k j'] by (auto simp: good_row_def row_typed_def)

lemma good_start:
  assumes "jl_set L trx ''id'' (JStr u) = Inr j1" "jl_set L j1 ''block-id'' (JUint b) = Inr j2"
    "jl_set L j2 ''timestamp'' (JInt t) = Inr j3" "wf_json trx"
  shows "good_row j3"
  using set_returns [OF assms(1)] set_returns [OF assms(2)] set_returns [OF assms(3)] assms(4)
  by (simp add: good_row_def row_typed_def)

lemma good_transaction_id: "stream_transaction_id L j = Inr j' \<Longrightarrow> good_row j \<Longrightarrow> good_row j'"
  unfolding stream_transaction_id_def by (auto simp: bindE_eq_Inr split: if_splits intro: set_good)

lemma good_description: "stream_description L n j = Inr j' \<Longrightarrow> good_row j \<Longrightarrow> good_row j'"
  unfolding stream_description_def by (auto simp: bindE_eq_Inr split: if_splits intro: set_good)

lemma good_replace_keys:
  assumes "replace_keys L a b j = Inr j'" "good_row j" "{a, b} \<inter> {''id'', ''block-id'', ''timestamp''} = {}"
  shows "good_row j'"
proof (cases "0 < count_key j a")
  case True
  with assms(1) obtain v j1 where v: "jl_index L j a = Inr v" "jl_set L j b v = Inr j1" "jl_erase L j1 a = Inr j'"
    unfolding replace_keys_def by (simp only: if_True) (auto simp only: bindE_eq_Inr)
  have "wf_json v" using index_returns [OF v(1)] assms(2) by (simp add: good_row_def)
  from set_good [OF v(2) assms(2) this] have "good_row j1" using assms(3) by blast
  from erase_good [OF v(3) this] show ?thesis using assms(3) by blast
next
  case False
  with assms(1,2) show ?thesis by (simp add: replace_keys_def del: count_key_pos)
qed

lemma good_replace: "replace_all L get_replacement_keys j = Inr j' \<Longrightarrow> good_row j \<Longrightarrow> good_row j'"
  using good_replace_keys [of "''transaction-name''" "''transaction-type''" j j']
  by (simp add: get_replacement_keys_def bindE_eq_Inr)

end

lemma good_stream_row:
  assumes "nlohmann_json L" "wf_json trx" "stream_row L u i t trx = Inr r"
  shows "good_row r"
proof -
  obtain j1 b j2 j3 j4 j5 where j: "jl_set L trx ''id'' (JStr u) = Inr j1" "jl_set L j1 ''block-id'' (JUint b) = Inr j2"
    "jl_set L j2 ''timestamp'' (JInt t) = Inr j3" "stream_transaction_id L j3 = Inr j4"
    "replace_all L get_replacement_keys j4 = Inr j5" "stream_description L (description_max_length L) j5 = Inr r"
    using assms(3) by (auto simp: stream_row_def bindE_eq_Inr)
  note good = nlohmann_json.good_start nlohmann_json.good_transaction_id nlohmann_json.good_replace nlohmann_json.good_description
  show ?thesis
    by (rule good(4) [OF assms(1) j(6) good(3) [OF assms(1) j(5) good(2) [OF assms(1) j(4) good(1) [OF assms(1) j(1-3) assms(2)]]]])
qed

text \<open>The rows collected so far: none, or an array of good ones.\<close>

definition good_rows :: "json \<Rightarrow> bool" where
  "good_rows out \<longleftrightarrow> out = JNull \<or> (\<exists>rs. out = JArr rs \<and> rs \<noteq> [] \<and> list_all good_row rs)"

lemma good_push:
  assumes "nlohmann_json L" "good_rows out" "good_row r" "jl_push_back L out r = Inr out'"
  shows "good_rows out'"
  using nlohmann_json.push_back_returns [OF assms(1,4)] assms(2,3) by (auto simp: good_rows_def)

lemma good_stream_entries:
  assumes "nlohmann_json E" "wf_json trx" "good_rows out" "stream_entries E d i t entries trx out n w = (Inr (out', n'), w')"
  shows "good_rows out'"
  using assms(2-4)
proof (induction entries arbitrary: trx out n w)
  case Nil
  then show ?case by simp
next
  case (Cons entry entries)
  obtain row w1 where g: "get_data E (cursor_get i None (table_cursor True (open_table d t_transactions_processing))) w = (Inr row, w1)"
    using Cons.prems(3) by (auto simp: bindP_def split: prod.splits sum.splits)
  show ?case
  proof (cases "0 < count_key row ''id''")
    case True
    have "stream_entries E d i t entries trx out n w1 = (Inr (out', n'), w')"
      using Cons.prems(3) g True by (simp add: bindP_def del: count_key_pos)
    with Cons.IH Cons.prems(1,2) show ?thesis by blast
  next
    case False
    have "bindP (lift (stream_row E (snd entry) i t trx)) (\<lambda>trx'. bindP (lift (jl_push_back E out trx')) (\<lambda>out'.
        stream_entries E d i t entries trx' out' (n + 1))) w1 = (Inr (out', n'), w')"
      using Cons.prems(3) False by (simp only: stream_entries.simps bindP_apply_Inr [where m = "get_data E _", OF g] if_False)
    then obtain trx' out1 where t: "stream_row E (snd entry) i t trx = Inr trx'" "jl_push_back E out trx' = Inr out1"
      "stream_entries E d i t entries trx' out1 (n + 1) w1 = (Inr (out', n'), w')"
      by (auto simp: bindP_def split: sum.splits)
    have "good_row trx'" by (rule good_stream_row [OF assms(1) Cons.prems(1) t(1)])
    with Cons.IH [OF _ good_push [OF assms(1) Cons.prems(2) _ t(2)] t(3)] show ?thesis by (simp add: good_row_def)
  qed
qed

lemma good_stream_all:
  assumes "nlohmann_json E" "list_all wf_json trxs" "good_rows out" "stream_all E d trxs b t out w = (Inr out', w')"
  shows "good_rows out'"
  using assms(2-4)
proof (induction trxs arbitrary: out w)
  case Nil
  then show ?case by simp
next
  case (Cons trx trxs)
  obtain out1 n w1 where o: "add_stream_transaction E d trx b t out w = (Inr (out1, n), w1)"
    "stream_all E d trxs b t out1 w1 = (Inr out', w')"
    using Cons.prems(3) by (auto simp: bindP_def split: prod.splits sum.splits)
  obtain entries w2 where "stream_entries E d (UInt256ToDecString E b) t entries trx out 0 w2 = (Inr (out1, n), w1)"
    using o(1) by (auto simp: add_stream_transaction_def Let_def bindP_def split: sum.splits)
  with good_stream_entries [OF assms(1)] Cons.prems have "good_rows out1" by auto
  with Cons.IH [OF _ _ o(2)] Cons.prems(1) show ?case by simp
qed

text \<open>
  (C25) The rows of the transaction stream are well-formed: when the task of a block has collected its rows and the
  transactions of the block are well-formed JSON values, there is either no row or an array of rows, each a JSON value with
  ascending keys whose members \<open>id\<close>, \<open>block-id\<close> and \<open>timestamp\<close> are a text, an unsigned and a signed integer.
\<close>

theorem stream_rows_typed:
  assumes "nlohmann_json E" and "list_all wf_json trxs" and "stream_all E d trxs b t JNull w = (Inr out, w')"
  shows "out = JNull \<or> (\<exists>rs. out = JArr rs \<and> rs \<noteq> [] \<and> (\<forall>r \<in> set rs. wf_json r \<and> row_typed r))"
  using good_stream_all [OF assms(1,2) _ assms(3)] by (auto simp: good_rows_def good_row_def list_all_iff)

lemma sample_stream: "\<exists>r. stream_all sample_env sample_db [sample_node_trx] 7 5 JNull (\<lambda>_. []) = (Inr (JArr [r]), (\<lambda>_. []))"
proof -
  note laws = nlohmann_json.json_laws [OF sample_env_json]
  let ?k = "trx_key ''pk'' (to_string 7) ''5''"
  obtain m where m: "sample_node_trx = JObj m" "map_of m ''transaction-id'' = Some (JStr ''5'')"
    "map_of m ''description'' = Some (JStr ''abcd'')" "map_of m ''from'' = Some (JStr ''pk'')" "map_of m ''public-key'' = None"
    by (simp add: sample_node_trx_def obj_def)
  have i: "UInt256ToDecString sample_env 7 = to_string 7" using explorer_env.dec256 [OF sample_explorer, of 7] by simp
  have keys: "find_public_keys sample_env (JObj m) (to_string 7) = Inr [(''pk'', ?k)]"
    using m(2,4,5) by (simp add: find_public_keys_def const_index_def laws)
  have g: "get_data sample_env (cursor_get (to_string 7) None (table_cursor True (open_table sample_db t_transactions_processing))) (\<lambda>_. [])
      = (Inr (JArr []), (\<lambda>_. []))"
    using explorer_env.get_data_row [OF sample_explorer refl, of "to_string 7" True t_transactions_processing "\<lambda>_. []"]
    by (simp add: ref_rows_def)
  obtain m' where r: "stream_row sample_env ?k (to_string 7) 5 (JObj m) = Inr (JObj m')"
    using stream_row_value [OF sample_env_json m(2,3), of 7 ?k 5] by auto
  have "stream_entries sample_env sample_db (to_string 7) 5 [(''pk'', ?k)] (JObj m) JNull 0 (\<lambda>_. [])
      = (Inr (JArr [JObj m'], 1), (\<lambda>_. []))"
    using r by (simp add: bindP_def [of "get_data sample_env _"] g laws)
  then have "add_stream_transaction sample_env sample_db (JObj m) 7 5 JNull (\<lambda>_. []) = (Inr (JArr [JObj m'], 1), (\<lambda>_. []))"
    unfolding add_stream_transaction_def i Let_def keys bindP_basic .
  then show ?thesis by (simp add: m(1) bindP_def)
qed

theorem stream_rows_typed_witness:
  "\<exists>r w'. stream_all sample_env sample_db [sample_node_trx] 7 5 JNull (\<lambda>_. []) = (Inr (JArr [r]), w')
    \<and> wf_json r \<and> row_typed r"
proof -
  obtain r where r: "stream_all sample_env sample_db [sample_node_trx] 7 5 JNull (\<lambda>_. []) = (Inr (JArr [r]), (\<lambda>_. []))"
    using sample_stream by blast
  have "list_all wf_json [sample_node_trx]" by (simp add: sample_node_trx_def obj_def)
  from stream_rows_typed [OF sample_env_json this r] r show ?thesis by auto
qed

end
