(* ===== verification/Schema.thy ===== *)
theory Schema
  imports Db
begin

text \<open>
  The tables and indices of the database. \<open>reql_schema\<close> is the documented behaviour of the server on the
  queries that list and create them: \<^verbatim>\<open>index_wait\<close> on an index that does not exist is an error, a
  query without one of the four operations that create or drop leaves them as they are. Shown: \<^verbatim>\<open>Db::init\<close>
  (\<^verbatim>\<open>common/src/db/db.cpp\<close>) leaves a database with every table of \<open>get_names\<close> and every index of \<open>get_indices\<close>. The table \<open>wallets_top\<close>
  is not among them: the method of the statistics that fills it creates it (\<open>ensure_table\<close>).
\<close>

section \<open>The server\<close>

fun changes_schema :: "op1 \<Rightarrow> bool" where
  "changes_schema O_DB_CREATE = True"
| "changes_schema (O_TABLE_CREATE t) = True"
| "changes_schema (O_TABLE_DROP t) = True"
| "changes_schema (O_INDEX_CREATE i) = True"
| "changes_schema _ = False"

fun keeps_schema :: "reql \<Rightarrow> bool" where
  "keeps_schema (R_OP1 f q) = (\<not> changes_schema f \<and> keeps_schema q)"
| "keeps_schema (R_OP2 f q v) = (keeps_schema q \<and> keeps_schema v)"
| "keeps_schema (R_FUNC xs b) = keeps_schema b"
| "keeps_schema (R_FOLD q b f e) = (keeps_schema q \<and> keeps_schema b \<and> keeps_schema f \<and> keeps_schema e)"
| "keeps_schema (R_ARRAY qs) = list_all keeps_schema qs"
| "keeps_schema (R_OBJ kvs) = list_all (\<lambda>kv. keeps_schema (snd kv)) kvs"
| "keeps_schema _ = True"

text \<open>The indices of every table, or nothing while there is no database of this name.\<close>

type_synonym schema = "string \<rightharpoonup> string set"

locale reql_schema =
  fixes E :: "('w, 'e) env_scheme" and dbn :: string and schema :: "'w \<Rightarrow> schema option"
  assumes run_db_create: "schema w = None \<Longrightarrow>
      \<exists>v w'. reql_run E (R_DB_CREATE dbn) w = (Inr v, w') \<and> schema w' = Some Map.empty"
    and run_table_list: "schema w = Some S \<Longrightarrow>
      \<exists>vs. reql_run E (R_TABLE_LIST (R_DB dbn)) w = (Inr (JArr vs), w) \<and> set vs = JStr ` dom S"
    and run_table_create: "schema w = Some S \<Longrightarrow> S t = None \<Longrightarrow>
      \<exists>v w'. reql_run E (R_TABLE_CREATE (R_DB dbn) t) w = (Inr v, w') \<and> schema w' = Some (S(t \<mapsto> {}))"
    and run_index_wait: "schema w = Some S \<Longrightarrow> S t = Some I \<Longrightarrow> i \<in> I \<Longrightarrow>
      \<exists>b. reql_run E (R_IS_EMPTY (R_INDEX_WAIT (R_TABLE (R_DB dbn) t od) i)) w = (Inr (JBool b), w)"
    and run_index_wait_missing: "schema w = Some S \<Longrightarrow> S t = Some I \<Longrightarrow> i \<notin> I \<Longrightarrow>
      \<exists>m. reql_run E (R_IS_EMPTY (R_INDEX_WAIT (R_TABLE (R_DB dbn) t od) i)) w = (Inl (Reql_error m), w)"
    and run_index_create: "schema w = Some S \<Longrightarrow> S t = Some I \<Longrightarrow> i \<notin> I \<Longrightarrow>
      \<exists>v w'. reql_run E (R_INDEX_CREATE (R_TABLE (R_DB dbn) t od) i) w = (Inr v, w') \<and> schema w' = Some (S(t \<mapsto> insert i I))"
    and schema_frame: "keeps_schema q \<Longrightarrow> schema (snd (reql_run E q w)) = schema w"

section \<open>What an initialization adds\<close>

definition extends :: "schema \<Rightarrow> schema \<Rightarrow> bool" where
  "extends S S' \<longleftrightarrow> (\<forall>t I. S t = Some I \<longrightarrow> (\<exists>J. S' t = Some J \<and> I \<subseteq> J))"

definition has_field_index :: "schema \<Rightarrow> index_description \<Rightarrow> bool" where
  "has_field_index S desc \<longleftrightarrow> (\<exists>I. S (ix_table desc) = Some I \<and> ix_field desc \<in> I)"

lemma extends_refl [simp]: "extends S S"
  by (simp add: extends_def)

lemma extends_trans: "extends S T \<Longrightarrow> extends T U \<Longrightarrow> extends S U"
  unfolding extends_def by (meson order_trans)

lemma extends_dom: "extends S S' \<Longrightarrow> dom S \<subseteq> dom S'"
  unfolding extends_def by blast

lemma extends_index: "extends S S' \<Longrightarrow> has_field_index S desc \<Longrightarrow> has_field_index S' desc"
  unfolding extends_def has_field_index_def by blast

context reql_schema
begin

text \<open>A loop that creates what is missing, step by step.\<close>

definition grown :: "'w \<Rightarrow> 'w \<Rightarrow> bool" where
  "grown w w' \<longleftrightarrow> (\<forall>S. schema w = Some S \<longrightarrow> (\<exists>S'. schema w' = Some S' \<and> extends S S'))"

lemma forP_extends:
  assumes "\<And>x w S. x \<in> set xs \<Longrightarrow> schema w = Some S \<Longrightarrow> Q S \<Longrightarrow>
      \<exists>w' S'. f x w = (Inr (), w') \<and> schema w' = Some S' \<and> extends S S' \<and> H S' x"
    and Q: "\<And>S S'. extends S S' \<Longrightarrow> Q S \<Longrightarrow> Q S'" and H: "\<And>S S' x. extends S S' \<Longrightarrow> H S x \<Longrightarrow> H S' x"
    and "schema w = Some S" "Q S"
  shows "\<exists>w' S'. forP xs f w = (Inr (), w') \<and> schema w' = Some S' \<and> extends S S' \<and> (\<forall>x \<in> set xs. H S' x)"
proof -
  have "\<exists>w'. forP xs f w = (Inr (), w') \<and> (\<exists>S. schema w' = Some S \<and> Q S) \<and> grown w w'
      \<and> (\<forall>x \<in> set xs. \<exists>S. schema w' = Some S \<and> H S x)"
  proof (rule forP_steps)
    show "grown s s" for s by (simp add: grown_def)
    show "grown s s''" if "grown s s'" "grown s' s''" for s s' s''
      using that extends_trans unfolding grown_def by blast
    show "\<exists>S. schema s' = Some S \<and> H S x" if "grown s s'" "\<exists>S. schema s = Some S \<and> H S x" for s s' x
      using that H unfolding grown_def by blast
    show "\<exists>s'. f x s = (Inr (), s') \<and> (\<exists>S. schema s' = Some S \<and> Q S) \<and> grown s s' \<and> (\<exists>S. schema s' = Some S \<and> H S x)"
      if "x \<in> set xs" "\<exists>S. schema s = Some S \<and> Q S" for x s
      using that assms(1) Q unfolding grown_def by (metis option.inject)
  qed (use assms(4,5) in auto)
  with assms(4) show ?thesis unfolding grown_def by fastforce
qed

lemma ensure_table_step:
  assumes "db_name d = dbn" "schema w = Some S"
  shows "\<exists>w' S'. bindP (has_table E d t) (\<lambda>has. if has then ret () else bindP (create_table E d t) (\<lambda>_. ret ())) w = (Inr (), w')
    \<and> schema w' = Some S' \<and> extends S S' \<and> t \<in> dom S'"
proof -
  obtain vs where "reql_run E (R_TABLE_LIST (R_DB dbn)) w = (Inr (JArr vs), w)" "set vs = JStr ` dom S"
    using run_table_list [OF assms(2)] by blast
  then have has: "has_table E d t w = (Inr (t \<in> dom S), w)"
    using assms(1) by (auto simp: has_table_def query_def bindP_def catch_reql_def catchP_def)
  show ?thesis
  proof (cases "S t")
    case None
    obtain v w' where "reql_run E (R_TABLE_CREATE (R_DB dbn) t) w = (Inr v, w')" "schema w' = Some (S(t \<mapsto> {}))"
      using run_table_create [OF assms(2) None] by blast
    with None has assms(1) show ?thesis
      by (auto simp: create_table_def query_def bindP_def catch_reql_def catchP_def extends_def dom_def)
  next
    case (Some I)
    with has assms(2) show ?thesis by (auto simp: bindP_def)
  qed
qed

lemma ensure_index_step:
  assumes "db_name d = dbn" "schema w = Some S" "ix_table desc \<in> dom S"
  shows "\<exists>w' S'. bindP (has_index E (ix_field desc) (open_table d (ix_table desc))) (\<lambda>has.
      if has then ret () else create_index E (ix_field desc) (open_table d (ix_table desc))) w = (Inr (), w')
    \<and> schema w' = Some S' \<and> extends S S' \<and> has_field_index S' desc"
proof -
  let ?t = "ix_table desc" and ?i = "ix_field desc"
  obtain I where I: "S ?t = Some I" using assms(3) by blast
  have has: "has_index E ?i (open_table d ?t) w = (Inr (?i \<in> I), w)"
    using run_index_wait [OF assms(2) I, of ?i False] run_index_wait_missing [OF assms(2) I, of ?i False] assms(1)
    by (cases "?i \<in> I") (auto simp: has_index_def tab_query_def open_table_def query_def bindP_def catchP_def)
  show ?thesis
  proof (cases "?i \<in> I")
    case False
    obtain v w' where "reql_run E (R_INDEX_CREATE (R_TABLE (R_DB dbn) ?t False) ?i) w = (Inr v, w')"
      "schema w' = Some (S(?t \<mapsto> insert ?i I))"
      using run_index_create [OF assms(2) I False] by blast
    with False has assms(1) I show ?thesis
      by (auto simp: create_index_def tab_query_def open_table_def query_def bindP_def catchP_def extends_def has_field_index_def)
  next
    case True
    with has assms(2) I show ?thesis by (auto simp: bindP_def has_field_index_def)
  qed
qed

section \<open>Migration\<close>

lemma schema_run: "keeps_schema q \<Longrightarrow> invP (\<lambda>w. schema w = X) (reql_run E q)"
  by (simp add: invP_def schema_frame)

lemma schema_get_number: "keeps_schema (cur_term c) \<Longrightarrow> invP (\<lambda>w. schema w = X) (get_number E c)"
  unfolding get_number_def catch_reql_def by (intro inv_intros schema_run)

lemma schema_remove: "keeps_schema (cur_term c) \<Longrightarrow> invP (\<lambda>w. schema w = X) (cursor_remove E c)"
  unfolding cursor_remove_def catch_reql_def by (intro inv_intros schema_run) auto

lemma schema_insert: "invP (\<lambda>w. schema w = X) (table_insert E data (open_table d n))"
  unfolding table_insert_def catch_reql_def by (intro inv_intros schema_run) (auto simp: cursor_defs)

lemmas schema_intros = inv_intros schema_get_number schema_remove schema_insert

lemma schema_version: "invP (\<lambda>w. schema w = X) (get_version E d)" "invP (\<lambda>w. schema w = X) (update_version E d v)"
  unfolding get_version_def update_version_def catch_reql_def by (intro schema_intros; simp add: cursor_defs)+

lemma schema_migration: "invP (\<lambda>w. schema w = X) (migration E v d)"
  unfolding migration_def get_last_processed_block_id_def m127_def catch_reql_def
  by (intro schema_intros schema_version) (simp_all add: cursor_defs)

section \<open>Initialization\<close>

lemma schema_last_block: "invP (\<lambda>w. schema w = X) (get_last_block_id E d)"
  unfolding get_last_block_id_def catch_reql_def by (intro schema_intros) (simp add: cursor_defs)

lemma create_db_step:
  assumes "db_name d = dbn" "is_exist d = (schema w \<noteq> None)"
  shows "\<exists>w' S'. (if \<not> is_exist d then bindP (reql_run E (R_DB_CREATE (db_name d))) (\<lambda>_. ret ()) else ret ()) w = (Inr (), w')
    \<and> schema w' = Some S' \<and> (\<forall>S. schema w = Some S \<longrightarrow> S' = S)"
  using run_db_create [of w] assms by (cases "schema w") (auto simp: bindP_def)

lemma tables_loop:
  assumes "db_name d = dbn" "schema w = Some S"
  shows "\<exists>w' S'. forP ts (\<lambda>name. bindP (has_table E d name) (\<lambda>has.
      if has then ret () else bindP (create_table E d name) (\<lambda>_. ret ()))) w = (Inr (), w')
    \<and> schema w' = Some S' \<and> extends S S' \<and> (\<forall>t \<in> set ts. t \<in> dom S')"
proof (rule forP_extends [where Q = "\<lambda>_. True"])
  show "t \<in> dom S'" if "extends S S'" "t \<in> dom S" for S S' t using that extends_dom by blast
qed (use assms ensure_table_step in auto)

lemma indices_loop:
  assumes "db_name d = dbn" "schema w = Some S" "ix_table ` set descs \<subseteq> dom S"
  shows "\<exists>w' S'. forP descs (\<lambda>desc. bindP (has_index E (ix_field desc) (open_table d (ix_table desc))) (\<lambda>has.
      if has then ret () else create_index E (ix_field desc) (open_table d (ix_table desc)))) w = (Inr (), w')
    \<and> schema w' = Some S' \<and> extends S S' \<and> (\<forall>desc \<in> set descs. has_field_index S' desc)"
proof (rule forP_extends [where Q = "\<lambda>S. ix_table ` set descs \<subseteq> dom S"])
  show "ix_table ` set descs \<subseteq> dom S'" if "extends S S'" "ix_table ` set descs \<subseteq> dom S" for S S'
    using that extends_dom by (meson order_trans)
  show "has_field_index S' desc" if "extends S S'" "has_field_index S desc" for S S' desc
    using that by (rule extends_index)
  show "\<exists>w' S'. bindP (has_index E (ix_field desc) (open_table d (ix_table desc))) (\<lambda>has.
      if has then ret () else create_index E (ix_field desc) (open_table d (ix_table desc))) w = (Inr (), w')
    \<and> schema w' = Some S' \<and> extends S S' \<and> has_field_index S' desc"
    if "desc \<in> set descs" "schema w = Some S" "ix_table ` set descs \<subseteq> dom S" for desc w S
    using that assms(1) by (intro ensure_index_step) auto
qed (fact assms)+

lemma init_schema:
  assumes d: "db_name d = dbn" and "is_exist d = (schema w \<noteq> None)"
  shows "\<exists>S'. schema (snd (db_init E v d w)) = Some S' \<and> set get_names \<subseteq> dom S'
    \<and> (\<forall>desc \<in> set get_indices. has_field_index S' desc) \<and> (\<forall>S. schema w = Some S \<longrightarrow> extends S S')"
proof -
  let ?create = "if \<not> is_exist d then bindP (reql_run E (R_DB_CREATE (db_name d))) (\<lambda>_. ret ()) else ret ()"
  let ?tables = "forP get_names (\<lambda>name. bindP (has_table E d name) (\<lambda>has.
      if has then ret () else bindP (create_table E d name) (\<lambda>_. ret ())))"
  let ?indices = "forP get_indices (\<lambda>desc. bindP (has_index E (ix_field desc) (open_table d (ix_table desc))) (\<lambda>has.
      if has then ret () else create_index E (ix_field desc) (open_table d (ix_table desc))))"
  obtain w1 S1 where 1: "?create w = (Inr (), w1)" "schema w1 = Some S1" "\<forall>S. schema w = Some S \<longrightarrow> S1 = S"
    using create_db_step [OF assms] by blast
  obtain w2 S2 where 2: "?tables w1 = (Inr (), w2)" "schema w2 = Some S2" "extends S1 S2" "\<forall>t \<in> set get_names. t \<in> dom S2"
    using tables_loop [OF d 1(2)] by blast
  have "ix_table ` set get_indices \<subseteq> set get_names" by (auto simp: get_indices_def get_names_def)
  with 2(4) have names: "ix_table ` set get_indices \<subseteq> dom S2" by blast
  obtain w3 S3 where 3: "?indices w2 = (Inr (), w3)" "schema w3 = Some S3" "extends S2 S3"
      "\<forall>desc \<in> set get_indices. has_field_index S3 desc"
    using indices_loop [OF d 2(2) names] by blast
  let ?tail = "bindP (if is_exist d
      then bindP (get_last_block_id E d) (\<lambda>b. ret (d\<lparr>last_block_id := b\<rparr>)) else ret d) (\<lambda>d'.
      bindP (migration E v d') (\<lambda>_. ret (\<not> is_exist d, d')))"
  have tail: "invP (\<lambda>w. schema w = Some S3) (catch_reql ?tail (\<not> is_exist d, d))"
    unfolding catch_reql_def by (intro inv_intros schema_last_block schema_migration)
  have "bindP ?create (\<lambda>_. bindP ?tables (\<lambda>_. bindP ?indices (\<lambda>_. ?tail))) w = ?tail w3"
    using bindP_apply_Inr [where m = ?create, OF 1(1)] bindP_apply_Inr [where m = ?tables, OF 2(1)]
      bindP_apply_Inr [where m = ?indices, OF 3(1)] by (metis (no_types))
  then have "db_init E v d w = catch_reql ?tail (\<not> is_exist d, d) w3"
    unfolding db_init_def Let_def catch_reql_def catchP_def by (simp only:)
  with tail 3(2) have "schema (snd (db_init E v d w)) = Some S3" by (simp add: invP_def)
  with 1(3) 2 3 extends_trans [OF 2(3) 3(3)] extends_dom [OF 3(3)] show ?thesis by blast
qed

end

text \<open>
  (C26) \<open>Db::init\<close> builds the database: whatever it finds, it leaves every table of \<open>get_names\<close> and every index of
  \<open>get_indices\<close>, and the tables and indices that were there. It does so also when a later part of it raises. (The table \<open>wallets_top\<close>, which \<open>get-statistics\<close> reads, is not in \<open>get_names\<close>.)
\<close>

theorem db_init_schema:
  assumes "reql_schema E (db_name d) schema" and "is_exist d = (schema w \<noteq> None)"
  shows "\<exists>S'. schema (snd (db_init E v d w)) = Some S' \<and> set get_names \<subseteq> dom S'
    \<and> (\<forall>desc \<in> set get_indices. has_field_index S' desc) \<and> (\<forall>S. schema w = Some S \<longrightarrow> extends S S')"
  by (rule reql_schema.init_schema [OF assms(1) refl assms(2)])

section \<open>A server with tables and indices\<close>

text \<open>The server of \<open>Ref_Server\<close> with the list of the tables of one database and their indices.\<close>

type_synonym schema_db = "refdb \<times> (string \<times> string list) list option"

definition schema_of :: "schema_db \<Rightarrow> schema option" where
  "schema_of w = map_option (\<lambda>xs. map_option set \<circ> map_of xs) (snd w)"

definition on_schema ::
  "((string \<times> string list) list \<Rightarrow> (json \<times> (string \<times> string list) list) option) \<Rightarrow> schema_db \<Rightarrow> json result \<times> schema_db" where
  "on_schema f w =
     (case Option.bind (snd w) f of None \<Rightarrow> (ref_error, w) | Some (v, xs) \<Rightarrow> (Inr v, (fst w, Some xs)))"

definition index_list :: "string \<Rightarrow> string \<Rightarrow> (string \<times> string list) list \<Rightarrow> (json \<times> (string \<times> string list) list) option" where
  "index_list t i xs =
     Option.bind (map_of xs t) (\<lambda>is. if i \<in> set is then Some (JBool False, xs) else None)"

definition new_table :: "string \<Rightarrow> (string \<times> string list) list \<Rightarrow> (json \<times> (string \<times> string list) list) option" where
  "new_table t xs = (if map_of xs t = None then Some (JNull, (t, []) # xs) else None)"

definition new_index :: "string \<Rightarrow> string \<Rightarrow> (string \<times> string list) list \<Rightarrow> (json \<times> (string \<times> string list) list) option" where
  "new_index t i xs =
     Option.bind (map_of xs t) (\<lambda>is. if i \<in> set is then None else Some (JNull, (t, i # is) # xs))"

fun schema_run :: "reql \<Rightarrow> schema_db \<Rightarrow> json result \<times> schema_db" where
  "schema_run (R_OP1 O_DB_CREATE q) w = (if snd w = None then (Inr JNull, (fst w, Some [])) else (ref_error, w))"
| "schema_run (R_OP1 O_TABLE_LIST q) w = on_schema (\<lambda>xs. Some (JArr (map (JStr \<circ> fst) xs), xs)) w"
| "schema_run (R_OP1 (O_TABLE_CREATE t) q) w = on_schema (new_table t) w"
| "schema_run (R_OP1 (O_INDEX_CREATE i) q) w = on_schema (new_index (base_table q) i) w"
| "schema_run (R_OP1 O_IS_EMPTY (R_OP1 (O_INDEX_WAIT i) q)) w = on_schema (index_list (base_table q) i) w"
| "schema_run q w = (case ref_run q (fst w) of (r, rows) \<Rightarrow> (r, (rows, snd w)))"

definition schema_env :: "schema_db env" where
  "schema_env = mile_lib.extend (ref_mile (\<lambda>_. None) (\<lambda>_ _. [])) (env.fields schema_run (\<lambda>_. 0))"

lemma schema_env_run [simp]: "reql_run schema_env = schema_run"
  by (simp add: schema_env_def mile_lib.defs env.defs)

lemma on_schema_frame: "(\<And>xs v ys. f xs = Some (v, ys) \<Longrightarrow> ys = xs) \<Longrightarrow> snd (on_schema f w) = w"
  by (cases w) (auto simp: on_schema_def split: option.splits prod.splits bind_splits)

lemma schema_run_frame: "keeps_schema q \<Longrightarrow> snd (snd (schema_run q w)) = snd w"
proof (induction q w rule: schema_run.induct)
  case (5 i q w)
  have "snd (on_schema (index_list (base_table q) i) w) = w"
    by (rule on_schema_frame) (auto simp: index_list_def split: bind_splits if_splits)
  then show ?case by simp
next
  case (2 q w)
  have "snd (on_schema (\<lambda>xs. Some (JArr (map (JStr \<circ> fst) xs), xs)) w) = w" by (rule on_schema_frame) simp
  then show ?case by simp
qed (auto split: prod.splits)

lemma schema_of_Some: "schema_of w = Some S \<longleftrightarrow> (\<exists>xs. w = (fst w, Some xs) \<and> S = map_option set \<circ> map_of xs)"
  by (cases w) (auto simp: schema_of_def)

lemma schema_of_list [simp]: "schema_of (rs, Some xs) = Some (map_option set \<circ> map_of xs)"
  by (simp add: schema_of_def)

lemma map_of_upd: "map_option set \<circ> map_of ((t, is) # xs) = (map_option set \<circ> map_of xs)(t \<mapsto> set is)"
  by (simp add: fun_eq_iff)

interpretation schema_server: reql_schema schema_env dbn schema_of for dbn
proof (unfold_locales, goal_cases)
  case (1 w)
  then show ?case by (cases w) (auto simp: schema_of_def fun_eq_iff)
next
  case (4 w S t I i od)
  then show ?case by (cases w) (auto simp: schema_of_Some on_schema_def index_list_def intro!: exI [of _ False])
next
  case (7 q w)
  then show ?case by (simp add: schema_of_def schema_run_frame)
qed (auto simp: schema_of_Some on_schema_def new_table_def new_index_def index_list_def ref_error_def map_of_upd
    dom_map_of_conv_image_fst dom_map_option_comp image_image simp del: map_of.simps fun_upd_apply)

theorem db_init_schema_witness:
  "\<exists>S'. schema_of (snd (db_init schema_env 0 (sample_db\<lparr>db_exists := False\<rparr>) (\<lambda>_. [], None))) = Some S'
    \<and> set get_names \<subseteq> dom S' \<and> (\<forall>desc \<in> set get_indices. has_field_index S' desc)"
proof -
  have "is_exist (sample_db\<lparr>db_exists := False\<rparr>) = (schema_of (\<lambda>_. [], None) \<noteq> None)"
    by (simp add: is_exist_def schema_of_def)
  from db_init_schema [OF schema_server.reql_schema_axioms this] show ?thesis by blast
qed

end
