(* ===== verification/Wallets.thy ===== *)
theory Wallets
  imports Transactions
begin

text \<open>
  The histories of the wallets. \<open>add_wallet_transaction\<close> (\<^verbatim>\<open>common/src/db/transactions/transactions.cpp\<close>) unites the columns \<open>blocks\<close> and
  \<open>transactions\<close> of a wallet with the new block number and the new entry, by \<open>update\<close> of
  \<^verbatim>\<open>common/src/db/table.cpp\<close>. \<open>reql_union\<close> adds what is documented of \<^verbatim>\<open>set_union\<close>, the values of both arrays, each once, in an
  order that is not specified, and of \<^verbatim>\<open>slice\<close> of an array; it describes a server that does not reach the limit of its arrays (100000 elements, if not set otherwise). Shown: the task of a block records every transaction with all wallets it names and
  forgets nothing, and asks for the new states of these wallets.
\<close>

section \<open>The server\<close>

locale reql_union = explorer_env E dbn rows
  for E :: "('w, 'e) env_scheme" and dbn :: string and rows :: "'w \<Rightarrow> string \<Rightarrow> row_map" +
  assumes run_set_union: "rows w t i = Some (JObj m) \<Longrightarrow> map_of m k = Some (JArr xs) \<Longrightarrow> k \<noteq> ''id'' \<Longrightarrow>
    \<exists>v w' ys. reql_run E (R_UPDATE (R_GET (R_TABLE (R_DB dbn) t od) i) (set_union_func k (JArr zs)) True) w = (Inr v, w')
      \<and> set ys = set xs \<union> set zs \<and> distinct ys \<and> rows w' = (rows w)(t := (rows w t)(i \<mapsto> JObj (put k (JArr ys) m)))"
    and run_slice: "rows w t i = Some r \<Longrightarrow> field r k = Some (JArr xs) \<Longrightarrow> a \<le> b \<Longrightarrow>
    reql_run E (R_SLICE (R_GET_FIELD (R_GET (R_TABLE (R_DB dbn) t od) i) k) a b) w = (Inr (JArr (take (unat b - unat a) (drop (unat a) xs))), w)"

interpretation ref_un: reql_union "ref_env parse dump now" dbn ref_rows for parse dump now dbn
proof (intro reql_union.intro ref_explorer reql_union_axioms.intro)
  show "reql_run (ref_env parse dump now) (R_SLICE (R_GET_FIELD (R_GET (R_TABLE (R_DB dbn) t od) i) k) a b) w
      = (Inr (JArr (take (unat b - unat a) (drop (unat a) xs))), w)"
    if "ref_rows w t i = Some r" "field r k = Some (JArr xs)" "a \<le> b" for w t i r k xs and a b :: uint64 and od
    using that by (auto simp: ref_env_run find_visible_rows dest: field_Some_not_array)
next
  fix w t i m k xs od zs
  assume r: "ref_rows w t i = Some (JObj m)" "map_of m k = Some (JArr xs)" "k \<noteq> ''id''"
  let ?ys = "remdups (xs @ zs)" and ?q = "R_GET (R_TABLE (R_DB dbn) t od) i"
  have id: "id_string (JObj m) = Some i" "id_string (JObj (put k (JArr ?ys) m)) = Some i"
    using r find_has_id [of i "w t" "JObj m"] by (auto simp: ref_rows_def id_string_Some map_of_put)
  have "find (has_id j) (without [JObj m] (w t) @ [JObj (put k (JArr ?ys) m)]) = ((ref_rows w t)(i \<mapsto> JObj (put k (JArr ?ys) m))) j" for j
    using id by (auto simp: find_append find_without ref_rows_def has_id_def split: option.splits)
  then have "ref_rows (w(t := without [JObj m] (w t) @ [JObj (put k (JArr ?ys) m)])) = (ref_rows w)(t := (ref_rows w t)(i \<mapsto> JObj (put k (JArr ?ys) m)))"
    by (simp add: ref_rows_upd fun_eq_iff)
  then show "\<exists>v w' ys. reql_run (ref_env parse dump now) (R_UPDATE ?q (set_union_func k (JArr zs)) True) w = (Inr v, w')
      \<and> set ys = set xs \<union> set zs \<and> distinct ys \<and> ref_rows w' = (ref_rows w)(t := (ref_rows w t)(i \<mapsto> JObj (put k (JArr ys) m)))"
    using r by (intro exI conjI) (simp_all add: ref_env_run find_visible_rows set_union_func_def patched_def)
qed

section \<open>Histories\<close>

definition holds_item :: "json \<Rightarrow> string \<Rightarrow> json \<Rightarrow> bool" where
  "holds_item r f x \<longleftrightarrow> (\<exists>xs. field r f = Some (JArr xs) \<and> x \<in> set xs)"

definition wallet_row :: "json \<Rightarrow> bool" where
  "wallet_row r \<longleftrightarrow> (\<exists>xs ys. field r ''blocks'' = Some (JArr xs) \<and> field r ''transactions'' = Some (JArr ys))"

text \<open>The stray second key of \<open>get_all\<close> names no wallet.\<close>

definition wallets_inv :: "row_map \<Rightarrow> bool" where
  "wallets_inv W \<longleftrightarrow> (\<forall>r \<in> ran W. wallet_row r) \<and> W index_id_text = None"

definition recorded :: "row_map \<Rightarrow> string \<Rightarrow> uint64 \<Rightarrow> json \<Rightarrow> bool" where
  "recorded W k b e \<longleftrightarrow> (\<exists>r. W k = Some r \<and> holds_item r ''blocks'' (JUint b) \<and> holds_item r ''transactions'' e)"

definition row_grows :: "json \<Rightarrow> json \<Rightarrow> bool" where
  "row_grows r r' \<longleftrightarrow> (\<forall>f x. holds_item r f x \<longrightarrow> holds_item r' f x)"

definition wallets_grow :: "row_map \<Rightarrow> row_map \<Rightarrow> bool" where
  "wallets_grow W W' \<longleftrightarrow> (\<forall>k r. W k = Some r \<longrightarrow> (\<exists>r'. W' k = Some r' \<and> row_grows r r'))"

lemma wallets_grow_refl: "wallets_grow W W"
  by (simp add: wallets_grow_def row_grows_def)

lemma wallets_grow_trans: "wallets_grow W W' \<Longrightarrow> wallets_grow W' W'' \<Longrightarrow> wallets_grow W W''"
  unfolding wallets_grow_def row_grows_def by meson

lemma recorded_grows: "wallets_grow W W' \<Longrightarrow> recorded W k b e \<Longrightarrow> recorded W' k b e"
  unfolding wallets_grow_def row_grows_def recorded_def by meson

lemma wallets_grow_upd:
  "(\<And>r. W i = Some r \<Longrightarrow> row_grows r r') \<Longrightarrow> wallets_grow W (W(i \<mapsto> r'))"
  by (auto simp: wallets_grow_def row_grows_def)

lemma wallets_inv_upd: "wallets_inv W \<Longrightarrow> wallet_row r \<Longrightarrow> i \<noteq> index_id_text \<Longrightarrow> wallets_inv (W(i \<mapsto> r))"
  by (auto simp: wallets_inv_def ran_def)

lemma row_grows_put:
  "map_of m k = Some (JArr xs) \<Longrightarrow> set xs \<subseteq> set ys \<Longrightarrow> row_grows (JObj m) (JObj (put k (JArr ys) m))"
  by (auto simp: row_grows_def holds_item_def map_of_put)

context reql_union
begin

text \<open>One wallet.\<close>

lemma columns_effect:
  assumes d: "db_name d = dbn" and inv: "wallets_inv (rows w t_wallets)" and i: "i \<noteq> index_id_text"
  shows "\<exists>w' W'. table_update_columns E i [(''blocks'', JArr [JUint b]), (''transactions'', JArr [e])] (open_table d t_wallets) w = (Inr (), w')
    \<and> rows w' = (rows w)(t_wallets := W') \<and> wallets_inv W' \<and> wallets_grow (rows w t_wallets) W' \<and> recorded W' i b e"
proof -
  let ?T = "R_TABLE (R_DB dbn) t_wallets False"
  have g: "get_all_is_empty E i (open_table d t_wallets) w = (Inr (rows w t_wallets i = None), w)"
    using d inv by (simp add: get_all_is_empty_def cursor_defs run_get_all_empty bindP_def wallets_inv_def)
  show ?thesis
  proof (cases "rows w t_wallets i")
    case None
    let ?m = "put ''transactions'' (JArr [e]) (put ''blocks'' (JArr [JUint b]) [(''id'', JStr i)])"
    have id: "id_string (JObj ?m) = Some i" by (simp add: id_string_Some map_of_put)
    then obtain v w' where w': "reql_run E (R_INSERT ?T (R_JSON (JObj ?m)) False) w = (Inr v, w')"
      "rows w' = (rows w)(t_wallets := insert_row (rows w t_wallets) (JObj ?m))"
      using run_insert [of ?m t_wallets False w] by (auto simp: has_string_id_def)
    have W: "insert_row (rows w t_wallets) (JObj ?m) = (rows w t_wallets)(i \<mapsto> JObj ?m)"
      using None id by (simp add: insert_row_def)
    have row: "wallet_row (JObj ?m)" "holds_item (JObj ?m) ''blocks'' (JUint b)" "holds_item (JObj ?m) ''transactions'' e"
      by (simp_all add: wallet_row_def holds_item_def map_of_put)
    have "table_update_columns E i [(''blocks'', JArr [JUint b]), (''transactions'', JArr [e])] (open_table d t_wallets) w = (Inr (), w')"
      using None g w'(1) d by (simp add: table_update_columns_def catch_reql_def catchP_def bindP_def cursor_defs)
    with w'(2) W None row wallets_inv_upd [OF inv row(1) i] show ?thesis
      by (intro exI [of _ w'] exI [of _ "(rows w t_wallets)(i \<mapsto> JObj ?m)"]) (auto simp: recorded_def intro!: wallets_grow_upd)
  next
    case (Some r)
    then obtain m where r: "r = JObj m" using rows_keyed [OF Some] by (cases r) (auto simp: id_string_Some)
    from Some inv r obtain xs ys where m: "map_of m ''blocks'' = Some (JArr xs)" "map_of m ''transactions'' = Some (JArr ys)"
      by (auto simp: wallets_inv_def wallet_row_def ran_def)
    obtain v1 w1 xs' where w1: "reql_run E (R_UPDATE (R_GET ?T i) (set_union_func ''blocks'' (JArr [JUint b])) True) w = (Inr v1, w1)"
      "set xs' = set xs \<union> {JUint b}" "rows w1 = (rows w)(t_wallets := (rows w t_wallets)(i \<mapsto> JObj (put ''blocks'' (JArr xs') m)))"
      using run_set_union [of w t_wallets i m "''blocks''" xs False "[JUint b]"] Some r m by auto
    let ?m1 = "put ''blocks'' (JArr xs') m"
    have m1: "map_of ?m1 ''transactions'' = Some (JArr ys)" "rows w1 t_wallets i = Some (JObj ?m1)"
      using m w1(3) by (simp_all add: map_of_put)
    obtain v2 w2 ys' where w2: "reql_run E (R_UPDATE (R_GET ?T i) (set_union_func ''transactions'' (JArr [e])) True) w1 = (Inr v2, w2)"
      "set ys' = set ys \<union> {e}" "rows w2 = (rows w1)(t_wallets := (rows w1 t_wallets)(i \<mapsto> JObj (put ''transactions'' (JArr ys') ?m1)))"
      using run_set_union [of w1 t_wallets i ?m1 "''transactions''" ys False "[e]"] m1 by auto
    let ?m2 = "put ''transactions'' (JArr ys') ?m1"
    have row: "wallet_row (JObj ?m2)" "holds_item (JObj ?m2) ''blocks'' (JUint b)" "holds_item (JObj ?m2) ''transactions'' e"
      using w1(2) w2(2) by (simp_all add: wallet_row_def holds_item_def map_of_put)
    have grows: "row_grows r (JObj ?m2)"
      using row_grows_put [OF m(1), of xs'] row_grows_put [OF m1(1), of ys'] w1(2) w2(2) r by (auto simp: row_grows_def)
    have "table_update_columns E i [(''blocks'', JArr [JUint b]), (''transactions'', JArr [e])] (open_table d t_wallets) w = (Inr (), w2)"
      using Some g w1(1) w2(1) d by (simp add: table_update_columns_def catch_reql_def catchP_def bindP_def cursor_defs)
    moreover have "rows w2 = (rows w)(t_wallets := (rows w t_wallets)(i \<mapsto> JObj ?m2))" using w2(3) w1(3) by simp
    ultimately show ?thesis
      using Some grows row wallets_inv_upd [OF inv row(1) i]
      by (intro exI [of _ w2] exI [of _ "(rows w t_wallets)(i \<mapsto> JObj ?m2)"]) (auto simp: recorded_def intro!: wallets_grow_upd)
  qed
qed

end

section \<open>Transactions\<close>

definition sender :: "json \<Rightarrow> string \<Rightarrow> bool" where
  "sender trx k \<longleftrightarrow> field trx ''from'' = Some (JStr k) \<or> field trx ''public-key'' = Some (JStr k)"

definition member :: "json \<Rightarrow> string \<Rightarrow> json" where
  "member trx f = (case field trx f of Some v \<Rightarrow> v | None \<Rightarrow> JNull)"

definition trx_number :: "json \<Rightarrow> string" where
  "trx_number trx = (case member trx ''transaction-id'' of JStr i \<Rightarrow> i | _ \<Rightarrow> [])"

text \<open>What is written to the history of a wallet for a transaction of the sender \<open>k\<close>.\<close>

definition history_entry :: "json \<Rightarrow> uint64 \<Rightarrow> time_t \<Rightarrow> string \<Rightarrow> json" where
  "history_entry trx b t k = obj [(''id'', JStr (trx_key k (to_string (unat b)) (trx_number trx))), (''block-id'', JUint b),
     (''digest'', member trx ''digest''), (''transaction-type'', member trx ''transaction-type''), (''timestamp'', JInt t)]"

definition names_wallet :: "json \<Rightarrow> string \<Rightarrow> bool" where
  "names_wallet trx f \<longleftrightarrow> field trx f = None \<or> (\<exists>k. field trx f = Some (JStr k) \<and> k \<noteq> index_id_text)"

text \<open>A transaction as the node sends it: the members \<open>add_wallet_transaction\<close> reads.\<close>

definition wallet_trx :: "json \<Rightarrow> bool" where
  "wallet_trx trx \<longleftrightarrow> field trx ''transaction-id'' = Some (JStr (trx_number trx)) \<and> field trx ''digest'' \<noteq> None
     \<and> field trx ''transaction-type'' \<noteq> None \<and> names_wallet trx ''from'' \<and> names_wallet trx ''public-key'' \<and> names_wallet trx ''to''"

lemma set_map_set: "(\<And>v'. (k, v') \<in> set m \<Longrightarrow> v' = v) \<Longrightarrow> set (map_set k v m) = insert (k, v) (set m)"
  by (induction k v m rule: map_set.induct) (auto split: if_splits)

context nlohmann_json
begin

lemma find_keys_value:
  assumes "field trx ''transaction-id'' = Some (JStr i)" "\<forall>f \<in> set fs. names_wallet trx f"
    and "\<forall>kv \<in> set m. snd kv = trx_key (fst kv) bid i"
  shows "\<exists>entries. find_keys L trx bid fs m = Inr entries
    \<and> set entries = set m \<union> (\<lambda>k. (k, trx_key k bid i)) ` {k. \<exists>f \<in> set fs. field trx f = Some (JStr k)}"
  using assms(2,3)
proof (induction fs arbitrary: m)
  case (Cons f fs)
  show ?case
  proof (cases "field trx f")
    case None
    with Cons.IH [of m] Cons.prems show ?thesis by simp
  next
    case (Some v)
    then obtain k where v: "v = JStr k" using Cons.prems(1) by (auto simp: names_wallet_def)
    let ?m = "map_set k (trx_key k bid i) m"
    have m: "set ?m = insert (k, trx_key k bid i) (set m)" by (rule set_map_set) (use Cons.prems(2) in auto)
    with Cons.IH [of ?m] Cons.prems obtain entries where e: "find_keys L trx bid fs ?m = Inr entries"
      "set entries = set ?m \<union> (\<lambda>k. (k, trx_key k bid i)) ` {k. \<exists>f \<in> set fs. field trx f = Some (JStr k)}"
      by auto
    have "find_keys L trx bid (f # fs) m = Inr entries"
      using Some v e(1) assms(1) by (simp add: const_index_member)
    with e(2) m Some v show ?thesis by (intro exI [of _ entries]) auto
  qed
qed simp

lemma find_public_keys_value:
  assumes "wallet_trx trx"
  shows "\<exists>entries. find_public_keys L trx bid = Inr entries
    \<and> set entries = (\<lambda>k. (k, trx_key k bid (trx_number trx))) ` {k. sender trx k}"
proof -
  have "\<exists>entries. find_public_keys L trx bid = Inr entries \<and> set entries = set []
      \<union> (\<lambda>k. (k, trx_key k bid (trx_number trx))) ` {k. \<exists>f \<in> set [''from'', ''public-key'']. field trx f = Some (JStr k)}"
    unfolding find_public_keys_def by (rule find_keys_value) (use assms in \<open>auto simp: wallet_trx_def\<close>)
  then show ?thesis by (simp add: sender_def)
qed

lemma wallet_entry_value:
  assumes "wallet_trx trx"
  shows "wallet_entry L trx (trx_key k (to_string (unat b)) (trx_number trx)) b t = Inr (history_entry trx b t k)"
  using assms by (auto simp: wallet_trx_def wallet_entry_def history_entry_def member_def const_index_member)

end

section \<open>The task of a block\<close>

text \<open>
  How the state may change: histories grow, wallets are queued for their new states, and nothing else
  happens. \<open>written\<close> is what is done for one wallet, \<open>noted\<close> what is done for a transaction: its
  senders and its receiver.
\<close>

definition wallet_progress :: "('w \<Rightarrow> tables) \<Rightarrow> 'w pstate \<Rightarrow> 'w pstate \<Rightarrow> bool" where
  "wallet_progress rows s s' \<longleftrightarrow>
     (\<forall>t. t \<noteq> t_wallets \<longrightarrow> rows (ps_world s') t = rows (ps_world s) t)
     \<and> wallets_grow (rows (ps_world s) t_wallets) (rows (ps_world s') t_wallets)
     \<and> ps_tasks s' = ps_tasks s \<and> ps_prev_bid s' = ps_prev_bid s \<and> set (ps_wallets s) \<subseteq> set (ps_wallets s')"

definition written :: "('w \<Rightarrow> tables) \<Rightarrow> 'w pstate \<Rightarrow> string \<Rightarrow> uint64 \<Rightarrow> json \<Rightarrow> bool" where
  "written rows s k b e \<longleftrightarrow> recorded (rows (ps_world s) t_wallets) k b e \<and> k \<in> set (ps_wallets s)"

definition noted :: "('w \<Rightarrow> tables) \<Rightarrow> 'w pstate \<Rightarrow> json \<Rightarrow> uint64 \<Rightarrow> time_t \<Rightarrow> string \<Rightarrow> bool" where
  "noted rows s trx b t k \<longleftrightarrow> written rows s k b (history_entry trx b t k)
     \<and> (\<forall>k'. field trx ''to'' = Some (JStr k') \<longrightarrow> written rows s k' b (history_entry trx b t k))"

text \<open>The loop body of \<open>add_wallet_transaction\<close> from the columns on.\<close>

definition history_columns :: "json \<Rightarrow> uint64 \<Rightarrow> time_t \<Rightarrow> string \<Rightarrow> (string \<times> json) list" where
  "history_columns trx b t k = [(''blocks'', JArr [JUint b]), (''transactions'', JArr [history_entry trx b t k])]"

definition note_columns :: "('w, 'e) env_scheme \<Rightarrow> db \<Rightarrow> json \<Rightarrow> (string \<times> json) list \<Rightarrow> string \<Rightarrow> ('w pstate, unit) prog" where
  "note_columns E d trx columns k =
     bindP (on_db (table_update_columns E k columns (open_table d t_wallets))) (\<lambda>_.
     bindP (update_wallet_state k) (\<lambda>_.
     if 0 < count_key trx ''to''
     then bindP (lift (bindE (const_index E trx ''to'') (jl_get_string E))) (\<lambda>k'.
          bindP (on_db (table_update_columns E k' columns (open_table d t_wallets))) (\<lambda>_. update_wallet_state k'))
     else ret ()))"

lemma wallet_progress_refl: "wallet_progress rows s s"
  by (simp add: wallet_progress_def wallets_grow_refl)

lemma wallet_progress_trans: "wallet_progress rows s s' \<Longrightarrow> wallet_progress rows s' s'' \<Longrightarrow> wallet_progress rows s s''"
  unfolding wallet_progress_def using wallets_grow_trans by fastforce

lemma written_progress: "wallet_progress rows s s' \<Longrightarrow> written rows s k b e \<Longrightarrow> written rows s' k b e"
  unfolding wallet_progress_def written_def using recorded_grows by blast

lemma noted_progress: "wallet_progress rows s s' \<Longrightarrow> noted rows s trx b t k \<Longrightarrow> noted rows s' trx b t k"
  unfolding noted_def using written_progress by blast

context reql_union
begin

lemma write_wallet:
  assumes "db_name d = dbn" "wallets_inv (rows (ps_world s) t_wallets)" "k \<noteq> index_id_text"
  obtains s1 s2 where
    "on_db (table_update_columns E k (history_columns trx b t h) (open_table d t_wallets)) s = (Inr (), s1)"
    "update_wallet_state k s1 = (Inr (), s2)" "wallets_inv (rows (ps_world s2) t_wallets)" "wallet_progress rows s s2" "written rows s2 k b (history_entry trx b t h)"
proof -
  obtain w' W' where w': "table_update_columns E k (history_columns trx b t h) (open_table d t_wallets) (ps_world s) = (Inr (), w')"
    "rows w' = (rows (ps_world s))(t_wallets := W')" "wallets_inv W'" "wallets_grow (rows (ps_world s) t_wallets) W'" "recorded W' k b (history_entry trx b t h)"
    unfolding history_columns_def using columns_effect [OF assms] by blast
  show ?thesis
    by (rule that [of "s\<lparr>ps_world := w'\<rparr>" "s\<lparr>ps_world := w', ps_wallets := ps_wallets s @ [k]\<rparr>"])
      (use w' in \<open>auto simp: on_db_def update_wallet_state_def wallet_progress_def written_def\<close>)
qed

lemma note_entry:
  assumes "db_name d = dbn" "wallet_trx trx" "sender trx k" "wallets_inv (rows (ps_world s) t_wallets)"
  shows "\<exists>s'. note_columns E d trx (history_columns trx b t k) k s = (Inr (), s')
    \<and> wallets_inv (rows (ps_world s') t_wallets) \<and> wallet_progress rows s s' \<and> noted rows s' trx b t k"
proof -
  let ?cols = "history_columns trx b t k"
  have "k \<noteq> index_id_text" using assms(2,3) by (auto simp: wallet_trx_def names_wallet_def sender_def)
  from write_wallet [OF assms(1,4) this] obtain s1 s2 where 1:
    "on_db (table_update_columns E k ?cols (open_table d t_wallets)) s = (Inr (), s1)" "update_wallet_state k s1 = (Inr (), s2)"
    "wallets_inv (rows (ps_world s2) t_wallets)" "wallet_progress rows s s2" "written rows s2 k b (history_entry trx b t k)"
    by blast
  show ?thesis
  proof (cases "field trx ''to''")
    case None
    with 1 show ?thesis
      by (intro exI [of _ s2]) (simp add: note_columns_def bindP_apply_Inr [where m = "on_db _", OF 1(1)] bindP_apply_Inr [where m = "update_wallet_state _", OF 1(2)] noted_def)
  next
    case (Some v)
    with assms(2) obtain k' where k': "field trx ''to'' = Some (JStr k')" "k' \<noteq> index_id_text"
      by (auto simp: wallet_trx_def names_wallet_def)
    from write_wallet [OF assms(1) 1(3) k'(2)] obtain s3 s4 where 2:
      "on_db (table_update_columns E k' ?cols (open_table d t_wallets)) s2 = (Inr (), s3)" "update_wallet_state k' s3 = (Inr (), s4)"
      "wallets_inv (rows (ps_world s4) t_wallets)" "wallet_progress rows s2 s4" "written rows s4 k' b (history_entry trx b t k)"
      by blast
    have "noted rows s4 trx b t k" using k'(1) 2(5) written_progress [OF 2(4) 1(5)] by (simp add: noted_def)
    with 2(3) wallet_progress_trans [OF 1(4) 2(4)] k'(1) show ?thesis
      by (intro exI [of _ s4])
        (simp add: note_columns_def bindP_apply_Inr [where m = "on_db _", OF 1(1)] bindP_apply_Inr [where m = "update_wallet_state _", OF 1(2)]
          const_index_member bindP_apply_Inr [where m = "on_db _", OF 2(1)] 2(2))
  qed
qed

lemma add_wallet_transaction_notes:
  assumes "db_name d = dbn" "wallet_trx trx" "unat block < 2 ^ 64" "wallets_inv (rows (ps_world s) t_wallets)"
  shows "\<exists>s'. add_wallet_transaction E d trx block t s = (Inr (), s') \<and> wallets_inv (rows (ps_world s') t_wallets)
    \<and> wallet_progress rows s s' \<and> (\<forall>k. sender trx k \<longrightarrow> noted rows s' trx (ucast block) t k)"
proof -
  let ?b = "ucast block :: uint64"
  have b: "unat ?b = unat block" "of_nat (unat block) = ?b"
    using assms(3) by (simp_all add: unsigned_ucast_eq take_bit_nat_eq_self word_eq_iff_unsigned)
  obtain entries where e: "find_public_keys E trx (to_string (unat block)) = Inr entries"
    "set entries = (\<lambda>k. (k, trx_key k (to_string (unat block)) (trx_number trx))) ` {k. sender trx k}"
    using find_public_keys_value [OF assms(2)] by blast
  let ?f = "\<lambda>entry. note_columns E d trx (history_columns trx ?b t (fst entry)) (fst entry)"
  have "\<exists>s'. forP entries ?f s = (Inr (), s') \<and> wallets_inv (rows (ps_world s') t_wallets)
      \<and> wallet_progress rows s s' \<and> (\<forall>entry \<in> set entries. noted rows s' trx ?b t (fst entry))"
  proof (rule forP_steps)
    fix entry and s :: "'w pstate" assume "entry \<in> set entries" and inv: "wallets_inv (rows (ps_world s) t_wallets)"
    with e(2) obtain k where k: "sender trx k" "entry = (k, trx_key k (to_string (unat ?b)) (trx_number trx))" using b(1) by auto
    with note_entry [OF assms(1,2) k(1) inv, of ?b t]
    show "\<exists>s'. ?f entry s = (Inr (), s') \<and> wallets_inv (rows (ps_world s') t_wallets) \<and> wallet_progress rows s s'
        \<and> noted rows s' trx ?b t (fst entry)" by simp
  qed (fact wallet_progress_refl wallet_progress_trans noted_progress assms(4))+
  moreover have we: "wallet_entry E trx (trx_key k (to_string (unat block)) (trx_number trx)) ?b t = Inr (history_entry trx ?b t k)" for k
    using wallet_entry_value [OF assms(2), of k ?b t] b(1) by simp
  have "add_wallet_transaction E d trx block t = forP entries ?f"
    unfolding add_wallet_transaction_def Let_def dec256 stoull_to_string [OF assms(3)] b(2) e(1) bindP_basic push_back_null
    by (rule forP_cong) (use e(2) in \<open>auto simp: we note_columns_def history_columns_def\<close>)
  ultimately show ?thesis using e(2) by auto
qed

lemma wallet_task_notes:
  assumes "db_name d = dbn" "\<forall>trx \<in> set trxs. wallet_trx trx" "unat block < 2 ^ 64" "wallets_inv (rows (ps_world s) t_wallets)"
  shows "\<exists>s'. run_task E d (Wallet_task (JArr trxs) block t) s = (Inr (), s') \<and> wallets_inv (rows (ps_world s') t_wallets)
    \<and> wallet_progress rows s s' \<and> (\<forall>trx \<in> set trxs. \<forall>k. sender trx k \<longrightarrow> noted rows s' trx (ucast block) t k)"
  unfolding run_task.simps items.simps
proof (rule forP_steps)
  show "\<exists>s'. add_wallet_transaction E d trx block t s = (Inr (), s') \<and> wallets_inv (rows (ps_world s') t_wallets)
      \<and> wallet_progress rows s s' \<and> (\<forall>k. sender trx k \<longrightarrow> noted rows s' trx (ucast block) t k)"
    if "trx \<in> set trxs" "wallets_inv (rows (ps_world s) t_wallets)" for trx and s :: "'w pstate"
    using that assms by (intro add_wallet_transaction_notes) auto
  show "\<forall>k. sender trx k \<longrightarrow> noted rows s' trx (ucast block) t k"
    if "wallet_progress rows s s'" "\<forall>k. sender trx k \<longrightarrow> noted rows s trx (ucast block) t k" for s s' trx
    using that noted_progress by blast
qed (fact wallet_progress_refl wallet_progress_trans assms(4))+

text \<open>A page of a history, as the API asks for it.\<close>

lemma history_page:
  assumes "db_name d = dbn" "rows w t_wallets k = Some r" "field r ''transactions'' = Some (JArr ys)" "unat a + unat n < 2 ^ 64"
  shows "get_wallet_history_transactions E d k a n w = (Inr (JArr (take (unat n) (drop (unat a) ys))), w)"
proof -
  have u: "unat (a + n) = unat a + unat n" using assms(4) by (simp add: unat_word_ariths)
  then have "a \<le> a + n" by (simp add: word_le_nat_alt)
  from run_slice [OF assms(2,3) this, of True] u assms(1) show ?thesis
    by (simp add: get_wallet_history_transactions_def get_data_def cursor_defs bindP_def catch_reql_def catchP_def)
qed

end

text \<open>
  (C10) The histories of the wallets: the task of a block ends, and then for every transaction of the block the wallets
  of its senders and of its receiver exist, list the block and list an entry for the transaction, and are
  queued for their new state. What the histories held before is still there, every wallet keeps the form of its row, and
  the other tables are as they were.
\<close>

theorem wallet_task_records:
  assumes "reql_union E (db_name d) rows" and "\<forall>trx \<in> set trxs. wallet_trx trx" and "unat block < 2 ^ 64"
    and "wallets_inv (rows (ps_world s) t_wallets)"
  shows "\<exists>s'. run_task E d (Wallet_task (JArr trxs) block t) s = (Inr (), s') \<and> wallets_inv (rows (ps_world s') t_wallets)
    \<and> wallet_progress rows s s' \<and> (\<forall>trx \<in> set trxs. \<forall>k. sender trx k \<longrightarrow> noted rows s' trx (ucast block) t k)"
  by (rule reql_union.wallet_task_notes [OF assms(1) refl assms(2-4)])

text \<open>A transfer to a wallet in a block with the number 7.\<close>

definition sample_payment :: json where
  "sample_payment = obj [(''transaction-id'', JStr ''5''), (''digest'', JStr ''d''), (''transaction-type'', JStr ''TransferAssets''),
     (''from'', JStr ''alice''), (''to'', JStr ''bob'')]"

theorem wallet_task_records_witness:
  "\<exists>s'. run_task sample_env sample_db (Wallet_task (JArr [sample_payment]) 7 0)
      \<lparr>ps_world = (\<lambda>_. []), ps_tasks = [], ps_wallets = [], ps_prev_bid = 0\<rparr> = (Inr (), s')
    \<and> written ref_rows s' ''alice'' 7 (history_entry sample_payment 7 0 ''alice'')
    \<and> written ref_rows s' ''bob'' 7 (history_entry sample_payment 7 0 ''alice'')"
proof -
  let ?s = "\<lparr>ps_world = (\<lambda>_. []), ps_tasks = [], ps_wallets = [], ps_prev_bid = 0\<rparr> :: refdb pstate"
  have env: "reql_union sample_env (db_name sample_db) ref_rows" unfolding sample_env_def by (rule ref_un.reql_union_axioms)
  have f: "field sample_payment ''from'' = Some (JStr ''alice'')" "field sample_payment ''to'' = Some (JStr ''bob'')"
    "wallet_trx sample_payment"
    by (simp_all add: sample_payment_def obj_def wallet_trx_def trx_number_def member_def names_wallet_def index_id_text_def)
  have "\<forall>trx \<in> set [sample_payment]. wallet_trx trx" "unat (7 :: uint256) < 2 ^ 64" "wallets_inv (ref_rows (ps_world ?s) t_wallets)"
    using f(3) by (simp_all add: wallets_inv_def ref_rows_def ran_def)
  from wallet_task_records [where s = ?s and t = 0, OF env this] f show ?thesis
    by (auto simp: noted_def sender_def)
qed

end
