(* ===== verification/Spec2Isabelle.thy ===== *)
theory Spec2Isabelle
  imports Programs Indexer Typing Schema Wallets
begin

text \<open>
  A verification development for the MILE block chain explorer. The explorer is two programs over one
  RethinkDB database: the \<^emph>\<open>indexer\<close> (\<^verbatim>\<open>src/indexer\<close>, \<^verbatim>\<open>src/common\<close>) asks the nodes of the
  chain for blocks, stores them and derives the tables of transactions, wallets, nodes and statistics; the
  \<^emph>\<open>backend\<close> (\<^verbatim>\<open>src/backend\<close>) answers JSON-RPC requests over HTTP and HTTPS from these tables.

  \<^bold>\<open>Conventions.\<close> Code that is not in the repository is a parameter: nlohmann json (\<open>json_lib\<close>), the
  MILE library (\<open>mile_lib\<close>), the database server and the clock (\<open>env\<close>), the node client and the genesis
  server (\<open>node_env\<close>), sockets, the option parser and the YAML reader. What the program relies on of
  it is stated in the locales \<open>nlohmann_json\<close>, \<open>reql_server\<close>, \<open>reql_frames\<close>, \<open>reql_schema\<close>, \<open>reql_union\<close>, \<open>explorer_env\<close>,
  \<open>indexer_env\<close> and \<open>std_sort\<close>; \<open>ref_env\<close> in \<open>Ref_Server\<close> and \<open>schema_env\<close> in \<open>Schema\<close> are servers for which these laws are proved. A call that may raise and may
  change the state is a \<open>('s, 'a) prog\<close> (\<open>Prelude\<close>): the exception and the state left
  behind are values.

  \<^bold>\<open>The theories.\<close>

  \<^item> \<open>Prelude\<close>: machine types, exceptions, computations, \<^verbatim>\<open>std::to_string\<close> and \<^verbatim>\<open>std::stoull\<close>, and the
  loops that repeat a failing attempt (\<open>retryP\<close>).

  \<^item> \<open>Json\<close>, \<open>Names\<close>, \<open>Message\<close>: JSON values and the JSON library, configuration and table names
  (\<^verbatim>\<open>common/src/config.cpp\<close>, \<^verbatim>\<open>names.cpp\<close>), the messages of \<^verbatim>\<open>backend/jsonrpc/message.hpp\<close> and the request
  context of \<^verbatim>\<open>context.cpp\<close>. Shown: which texts are accepted, what a request becomes, the
  round trips of requests and of responses.

  \<^item> \<open>Reql\<close>, \<open>Ref_Server\<close>, \<open>Tables\<close>, \<open>Db\<close>: query terms and the server, cursors and tables
  (\<^verbatim>\<open>cursor.cpp\<close>, \<^verbatim>\<open>table.cpp\<close>), the database object with its getters and migrations
  (\<^verbatim>\<open>db.cpp\<close>, \<^verbatim>\<open>getters.cpp\<close>, \<^verbatim>\<open>migration.cpp\<close>). \<open>Schema\<close>: \<^verbatim>\<open>Db::init\<close> leaves a database with every table of \<open>get_names\<close> and every index of \<open>get_indices\<close>.

  \<^item> \<open>Router\<close>, \<open>Api\<close>, \<open>Request\<close>, \<open>Session\<close>, \<open>Server\<close>: the method table (\<^verbatim>\<open>router.hpp\<close>, \<^verbatim>\<open>registry.hpp\<close>), the eighteen
  methods of \<^verbatim>\<open>backend/api\<close>, the HTTP handler of \<^verbatim>\<open>request.hpp\<close>, the asynchronous sessions
  of \<^verbatim>\<open>http/session.cpp\<close> and \<^verbatim>\<open>https/session.cpp\<close>, the listeners and \<^verbatim>\<open>server.cpp\<close>. Shown: what the methods
  answer, the status, the id and the error of every answer, that both sessions refine one
  sequential specification up to the response that closes them, and what a failed accept does.

  \<^item> \<open>Time\<close>, \<open>Transactions\<close>, \<open>Blocks\<close>: the time conversions of \<^verbatim>\<open>utils.cpp\<close> and the two workers of the
  indexer with what they call; \<open>Typing\<close>: the form of the rows they write; \<open>Wallets\<close>: the histories of
  the wallets, entered by the tasks of \<open>add_transactions\<close>. Shown: the workers refine functions on the tables (\<open>spec_items\<close>,
  \<open>spec_blocks\<close>), keep the invariants of serial numbers and block numbers, lose nothing, leave no
  gap, and empty their queues; every transaction of a block gets to the histories of the wallets it names.

  \<^item> \<open>Network\<close>, \<open>Node\<close>, \<open>Float_Text\<close>, \<open>Genesis\<close>, \<open>Fetcher\<close>: the rows of \<^verbatim>\<open>network.cpp\<close>; the node client with
  \<^verbatim>\<open>get_rpc\<close> of \<^verbatim>\<open>utils.cpp\<close> and the wallet task of \<^verbatim>\<open>wallets_state.cpp\<close>; binary floating point formats and the conversions of
  decimal texts to them; the parser of \<^verbatim>\<open>genesis.cpp\<close> and the task that loads the file; the fetcher of
  \<^verbatim>\<open>fetcher.cpp\<close>, whose main loop and tasks are the steps of the relation \<open>fetch_step\<close>. Shown: what each
  task stores, that the calls go round all nodes, that no block number is skipped in any interleaving, what every line of the genesis file becomes, which of its amounts are exact, and when its task does not end.

  \<^item> \<open>Statistics\<close>, \<open>Wallets_Top\<close>: the interval map, the turnover statistics, both methods for the lists of the richest wallets and the
  registry of \<^verbatim>\<open>indexer/statistics\<close>, and the statistics loop of \<^verbatim>\<open>db.cpp\<close>. Shown: the loop of the interval map ends and its
  lookups, the turnover equals exact sums in the range of the format, failures of a method stay with it, the
  lists of the richest wallets that \<open>wallets_top\<close> writes are the right ones whatever order \<^verbatim>\<open>std::sort\<close> gives to equal amounts. The list that the
  registered method \<^verbatim>\<open>wallets_top_upd.cpp\<close> has the server make is modelled as the query it sends.

  \<^item> \<open>Frames\<close>, \<open>Indexer\<close>: which tables each operation leaves alone, and the whole running indexer, \<open>indexer_step\<close>, made of
  the fetcher, the workers, tasks and loops that \<^verbatim>\<open>Fetcher::run\<close> and \<^verbatim>\<open>Db::init\<close> start, in any order. Shown: in every run the serial
  numbers stay \<open>0, \<dots>, n - 1\<close>, stored blocks and transactions stay, no hole opens in the chain of blocks,
  and no block or waiting transaction is lost.

  \<^item> \<open>Programs\<close>: \<^verbatim>\<open>backend/main.cpp\<close> and \<^verbatim>\<open>indexer/main.cpp\<close>: command lines, configuration files, start. Shown: the
  backend serves the whole API.

  \<^item> This theory: a restarted indexer goes on at the last stored block, and what the indexer stores reaches the clients of the
  backend over HTTP: blocks, transactions and the histories of wallets.

  \<^bold>\<open>Choices.\<close> A \<^verbatim>\<open>double\<close> is the rational number it denotes; where the code reads numbers from text into
  \<^verbatim>\<open>float\<close> or \<^verbatim>\<open>long double\<close> and adds them up, \<open>Float_Text\<close> rounds to the format, \<^verbatim>\<open>long double\<close> being the
  80 bit format of x86. \<^verbatim>\<open>time_t\<close> is an unbounded integer; block numbers are \<open>256 word\<close>s.
  Opening a connection is part of running a query; the laws of the server are those of one that is reached. Rows are read back as they
  were written; the driver would give a non-negative signed number back as an unsigned one, which all conversions the programs make accept. A task given to a dispatch queue is an element of a
  list in the state; such tasks run one at a time, in any order. The unset fields of a \<^verbatim>\<open>tm\<close> after a failed parse, and the
  content of an unset optional, are parameters. A constant \<^verbatim>\<open>operator[]\<close> on a missing member, which is undefined, is
  the exception \<open>Unknown_exn\<close>. The loops that retry until they succeed take fuel; \<open>retryP_enough\<close> shows that
  more fuel than failing attempts is enough, and properties about them state that they end.

  \<^bold>\<open>Not modelled.\<close> Log output; the embedded certificate of \<^verbatim>\<open>https/server_certificate.hpp\<close>, which is data given to
  OpenSSL; the error that nlohmann json raises when it writes texts that are not UTF-8; \<^verbatim>\<open>vendor\<close> and tests.
\<close>

section \<open>The indexer writes what the backend reads\<close>

context explorer_env
begin

lemma block_id_text_number:
  "field (params c) ''block-id'' = Some (JUint b) \<Longrightarrow> block_id_text E (c, w) = (Inr (Some (to_string (unat b))), (c, w))"
  by (simp add: block_id_text_def has_param_def bindP_param_at)

lemma transaction_key_number:
  assumes "field (params c) ''public-key'' = Some (JStr pk)" "field (params c) ''block-id'' = Some (JUint b)"
  shows "transaction_key E (JUint n) (c, w) = (Inr (Some (trx_key pk (to_string (unat b)) (to_string (unat n)))), (c, w))"
proof -
  have "bindP (param_string E ''public-key'') k (c, w) = k pk (c, w)" for k :: "string \<Rightarrow> ('w call, string option) prog"
    using assms(1) by (simp add: param_string_def param_at_def bindP_def)
  moreover have "bindP (block_id_text E) k (c, w) = k (Some (to_string (unat b))) (c, w)"
    for k :: "string option \<Rightarrow> ('w call, string option) prog"
    using block_id_text_number [OF assms(2)] by (simp add: bindP_def)
  ultimately show ?thesis
    using assms(1) by (simp add: transaction_key_def bindP_param_check trx_key_def)
qed

lemma get_transaction_value:
  assumes "db_name d = dbn" "field (params c) ''digest'' = None" "field (params c) ''id'' = Some (JUint n)"
    and "field (params c) ''public-key'' = Some (JStr pk)" "field (params c) ''block-id'' = Some (JUint b)"
  shows "api_get_transaction E d (c, w) = (Inr (), (set_result
    (case rows w t_transactions (trx_key pk (to_string (unat b)) (to_string (unat n))) of Some r \<Rightarrow> r | None \<Rightarrow> JArr []) c, w))"
proof -
  let ?k = "trx_key pk (to_string (unat b)) (to_string (unat n))"
  have "bindP (transaction_key E (JUint n)) f (c, w) = f (Some ?k) (c, w)" for f :: "string option \<Rightarrow> ('w call, unit) prog"
    using transaction_key_number [OF assms(4,5)] by (simp add: bindP_def)
  moreover have "get_transaction_by_id E d ?k w = (Inr (case rows w t_transactions ?k of Some r \<Rightarrow> r | None \<Rightarrow> JArr []), w)"
    unfolding get_transaction_by_id_def by (rule get_data_row [OF assms(1)])
  ultimately show ?thesis
    using assms(2,3) by (simp add: api_get_transaction_def has_param_def bindP_param_check bindP_param_at
        bindP_def [of "on_world _"] on_world_apply result_def)
qed

end

text \<open>
  (C11) The API finds what the indexer stored: a well-formed POST of \<open>get-transaction\<close> with a transaction number, a public key and a block
  number is answered with 200 and, as the result, the row of the transactions table under the key the indexer
  builds from the same three, or an empty array if there is none. The database is left as it is.
\<close>

theorem get_transaction_finds:
  assumes "explorer_env E (db_name d) rows" and "\<not> forbidden (api_router E d) req" and "hq_method req = Verb_post"
    and "jl_parse E (hq_body req) = Inr j" and "rpc_request j = Some (i, ''get-transaction'', p)"
    and "field p ''digest'' = None" and "field p ''id'' = Some (JUint n)" and "field p ''public-key'' = Some (JStr pk)"
    and "field p ''block-id'' = Some (JUint b)"
  shows "\<exists>res text. handle E (api_router E d) req w = (Inr res, w) \<and> hp_status res = 200 \<and> hp_body res = text @ [CHR 0x0A]
    \<and> serialize_response E \<lparr>rs_id = i, rs_result =
        (case rows w t_transactions (trx_key pk (to_string (unat b)) (to_string (unat n))) of Some r \<Rightarrow> r | None \<Rightarrow> JArr []),
        rs_error = None\<rparr> = Inr text"
proof -
  have "map_of (method_entries (api_methods E (help_json E))) ''get-transaction'' = Some (api_get_transaction E)"
    by (simp add: api_methods_def)
  from method_answer [OF explorer_env.axioms(1) [OF assms(1)] assms(2-5) this]
    explorer_env.get_transaction_value [OF assms(1) refl] assms(6-9) show ?thesis by simp
qed

definition trx_request :: json where
  "trx_request = obj [(''jsonrpc'', JStr ''2.0''), (''method'', JStr ''get-transaction''), (''id'', JUint 1),
     (''params'', obj [(''id'', JUint 8), (''public-key'', JStr ''key''), (''block-id'', JUint 7)])]"

theorem get_transaction_finds_witness:
  "\<exists>res. handle (text_env ''ping'' trx_request) (api_router (text_env ''ping'' trx_request) sample_db)
      (ping_http ''/v1/api/'') sample_world = (Inr res, sample_world) \<and> hp_status res = 200"
proof -
  let ?E = "text_env ''ping'' trx_request" and ?p = "obj [(''id'', JUint 8), (''public-key'', JStr ''key''), (''block-id'', JUint 7)]"
  have f: "\<not> forbidden (api_router ?E sample_db) (ping_http ''/v1/api/'')" "hq_method (ping_http ''/v1/api/'') = Verb_post"
    by (simp_all add: forbidden_def ping_http_def request_path_def api_router_path)
  have p: "jl_parse ?E (hq_body (ping_http ''/v1/api/'')) = Inr trx_request" by (simp add: text_env_parse ping_http_def)
  have r: "rpc_request trx_request = Some (JUint 1, ''get-transaction'', ?p)"
    by (simp add: rpc_request_def request_params_def trx_request_def obj_def)
  have e: "explorer_env ?E (db_name sample_db) ref_rows" unfolding text_env_def by (rule ref_explorer)
  have m: "field ?p ''digest'' = None" "field ?p ''id'' = Some (JUint 8)" "field ?p ''public-key'' = Some (JStr ''key'')"
    "field ?p ''block-id'' = Some (JUint 7)" by (simp_all add: obj_def)
  from get_transaction_finds [OF e f p r m, of sample_world] show ?thesis by blast
qed

text \<open>A page of the history of a wallet.\<close>

context reql_union
begin

lemma history_method:
  assumes "db_name d = dbn" "rows w t_wallets k = Some r" "field r ''transactions'' = Some (JArr ys)" "unat a + unat n < 2 ^ 64"
    and "field (params c) ''public-key'' = Some (JStr k)" "field (params c) ''first'' = Some (JUint a)"
    and "field (params c) ''limit'' = Some (JUint n)" "n \<le> 1000"
  shows "api_get_wallet_history_transactions E d (c, w) = (Inr (), (set_result (JArr (take (unat n) (drop (unat a) ys))) c, w))"
proof -
  have v: "check_limit E (c, w) = (Inr True, (c, w))" "param_string E ''public-key'' (c, w) = (Inr k, (c, w))"
    "param_u64 E ''limit'' (c, w) = (Inr n, (c, w))" "get_transaction_id E ''first'' (c, w) = (Inr a, (c, w))"
    using assms(5-8) by (simp_all add: check_limit_value param_string_def param_u64_def get_transaction_id_def bindP_param_at)
  show ?thesis
    using history_page [OF assms(1-4)] assms(5)
    by (simp add: api_get_wallet_history_transactions_def bindP_param_check bindP_apply_Inr [where m = "check_limit E", OF v(1)]
        bindP_apply_Inr [where m = "param_string E _", OF v(2)] bindP_apply_Inr [where m = "param_u64 E _", OF v(3)]
        bindP_apply_Inr [where m = "get_transaction_id E _", OF v(4)] bindP_def [of "on_world _"] on_world_apply result_def)
qed

end


definition history_request :: json where
  "history_request = obj [(''jsonrpc'', JStr ''2.0''), (''method'', JStr ''get-wallet-history-transactions''), (''id'', JUint 1),
     (''params'', obj [(''public-key'', JStr ''bob''), (''first'', JUint 0), (''limit'', JUint 10)])]"


section \<open>An indexer that is started again\<close>

context indexer_env
begin

text \<open>The start of the program does not touch the blocks.\<close>

lemma keeps_indexer_main:
  assumes "indexer_cmdline L av cfg0 = Inr (True, cfg)" "cfg_db_name cfg = dbn" "t \<notin> {t_meta, t_transactions_processing}"
  shows "invP (\<lambda>w. rows w t = v) (indexer_main L E version counter av cfg0)"
proof -
  have start: "invP (\<lambda>w. rows w t = v) (start_fetcher E cfg counter d)" for d
    unfolding start_fetcher_def get_last_block_id_def catch_reql_def
    by (intro inv_intros keeps_connect) (simp_all add: cursor_defs invP_def)
  have init: "invP (\<lambda>w. rows w t = v) (bindP (db_init E version d) (\<lambda>(_, d). start_fetcher E cfg counter d))"
    if "db_name d = dbn" for d
    using that assms(3) by (intro inv_intros keeps_db_init start)
  have opens: "invP (\<lambda>w. rows w t = v) (open_configured E cfg)"
    unfolding open_configured_def db_open_def catch_reql_def by (intro inv_intros keeps_run) simp
  have "rows (snd (bindP (open_configured E cfg) (\<lambda>d. case d of None \<Rightarrow> ret (Inl (Exited (-1)))
      | Some d \<Rightarrow> bindP (db_init E version d) (\<lambda>(_, d). start_fetcher E cfg counter d)) w)) t = v" if r: "rows w t = v" for w
  proof -
    obtain o1 w1 where o: "open_configured E cfg w = (o1, w1)" by (cases "open_configured E cfg w")
    have r1: "rows w1 t = v" by (rule invPD [OF opens o r])
    show ?thesis
    proof (cases o1)
      case (Inr d0)
      show ?thesis
      proof (cases d0)
        case (Some d)
        have "db_name d = dbn" using db_open_name o Inr Some assms(2) by (simp add: open_configured_def)
        from init [OF this] r1 o Inr Some show ?thesis by (simp add: invP_def bindP_apply_Inr)
      qed (use r1 o Inr in \<open>simp add: bindP_apply_Inr\<close>)
    qed (use r1 o in \<open>simp add: bindP_apply_Inl\<close>)
  qed
  then show ?thesis using assms(1) by (simp add: invP_def indexer_main_def)
qed

end

text \<open>
  (C5) A restarted indexer goes on where it stopped: once its start has succeeded it has a node to ask, and
  whatever the order of its rounds and tasks from then on, the stored blocks stay, no hole opens
  above the largest block it found, and every 64 bit block number from there up to the one its loop has reached is
  requested, about to be stored, in the processing table or stored. The database may be any that a run of the
  indexer can leave; the start itself, with its migrations, keeps the blocks.
\<close>

theorem indexer_resumes:
  assumes "indexer_env E (cfg_db_name cfg) rows" and "indexer_cmdline L av cfg0 = Inr (True, cfg)"
    and "indexer_main L E version counter av cfg0 w = (Inr (Inr (f, s0)), w')"
    and "ic_fetcher C = f" and "harmless rows C" and "blocks_inv (rows w)"
    and "indexer_run E C (indexer_start s0) ss s" and "m = max_index ''block-id'' (rows w t_blocks)"
  shows "fc_urls f \<noteq> [] \<and> rows w t_blocks \<subseteq>\<^sub>m rows (in_world s) t_blocks
    \<and> (0 < m \<longrightarrow> dense_from (unat m) (rows (in_world s) t_blocks))
    \<and> (\<forall>i. ucast m \<le> i \<and> i < fs_first (in_fetch s) \<and> unat i < 2 ^ 64 \<longrightarrow> under_way (rows (in_world s)) (in_fetch s) i)"
proof -
  have X: "explorer_env E (cfg_db_name cfg) rows" by (rule indexer_env.axioms(1) [OF assms(1)])
  note keep = indexer_env.keeps_indexer_main [OF assms(1,2) refl, THEN invPD, OF _ assms(3) refl]
  have w: "rows w' t_blocks = rows w t_blocks" "rows w' t_blocks_processing = rows w t_blocks_processing"
    by (rule keep, simp add: table_names)+
  have bi: "blocks_inv (rows w')" using assms(6) w by (simp add: blocks_inv_def)
  note v = indexer_main_value [OF X assms(2,3)]
  with w(1) assms(4,7,8) have run: "indexer_run E C (indexer_start (fetcher_start \<lparr>rp_world = w', rp_counter = counter\<rparr> (ucast m))) ss s"
    by simp
  have inv: "indexer_inv rows (ucast m) (rows w') s"
    using indexer_env.run_inv [OF assms(1) run _ assms(5)] v assms(4) bi by simp
  have "finite (dom (rows w t_blocks))" by (rule reql_server.rows_finite [OF explorer_env.axioms(2) [OF X]])
  with max_block_dense [of "rows w t_blocks"] assms(6,8) inv w(1) have
    "rows w t_blocks \<subseteq>\<^sub>m rows (in_world s) t_blocks" "0 < m \<longrightarrow> dense_from (unat m) (rows (in_world s) t_blocks)"
    by (auto simp: indexer_inv_def blocks_after_def blocks_inv_def)
  moreover have "under_way (rows (in_world s)) (in_fetch s) i" if "ucast m \<le> i" "i < fs_first (in_fetch s)" "unat i < 2 ^ 64" for i
    using inv that by (auto simp: indexer_inv_def reached_def)
  ultimately show ?thesis using v by blast
qed

definition sample_main :: "(exn + stop + fetcher \<times> refdb fstate) \<times> refdb" where
  "sample_main = indexer_main sample_cmd sample_genesis_env 0 0 [] default_config (\<lambda>_. [])"

lemma sample_main_runs:
  "case sample_main of (Inr (Inr (f, s)), w') \<Rightarrow> fc_urls f = [''a''] \<and> fs_first s = 0 \<and> w' t_blocks = []
    | _ \<Rightarrow> False"
  by code_simp

lemma case_started:
  assumes "case p of (Inr (Inr (f, s)), w) \<Rightarrow> P f s w | _ \<Rightarrow> False"
  obtains f s w where "p = (Inr (Inr (f, s)), w)" "P f s w"
  using assms by (auto split: prod.splits sum.splits)

theorem indexer_resumes_witness:
  "\<exists>f s0 w' C ss s. sample_main = (Inr (Inr (f, s0)), w') \<and> indexer_run sample_genesis_env C (indexer_start s0) ss s
    \<and> fs_first (in_fetch s) = 1 \<and> under_way (ref_rows (in_world s)) (in_fetch s) 0"
proof -
  obtain f s0 w' where m: "indexer_main sample_cmd sample_genesis_env 0 0 [] default_config (\<lambda>_. []) = (Inr (Inr (f, s0)), w')"
    and f: "fc_urls f = [''a'']" "w' t_blocks = []"
    using case_started [OF sample_main_runs [unfolded sample_main_def]] by blast
  obtain cfg where c: "indexer_cmdline sample_cmd [] default_config = Inr (True, cfg)"
    "cfg_db_name cfg = ''blockchain''" using sample_indexer_config by blast
  have e: "indexer_env sample_genesis_env (cfg_db_name cfg) ref_rows"
    using sample.indexer_env_axioms c(2) by (simp add: sample_db_def)
  note v = indexer_main_value [OF indexer_env.axioms(1) [OF e] c(1) m]
  let ?C = "sample_config\<lparr>ic_fetcher := f\<rparr>"
  have h: "harmless ref_rows ?C"
    by (rule sample.registered_harmless [where e = Unknown_exn]) (use v c(2) in \<open>simp_all add: sample_config_def sample_db_def\<close>)
  have rows: "ref_rows (\<lambda>_. []) t = Map.empty" "ref_rows w' t_blocks = Map.empty" for t
    using f(2) by (simp_all add: ref_rows_def fun_eq_iff)
  then have z: "max_index ''block-id'' (ref_rows (\<lambda>_. []) t_blocks) = 0" "max_index ''block-id'' (ref_rows w' t_blocks) = 0"
    by (simp_all add: max_index_def)
  have inv: "blocks_inv (ref_rows (\<lambda>_. []))" by (simp add: rows blocks_inv_def block_rows_def)
  have s0: "s0 = fetcher_start \<lparr>rp_world = w', rp_counter = 0\<rparr> 0" using v z(2) by simp
  have "fetch_run sample_genesis_env (ic_time ?C) (ic_fetcher ?C) s0 [Main_round, Start_range 1, Request 0, Request 1, End_range 1]
      (sample_fstate w' 1 [] False [] [0, 1])" unfolding s0 by (rule sample_fetch_run) (simp_all add: f(1))
  from fetch_run_indexer [OF this, of "indexer_start s0"] obtain ss where
    r: "indexer_run sample_genesis_env ?C (indexer_start s0) ss ((indexer_start s0)\<lparr>in_fetch := sample_fstate w' 1 [] False [] [0, 1]\<rparr>)"
    by (auto simp: indexer_start_def)
  have "under_way (ref_rows (in_world s)) (in_fetch s) 0"
    if "s = (indexer_start s0)\<lparr>in_fetch := sample_fstate w' 1 [] False [] [0, 1]\<rparr>" for s
    using indexer_resumes [OF e c(1) m _ h inv r refl] z(1) unfolding that by (simp add: sample_fstate_def)
  with r m show ?thesis
    by (intro exI conjI) (auto simp: sample_main_def sample_fstate_def)
qed

section \<open>A block on its way from a node to a client\<close>

text \<open>
  (C4) A block of the chain gets to the clients of the explorer: if the next block is requested, no other block waits,
  and the node whose turn it is sends it with its transactions, then three steps of the indexer (the task that fetches
  it, the task that stores it, a round of the block worker) lead to a database for which the backend answers a well-formed POST of
  \<open>get-block\<close> with its number with 200, the id of the request and, as the result, the block as the node sent it, apart from the
  number and the two times the indexer adds.
\<close>

theorem block_reaches_api:
  assumes "indexer_env E (db_name (ic_db C)) rows" and "db_name d = db_name (ic_db C)"
    and "blocks_inv (rows (in_world s))" and "rows (in_world s) t_blocks_processing = Map.empty"
    and "i \<in> set (fs_requests (in_fetch s))" and "unat i < 2 ^ 64"
    and "rows (in_world s) t_blocks (to_string (unat i)) = None"
    and "\<not> too_far (max_index ''block-id'' (rows (in_world s) t_blocks)) (ucast i)"
    and "urls = fc_urls (ic_fetcher C)" and "urls \<noteq> []"
    and "url = urls ! (unat (rp_counter (fs_rpc (in_fetch s))) mod length urls)"
    and "rpc_connect E url (in_world s) = (Inr True, w1)" and "rpc_get_block E url i w1 = (Inr (Some j), w2)"
    and "field j ''block-data'' = Some b" and "field b ''transactions'' \<noteq> None"
    and "\<not> forbidden (api_router E d) req" and "hq_method req = Verb_post" and "jl_parse E (hq_body req) = Inr q"
    and "rpc_request q = Some (rid, ''get-block'', p)" and "field p ''id'' = Some (JUint (ucast i))"
  shows "\<exists>s1 s2 s3 r res text. indexer_step E C s (Fetch (Fetched b i)) s1 \<and> indexer_step E C s1 (Fetch (Stored b i)) s2
    \<and> indexer_step E C s2 Blocks_round s3
    \<and> handle E (api_router E d) req (in_world s3) = (Inr res, in_world s3) \<and> hp_status res = 200 \<and> hp_body res = text @ [CHR 0x0A]
    \<and> serialize_response E \<lparr>rs_id = rid, rs_result = r, rs_error = None\<rparr> = Inr text \<and> as_sent b r"
proof -
  have X: "explorer_env E (db_name d) rows" using indexer_env.axioms(1) [OF assms(1)] assms(2) by simp
  have "block_attempt E (fc_urls (ic_fetcher C)) i (fs_rpc (in_fetch s))
      = (Inr (Some b), \<lparr>rp_world = w2, rp_counter = rp_counter (fs_rpc (in_fetch s)) + 1\<rparr>)"
    using block_attempt_value [OF explorer_env.axioms(1) [OF X] assms(10,11) _ assms(13,14)] assms(9,12)
    by (simp add: in_world_def)
  from indexer_env.next_block_stored [OF assms(1) refl assms(3-8) this assms(15)] obtain s1 s2 s3 r where
    st: "indexer_step E C s (Fetch (Fetched b i)) s1" "indexer_step E C s1 (Fetch (Stored b i)) s2" "indexer_step E C s2 Blocks_round s3"
    and r: "rows (in_world s3) t_blocks (to_string (unat i)) = Some r"
      "as_sent b r"
    by blast
  have "unat (ucast i :: uint64) = unat i" using assms(6) by (simp add: unsigned_ucast_eq take_bit_nat_eq_self)
  then have "api_get_block E d (c, in_world s3) = (Inr (), (set_result r c, in_world s3))" if "params c = p" for c
    using explorer_env.get_block_number [OF X refl, of c "ucast i" "in_world s3"] that assms(20) r(1) by simp
  moreover have "map_of (method_entries (api_methods E (help_json E))) ''get-block'' = Some (api_get_block E)"
    by (simp add: api_methods_def)
  ultimately obtain res body where "handle E (api_router E d) req (in_world s3) = (Inr res, in_world s3)" "hp_status res = 200"
    "hp_body res = body @ [CHR 0x0A]" "serialize_response E \<lparr>rs_id = rid, rs_result = r, rs_error = None\<rparr> = Inr body"
    using method_answer [OF explorer_env.axioms(1) [OF X] assms(16-19)] by blast
  with st r(2) show ?thesis by (intro exI [of _ s1] exI [of _ s2] exI [of _ s3] exI [of _ r] exI [of _ res] exI [of _ body] conjI)
qed

theorem block_reaches_api_witness:
  "\<exists>s3 r res text. handle sample_genesis_env (api_router sample_genesis_env sample_db)
      \<lparr>hq_method = Verb_post, hq_target = ''/v1/api'', hq_version = 11, hq_body = ''get-block''\<rparr> (in_world s3) = (Inr res, in_world s3)
    \<and> hp_status res = 200 \<and> serialize_response sample_genesis_env \<lparr>rs_id = JUint 1, rs_result = r, rs_error = None\<rparr> = Inr text
    \<and> field r ''id'' = Some (JStr ''0'')"
proof -
  let ?s = "(indexer_start (sample_fstate (\<lambda>_. []) 1 [] False [] [0, 1])) :: refdb indexer"
  let ?req = "\<lparr>hq_method = Verb_post, hq_target = ''/v1/api'', hq_version = 11, hq_body = ''get-block''\<rparr>"
  obtain b where b: "field (sample_answer 0) ''block-data'' = Some b" "field b ''transactions'' \<noteq> None" "field b ''id'' = Some (JStr (to_string 0))"
    by (simp add: sample_answer_def obj_def)
  have z: "to_string 0 = ''0''" by code_simp
  have w: "in_world ?s = (\<lambda>_. [])" by (simp add: indexer_start_def in_world_def sample_fstate_def)
  have e: "ref_rows (\<lambda>_. []) t = Map.empty" for t by (simp add: ref_rows_def fun_eq_iff)
  have h: "\<not> forbidden (api_router sample_genesis_env sample_db) ?req" "hq_method ?req = Verb_post"
    by (simp_all add: forbidden_def request_path_def api_router_path)
  have j: "jl_parse sample_genesis_env (hq_body ?req) = Inr sample_request"
    "rpc_request sample_request = Some (JUint 1, ''get-block'', obj [(''id'', JUint 0)])"
    by (simp_all add: sample_genesis_env_def sample_node_env_def node_env.defs env.defs sample_env_def ref_env_def ref_mile_def
        mile_lib.defs json_lib.defs std_json_def rpc_request_def request_params_def sample_request_def obj_def)
  have p: "field (obj [(''id'', JUint 0)]) ''id'' = Some (JUint (ucast (0 :: uint256)))" by (simp add: obj_def)
  have inv: "blocks_inv (ref_rows (in_world ?s))" by (simp add: w e blocks_inv_def block_rows_def)
  have far: "\<not> too_far (max_index ''block-id'' (ref_rows (in_world ?s) t_blocks)) (ucast (0 :: uint256))"
    by (simp add: w e too_far_def max_index_def)
  have q: "ref_rows (in_world ?s) t_blocks_processing = Map.empty" "ref_rows (in_world ?s) t_blocks (to_string (unat (0 :: uint256))) = None"
    "0 \<in> set (fs_requests (in_fetch ?s))" "unat (0 :: uint256) < 2 ^ 64" "fc_urls (ic_fetcher sample_config) \<noteq> []"
    "db_name sample_db = db_name (ic_db sample_config)"
    by (simp_all add: e in_world_def indexer_start_def sample_fstate_def sample_config_def sample_fetcher_def)
  have n: "rpc_connect sample_genesis_env u w = (Inr True, w)" "rpc_get_block sample_genesis_env u 0 w = (Inr (Some (sample_answer 0)), w)" for u w
    by simp_all
  obtain s3 r res body where "handle sample_genesis_env (api_router sample_genesis_env sample_db) ?req (in_world s3) = (Inr res, in_world s3)"
    "hp_status res = 200" "serialize_response sample_genesis_env \<lparr>rs_id = JUint 1, rs_result = r, rs_error = None\<rparr> = Inr body" "as_sent b r"
    using block_reaches_api [OF sample_config_env q(6) inv q(1,3,4,2) far refl q(5) refl n b(1,2) h j p]
    by (elim exE conjE) (rule that)
  moreover from this(4) b(3) z have "field r ''id'' = Some (JStr ''0'')" by (simp add: as_sent_def)
  ultimately show ?thesis by blast
qed

end
